theory Spec2Isabelle
  imports Main "HOL-Library.Word"
begin

unbundle bit_operations_syntax

section \<open>Data model of miniargv\<close>

text \<open>
  A C string is modelled by the list of its characters before the terminating NUL.
  Reading \<open>s[k]\<close> at \<open>k = strlen s\<close> yields the terminator, which \<open>char_at\<close>
  writes out.  A \<open>const char*\<close> that may be NULL is a \<open>string option\<close>.
\<close>

definition char_at :: "string \<Rightarrow> nat \<Rightarrow> char" where
  "char_at s k = (if k < length s then s ! k else CHR 0x00)"

text \<open>
  \<open>struct miniargv_definition_struct\<close> (miniargv.h).  The type \<open>'f\<close> names the
  functions a \<open>miniargv_handler_fn\<close> pointer can point to (\<open>None\<close> is the NULL pointer),
  \<open>'u\<close> is what \<open>userdata\<close> points to.  The field \<open>help\<close> of the header is called
  \<open>help_text\<close> here.
\<close>

record ('f, 'u) miniargv_definition =
  shortarg :: char
  longarg :: "string option"
  argparam :: "string option"
  callbackfn :: "'f option"
  userdata :: 'u
  help_text :: string

text \<open>
  A definition table is the C array up to its end; the entry whose \<open>callbackfn\<close> is NULL is
  the sentinel at which every scan stops.  The end of the list stands for the sentinel that
  the header requires as last entry.
\<close>

type_synonym ('f, 'u) table = "('f, 'u) miniargv_definition list"

text \<open>
  The \<open>void* callbackdata\<close> handed to every callback: the caller's pointer, or, in the
  find-only query, the address of the local \<open>int argindex\<close> (modelled by its content).
\<close>

datatype 'c callbackdata = UserData 'c | ArgIndex int

text \<open>
  The meaning of a call through a handler pointer: the callee sees the definition (NULL for
  the bad-argument handler), the value (NULL when there is none) and the callback data,
  returns an \<open>int\<close> and may change the state \<open>'s\<close> of the caller's program.
\<close>

type_synonym ('f, 'u, 'c, 's) handler_call =
  "'f \<Rightarrow> ('f, 'u) miniargv_definition option \<Rightarrow> string option \<Rightarrow> 'c callbackdata \<Rightarrow> 's \<Rightarrow> int \<times> 's"

text \<open>
  What a traversal does that is visible outside: the calls it makes, in order, and the
  diagnostic it prints.  \<open>Callback i d v\<close> is a call of the callback of definition \<open>d\<close>
  with value \<open>v\<close> while the cursor is at token \<open>i\<close>; \<open>BadArg i t\<close> is a call of the
  bad-argument handler with token \<open>t\<close>; \<open>EnvCallback d v\<close> is a call made for an
  environment variable or a configuration line; \<open>Stderr t\<close> is the line printed on stderr.
\<close>

datatype ('f, 'u) event =
    Callback nat "('f, 'u) miniargv_definition" "string option"
  | BadArg nat string
  | EnvCallback "('f, 'u) miniargv_definition" string
  | Stderr string

section \<open>The matching engine: \<open>miniargv_process_partial\<close>\<close>

definition MINIARG_PROCESS_FLAG_FLAGS :: "32 word" where
  "MINIARG_PROCESS_FLAG_FLAGS = 0x01"

definition MINIARG_PROCESS_FLAG_VALUES :: "32 word" where
  "MINIARG_PROCESS_FLAG_VALUES = 0x02"

definition MINIARG_PROCESS_FLAG_BOTH :: "32 word" where
  "MINIARG_PROCESS_FLAG_BOTH = (MINIARG_PROCESS_FLAG_FLAGS OR MINIARG_PROCESS_FLAG_VALUES)"

definition MINIARG_PROCESS_FLAG_FIND_ONLY :: "32 word" where
  "MINIARG_PROCESS_FLAG_FIND_ONLY = 0x08"

definition MINIARG_PROCESS_FLAG_FIND_VALUE :: "32 word" where
  "MINIARG_PROCESS_FLAG_FIND_VALUE = (MINIARG_PROCESS_FLAG_FIND_ONLY OR MINIARG_PROCESS_FLAG_VALUES)"

text \<open>
  \<open>strncmp a b n == 0\<close> of the C library on NUL-terminated strings: the first \<open>n\<close>
  characters agree, where a string that ends earlier agrees only with one that ends at the
  same place.
\<close>

fun strncmp_eq :: "string \<Rightarrow> string \<Rightarrow> nat \<Rightarrow> bool" where
  "strncmp_eq a b 0 = True"
| "strncmp_eq [] [] (Suc n) = True"
| "strncmp_eq [] (y # ys) (Suc n) = False"
| "strncmp_eq (x # xs) [] (Suc n) = False"
| "strncmp_eq (x # xs) (y # ys) (Suc n) = (x = y \<and> strncmp_eq xs ys n)"

text \<open>
  The outcome of resolving the token under the cursor (lines 26 to 110 of the loop body):
  either the body goes on to the bad-argument test with its \<open>success\<close> flag, the cursor,
  the state and the calls made, or the find-only query has returned the cursor.
\<close>

datatype ('f, 'u, 's) resolved =
    Resolved bool nat 's "('f, 'u) event list"
  | Found nat 's

text \<open>
  The four lines that every matching branch repeats: without the FLAGS bit (respectively the
  VALUES bit) the match counts as success and no call is made; with it the callback is
  called and the match succeeds when it returns 0.
\<close>

definition invoke ::
  "('f, 'u, 'c, 's) handler_call \<Rightarrow> bool \<Rightarrow> 'f \<Rightarrow> ('f, 'u) miniargv_definition \<Rightarrow>
   string option \<Rightarrow> 'c callbackdata \<Rightarrow> nat \<Rightarrow> 's \<Rightarrow> ('f, 'u, 's) resolved" where
  "invoke call silent f d v cbd i s =
     (if silent then Resolved True i s []
      else (case call f (Some d) v cbd s of
              (r, s') \<Rightarrow> Resolved (r = 0) i s' [Callback i d v]))"

text \<open>The scan of the table for a short argument (lines 30 to 60).\<close>

fun short_arg ::
  "('f, 'u, 'c, 's) handler_call \<Rightarrow> 32 word \<Rightarrow> string list \<Rightarrow> 'c callbackdata \<Rightarrow> nat \<Rightarrow> 's \<Rightarrow>
   ('f, 'u) table \<Rightarrow> ('f, 'u, 's) resolved" where
  "short_arg call flags argv cbd i s [] = Resolved False i s []"
| "short_arg call flags argv cbd i s (d # ds) =
     (case callbackfn d of
        None \<Rightarrow> Resolved False i s []
      | Some f \<Rightarrow>
          if shortarg d \<noteq> CHR 0x00 \<and> char_at (argv ! i) 1 = shortarg d then
            (if argparam d = None then
               (if char_at (argv ! i) 2 = CHR 0x00
                then invoke call (flags AND MINIARG_PROCESS_FLAG_FLAGS = 0) f d None cbd i s
                else Resolved False i s [])
             else if char_at (argv ! i) 2 \<noteq> CHR 0x00 then
               invoke call (flags AND MINIARG_PROCESS_FLAG_FLAGS = 0) f d
                 (Some (drop 2 (argv ! i))) cbd i s
             else if Suc i < length argv then
               invoke call (flags AND MINIARG_PROCESS_FLAG_FLAGS = 0) f d
                 (Some (argv ! Suc i)) cbd (Suc i) s
             else Resolved False i s [])
          else short_arg call flags argv cbd i s ds)"

text \<open>The scan of the table for a long argument (lines 63 to 87).\<close>

fun long_arg ::
  "('f, 'u, 'c, 's) handler_call \<Rightarrow> 32 word \<Rightarrow> string list \<Rightarrow> 'c callbackdata \<Rightarrow> nat \<Rightarrow> 's \<Rightarrow>
   ('f, 'u) table \<Rightarrow> ('f, 'u, 's) resolved" where
  "long_arg call flags argv cbd i s [] = Resolved False i s []"
| "long_arg call flags argv cbd i s (d # ds) =
     (case callbackfn d of
        None \<Rightarrow> Resolved False i s []
      | Some f \<Rightarrow>
          (case longarg d of
             None \<Rightarrow> long_arg call flags argv cbd i s ds
           | Some name \<Rightarrow>
               if strncmp_eq (drop 2 (argv ! i)) name (length name) \<and>
                  (char_at (argv ! i) (2 + length name) = CHR 0x00 \<or>
                   char_at (argv ! i) (2 + length name) = CHR ''='') then
                 (if argparam d = None then
                    (if char_at (argv ! i) (2 + length name) = CHR 0x00
                     then invoke call (flags AND MINIARG_PROCESS_FLAG_FLAGS = 0) f d None cbd i s
                     else Resolved False i s [])
                  else if char_at (argv ! i) (2 + length name) = CHR ''='' then
                    invoke call (flags AND MINIARG_PROCESS_FLAG_FLAGS = 0) f d
                      (Some (drop (3 + length name) (argv ! i))) cbd i s
                  else Resolved False i s [])
               else long_arg call flags argv cbd i s ds))"

text \<open>
  The lookup of the standalone value definition (lines 92 to 99): the first entry before
  the sentinel that has neither a short nor a long argument.
\<close>

fun find_standalone :: "('f, 'u) table \<Rightarrow> ('f, 'u) miniargv_definition option" where
  "find_standalone [] = None"
| "find_standalone (d # ds) =
     (case callbackfn d of
        None \<Rightarrow> None
      | Some f \<Rightarrow>
          if shortarg d = CHR 0x00 \<and> longarg d = None then Some d else find_standalone ds)"

text \<open>
  The two locals \<open>standalonevaluedefset\<close> and \<open>standalonevaluedef\<close> that live across the
  iterations of the loop.
\<close>

record ('f, 'u) standalone_cache =
  standalonevaluedefset :: bool
  standalonevaluedef :: "('f, 'u) miniargv_definition option"

definition standalone_lookup ::
  "('f, 'u) table \<Rightarrow> ('f, 'u) standalone_cache \<Rightarrow> ('f, 'u) standalone_cache" where
  "standalone_lookup argdef cache =
     (if \<not> standalonevaluedefset cache
      then \<lparr>standalonevaluedefset = True, standalonevaluedef = find_standalone argdef\<rparr>
      else cache)"

text \<open>The dispatch of a standalone value argument (lines 102 to 109).\<close>

definition standalone_arg ::
  "('f, 'u, 'c, 's) handler_call \<Rightarrow> 32 word \<Rightarrow> string list \<Rightarrow> 'c callbackdata \<Rightarrow> nat \<Rightarrow> 's \<Rightarrow>
   ('f, 'u) standalone_cache \<Rightarrow> ('f, 'u, 's) resolved" where
  "standalone_arg call flags argv cbd i s cache =
     (case standalonevaluedef cache of
        None \<Rightarrow> Resolved False i s []
      | Some d \<Rightarrow>
          (case callbackfn d of
             None \<Rightarrow> Resolved False i s []
           | Some f \<Rightarrow>
               if flags AND MINIARG_PROCESS_FLAG_VALUES = 0 then Resolved True i s []
               else if flags AND MINIARG_PROCESS_FLAG_FIND_ONLY \<noteq> 0 then Found i s
               else invoke call False f d (Some (argv ! i)) cbd i s))"

text \<open>
  The classification of the token under the cursor and its resolution (lines 26 to 110).
  The result carries the cache as the branch leaves it.
\<close>

definition resolve_arg ::
  "('f, 'u, 'c, 's) handler_call \<Rightarrow> 32 word \<Rightarrow> string list \<Rightarrow> ('f, 'u) table \<Rightarrow>
   'c callbackdata \<Rightarrow> nat \<Rightarrow> ('f, 'u) standalone_cache \<Rightarrow> 's \<Rightarrow>
   ('f, 'u, 's) resolved \<times> ('f, 'u) standalone_cache" where
  "resolve_arg call flags argv argdef cbd i cache s =
     (if char_at (argv ! i) 0 = CHR ''-'' \<and> char_at (argv ! i) 1 \<noteq> CHR 0x00 then
        (if char_at (argv ! i) 1 \<noteq> CHR ''-''
         then (short_arg call flags argv cbd i s argdef, cache)
         else (long_arg call flags argv cbd i s argdef, cache))
      else
        (standalone_arg call flags argv cbd i s (standalone_lookup argdef cache),
         standalone_lookup argdef cache))"

text \<open>
  The end of the loop body (lines 111 to 125): what becomes of the iteration once the token
  is resolved.  \<open>Continue\<close> passes the cursor on to the loop's \<open>i++\<close>; \<open>Abort\<close> is a
  \<open>return\<close> from inside the loop.
\<close>

datatype ('f, 'u, 's) iteration =
    Continue nat 's "('f, 'u) event list"
  | Abort int 's "('f, 'u) event list"

definition bad_arg ::
  "('f, 'u, 'c, 's) handler_call \<Rightarrow> 32 word \<Rightarrow> string list \<Rightarrow> 'f option \<Rightarrow> 'c callbackdata \<Rightarrow>
   ('f, 'u, 's) resolved \<Rightarrow> ('f, 'u, 's) iteration" where
  "bad_arg call flags argv badfn cbd res =
     (case res of
        Found i s \<Rightarrow> Abort (int i) s []
      | Resolved success i s ev \<Rightarrow>
          if success then Continue i s ev
          else (case badfn of
                  Some b \<Rightarrow>
                    (case call b None (Some (argv ! i)) cbd s of
                       (r, s') \<Rightarrow>
                         if r = 0 then Continue i s' (ev @ [BadArg i (argv ! i)])
                         else if flags AND MINIARG_PROCESS_FLAG_FIND_ONLY \<noteq> 0
                         then Abort (- 1) s' (ev @ [BadArg i (argv ! i)])
                         else Abort (int i) s' (ev @ [BadArg i (argv ! i)]))
                | None \<Rightarrow>
                    if flags AND MINIARG_PROCESS_FLAG_FIND_ONLY \<noteq> 0 then Abort (- 1) s ev
                    else Abort (int i) s
                      (ev @ [Stderr (''Invalid command line argument: '' @ argv ! i @ [CHR 0x0A])])))"

text \<open>One iteration of the \<open>for\<close> loop, before its \<open>i++\<close>.\<close>

definition loop_body ::
  "('f, 'u, 'c, 's) handler_call \<Rightarrow> 32 word \<Rightarrow> string list \<Rightarrow> ('f, 'u) table \<Rightarrow> 'f option \<Rightarrow>
   'c callbackdata \<Rightarrow> nat \<Rightarrow> ('f, 'u) standalone_cache \<Rightarrow> 's \<Rightarrow>
   ('f, 'u, 's) iteration \<times> ('f, 'u) standalone_cache" where
  "loop_body call flags argv argdef badfn cbd i cache s =
     (case resolve_arg call flags argv argdef cbd i cache s of
        (res, cache') \<Rightarrow> (bad_arg call flags argv badfn cbd res, cache'))"

lemma invoke_cursor:
  "invoke call silent f d v cbd j s = Resolved ok i' s' ev \<Longrightarrow> i' = j"
  by (auto simp: invoke_def split: if_splits prod.splits)

lemma short_arg_cursor:
  "short_arg call flags argv cbd i s ds = Resolved ok i' s' ev \<Longrightarrow>
   i \<le> i' \<and> (i < length argv \<longrightarrow> i' < length argv)"
  by (induction ds) (auto split: option.splits if_splits dest!: invoke_cursor)

lemma long_arg_cursor:
  "long_arg call flags argv cbd i s ds = Resolved ok i' s' ev \<Longrightarrow> i' = i"
  by (induction ds) (auto split: option.splits if_splits dest!: invoke_cursor)

lemma standalone_arg_cursor:
  "standalone_arg call flags argv cbd i s cache = Resolved ok i' s' ev \<Longrightarrow> i' = i"
  by (auto simp: standalone_arg_def split: option.splits if_splits dest!: invoke_cursor)

lemma resolve_arg_cursor:
  "resolve_arg call flags argv argdef cbd i cache s = (Resolved ok i' s' ev, cache') \<Longrightarrow>
   i \<le> i' \<and> (i < length argv \<longrightarrow> i' < length argv)"
  by (auto simp: resolve_arg_def split: if_splits
      dest: short_arg_cursor long_arg_cursor standalone_arg_cursor)

lemma loop_body_cursor:
  "loop_body call flags argv argdef badfn cbd i cache s = (Continue i' s' ev, cache') \<Longrightarrow>
   i \<le> i' \<and> (i < length argv \<longrightarrow> i' < length argv)"
  by (auto simp: loop_body_def bad_arg_def
      split: prod.splits resolved.splits if_splits option.splits dest: resolve_arg_cursor)

text \<open>
  The \<open>for\<close> loop from cursor \<open>i\<close> on: \<open>argv[i]\<close> is NULL exactly at \<open>i = length argv\<close>.
  The result is the returned \<open>int\<close>, the state the callbacks leave and what was called
  and printed.
\<close>

function partial_loop ::
  "('f, 'u, 'c, 's) handler_call \<Rightarrow> 32 word \<Rightarrow> string list \<Rightarrow> ('f, 'u) table \<Rightarrow> 'f option \<Rightarrow>
   'c callbackdata \<Rightarrow> nat \<Rightarrow> ('f, 'u) standalone_cache \<Rightarrow> 's \<Rightarrow> int \<times> 's \<times> ('f, 'u) event list" where
  "partial_loop call flags argv argdef badfn cbd i cache s =
     (if i < length argv then
        (case loop_body call flags argv argdef badfn cbd i cache s of
           (Abort r s' ev, cache') \<Rightarrow> (r, s', ev)
         | (Continue i' s' ev, cache') \<Rightarrow>
             (case partial_loop call flags argv argdef badfn cbd (Suc i') cache' s' of
                (r, s'', ev') \<Rightarrow> (r, s'', ev @ ev')))
      else (0, s, []))"
  by pat_completeness auto
termination
  by (relation "measure (\<lambda>(call, flags, argv, argdef, badfn, cbd, i, cache, s). length argv - i)")
     (auto dest: loop_body_cursor [OF sym])

declare partial_loop.simps [simp del]

text \<open>
  The initialisation of the cursor (line 25): 1, or \<open>*(int* )callbackdata + 1\<close> in the
  find-only query.
\<close>

definition start_index :: "32 word \<Rightarrow> 'c callbackdata \<Rightarrow> int option" where
  "start_index flags cbd =
     (if flags AND MINIARG_PROCESS_FLAG_FIND_ONLY = 0 then Some 1
      else (case cbd of ArgIndex n \<Rightarrow> Some (n + 1) | UserData c \<Rightarrow> None))"

text \<open>
  \<open>miniargv_process_partial\<close>.  The result is \<open>None\<close> where the C program has no defined
  behaviour: the first \<open>argv[i]\<close> lies outside the array and its NULL terminator, or the
  find-only query is not given the address of an \<open>int\<close>.
\<close>

definition miniargv_process_partial ::
  "('f, 'u, 'c, 's) handler_call \<Rightarrow> 32 word \<Rightarrow> string list \<Rightarrow> ('f, 'u) table \<Rightarrow> 'f option \<Rightarrow>
   'c callbackdata \<Rightarrow> 's \<Rightarrow> (int \<times> 's \<times> ('f, 'u) event list) option" where
  "miniargv_process_partial call flags argv argdef badfn cbd s =
     (case start_index flags cbd of
        None \<Rightarrow> None
      | Some k \<Rightarrow>
          if 0 \<le> k \<and> k \<le> int (length argv)
          then Some (partial_loop call flags argv argdef badfn cbd (nat k)
                 \<lparr>standalonevaluedefset = False, standalonevaluedef = None\<rparr> s)
          else None)"

definition miniargv_process_arg ::
  "('f, 'u, 'c, 's) handler_call \<Rightarrow> string list \<Rightarrow> ('f, 'u) table \<Rightarrow> 'f option \<Rightarrow> 'c \<Rightarrow> 's \<Rightarrow>
   (int \<times> 's \<times> ('f, 'u) event list) option" where
  "miniargv_process_arg call argv argdef badfn callbackdata s =
     miniargv_process_partial call MINIARG_PROCESS_FLAG_BOTH argv argdef badfn
       (UserData callbackdata) s"

definition miniargv_process_arg_flags ::
  "('f, 'u, 'c, 's) handler_call \<Rightarrow> string list \<Rightarrow> ('f, 'u) table \<Rightarrow> 'f option \<Rightarrow> 'c \<Rightarrow> 's \<Rightarrow>
   (int \<times> 's \<times> ('f, 'u) event list) option" where
  "miniargv_process_arg_flags call argv argdef badfn callbackdata s =
     miniargv_process_partial call MINIARG_PROCESS_FLAG_FLAGS argv argdef badfn
       (UserData callbackdata) s"

definition miniargv_process_arg_params ::
  "('f, 'u, 'c, 's) handler_call \<Rightarrow> string list \<Rightarrow> ('f, 'u) table \<Rightarrow> 'f option \<Rightarrow> 'c \<Rightarrow> 's \<Rightarrow>
   (int \<times> 's \<times> ('f, 'u) event list) option" where
  "miniargv_process_arg_params call argv argdef badfn callbackdata s =
     miniargv_process_partial call MINIARG_PROCESS_FLAG_VALUES argv argdef badfn
       (UserData callbackdata) s"


section \<open>Environment variables: \<open>miniargv_process_env\<close>\<close>

text \<open>\<open>strchr s c\<close> of the C library, as the offset of the first \<open>c\<close> in \<open>s\<close>.\<close>

fun strchr :: "string \<Rightarrow> char \<Rightarrow> nat option" where
  "strchr [] c = None"
| "strchr (x # xs) c = (if x = c then Some 0 else map_option Suc (strchr xs c))"

text \<open>
  The inner loop over the environment for one definition (lines 183 to 191).  A non-zero
  result is the \<open>return result\<close> that leaves the whole function.
\<close>

fun env_scan ::
  "('f, 'u, 'c, 's) handler_call \<Rightarrow> 'f \<Rightarrow> ('f, 'u) miniargv_definition \<Rightarrow> string \<Rightarrow>
   'c callbackdata \<Rightarrow> 's \<Rightarrow> string list \<Rightarrow> int \<times> 's \<times> ('f, 'u) event list" where
  "env_scan call f d name cbd s [] = (0, s, [])"
| "env_scan call f d name cbd s (e # es) =
     (case strchr e CHR ''='' of
        None \<Rightarrow> env_scan call f d name cbd s es
      | Some k \<Rightarrow>
          if strncmp_eq e name k then
            (case call f (Some d) (Some (drop (Suc k) e)) cbd s of
               (result, s') \<Rightarrow>
                 if result \<noteq> 0 then (result, s', [EnvCallback d (drop (Suc k) e)])
                 else (case env_scan call f d name cbd s' es of
                         (r, s'', ev) \<Rightarrow> (r, s'', EnvCallback d (drop (Suc k) e) # ev)))
          else env_scan call f d name cbd s es)"

text \<open>The outer loop over the definitions (lines 180 to 195).\<close>

fun env_defs ::
  "('f, 'u, 'c, 's) handler_call \<Rightarrow> string list \<Rightarrow> 'c callbackdata \<Rightarrow> 's \<Rightarrow> ('f, 'u) table \<Rightarrow>
   int \<times> 's \<times> ('f, 'u) event list" where
  "env_defs call env cbd s [] = (0, s, [])"
| "env_defs call env cbd s (d # ds) =
     (case callbackfn d of
        None \<Rightarrow> (0, s, [])
      | Some f \<Rightarrow>
          (case longarg d of
             None \<Rightarrow> env_defs call env cbd s ds
           | Some name \<Rightarrow>
               (case env_scan call f d name cbd s env of
                  (result, s', ev) \<Rightarrow>
                    if result \<noteq> 0 then (result, s', ev)
                    else (case env_defs call env cbd s' ds of
                            (r, s'', ev') \<Rightarrow> (r, s'', ev @ ev')))))"

definition miniargv_process_env ::
  "('f, 'u, 'c, 's) handler_call \<Rightarrow> string list \<Rightarrow> ('f, 'u) table \<Rightarrow> 'c \<Rightarrow> 's \<Rightarrow>
   int \<times> 's \<times> ('f, 'u) event list" where
  "miniargv_process_env call env envdef callbackdata s =
     env_defs call env (UserData callbackdata) s envdef"

section \<open>The two-pass and the left-to-right drivers\<close>

text \<open>
  \<open>miniargv_process\<close> and \<open>miniargv_process_ltr\<close>; \<open>argv\<close> and \<open>env\<close> may be NULL.
  A pass that is not run leaves \<open>result\<close> as it is.
\<close>

definition run_if_zero ::
  "int \<times> 's \<times> 'e list \<Rightarrow> ('s \<Rightarrow> (int \<times> 's \<times> 'e list) option) \<Rightarrow> (int \<times> 's \<times> 'e list) option" where
  "run_if_zero acc pass =
     (case acc of
        (result, s, ev) \<Rightarrow>
          if result = 0
          then (case pass s of None \<Rightarrow> None | Some (r, s', ev') \<Rightarrow> Some (r, s', ev @ ev'))
          else Some (result, s, ev))"

definition miniargv_process ::
  "('f, 'u, 'c, 's) handler_call \<Rightarrow> string list option \<Rightarrow> string list option \<Rightarrow> ('f, 'u) table \<Rightarrow>
   ('f, 'u) table \<Rightarrow> 'f option \<Rightarrow> 'c \<Rightarrow> 's \<Rightarrow> (int \<times> 's \<times> ('f, 'u) event list) option" where
  "miniargv_process call argv env argdef envdef badfn callbackdata s =
     (case (case env of None \<Rightarrow> (0, s, [])
            | Some e \<Rightarrow> miniargv_process_env call e envdef callbackdata s) of
        acc \<Rightarrow>
          (case argv of
             None \<Rightarrow> Some acc
           | Some a \<Rightarrow>
               (case run_if_zero acc
                       (miniargv_process_partial call MINIARG_PROCESS_FLAG_FLAGS a argdef badfn
                          (UserData callbackdata)) of
                  None \<Rightarrow> None
                | Some acc' \<Rightarrow>
                    run_if_zero acc'
                      (miniargv_process_partial call MINIARG_PROCESS_FLAG_VALUES a argdef badfn
                         (UserData callbackdata)))))"

definition miniargv_process_ltr ::
  "('f, 'u, 'c, 's) handler_call \<Rightarrow> string list option \<Rightarrow> string list option \<Rightarrow> ('f, 'u) table \<Rightarrow>
   ('f, 'u) table \<Rightarrow> 'f option \<Rightarrow> 'c \<Rightarrow> 's \<Rightarrow> (int \<times> 's \<times> ('f, 'u) event list) option" where
  "miniargv_process_ltr call argv env argdef envdef badfn callbackdata s =
     (case (case env of None \<Rightarrow> (0, s, [])
            | Some e \<Rightarrow> miniargv_process_env call e envdef callbackdata s) of
        acc \<Rightarrow>
          (case argv of
             None \<Rightarrow> Some acc
           | Some a \<Rightarrow> run_if_zero acc (miniargv_process_arg call a argdef badfn callbackdata)))"

section \<open>Configuration files: \<open>miniargv_process_cfgfile\<close>\<close>

text \<open>\<open>isspace\<close> of the C library in the C locale.\<close>

definition isspace :: "char \<Rightarrow> bool" where
  "isspace c = (c = CHR '' '' \<or> c = CHR 0x09 \<or> c = CHR 0x0A \<or> c = CHR 0x0B \<or>
                c = CHR 0x0C \<or> c = CHR 0x0D)"

text \<open>
  \<open>fgets(data, n + 1, src)\<close> on the part of the file that is still unread: at most
  \<open>n\<close> characters, up to and including the first \<open>\n\<close>.  The empty result stands for
  the NULL that \<open>fgets\<close> returns at the end of the file.
\<close>

definition READLINE_BLOCK_SIZE :: nat where
  "READLINE_BLOCK_SIZE = 128"

fun fgets :: "nat \<Rightarrow> string \<Rightarrow> string \<times> string" where
  "fgets 0 src = ([], src)"
| "fgets (Suc n) [] = ([], [])"
| "fgets (Suc n) (c # cs) =
     (if c = CHR 0x0A then ([c], cs)
      else (case fgets n cs of (data, rest) \<Rightarrow> (c # data, rest)))"

text \<open>
  The C string that a buffer holds: its characters before the first NUL.  \<open>strlen\<close> is
  its length.
\<close>

definition c_string :: "string \<Rightarrow> string" where
  "c_string data = takeWhile (\<lambda>c. c \<noteq> CHR 0x00) data"

lemma fgets_length: "fgets n src = (data, rest) \<Longrightarrow> length data + length rest = length src"
  by (induction n src arbitrary: data rest rule: fgets.induct) (auto split: if_splits prod.splits)

lemma fgets_shorter: "(data, rest) = fgets n src \<Longrightarrow> data \<noteq> [] \<Longrightarrow> length rest < length src"
  using fgets_length [of n src data rest] by (cases data) auto

text \<open>
  The loop of \<open>readline\<close> (lines 209 to 222); \<open>result\<close> is NULL or the C string
  collected so far.  Each block read by \<open>fgets\<close> is appended up to its \<open>strlen\<close>,
  so that a NUL byte in the file hides the rest of its block.  The loop ends when the
  string collected ends with \<open>\n\<close>, which is removed together with one \<open>\r\<close> before
  it, or at the end of the file.
\<close>

function readline_loop :: "string option \<Rightarrow> string \<Rightarrow> string option \<times> string" where
  "readline_loop result src =
     (case fgets (READLINE_BLOCK_SIZE - 1) src of
        (data, rest) \<Rightarrow>
          if data = [] then (result, rest)
          else
            (let r = (case result of None \<Rightarrow> [] | Some t \<Rightarrow> t) @ c_string data in
             if r \<noteq> [] \<and> last r = CHR 0x0A then
               (let r1 = butlast r in
                (Some (if r1 \<noteq> [] \<and> last r1 = CHR 0x0D then butlast r1 else r1), rest))
             else readline_loop (Some r) rest))"
  by pat_completeness auto
termination
  by (relation "measure (\<lambda>(result, src). length src)") (auto dest: fgets_shorter)

declare readline_loop.simps [simp del]

text \<open>
  \<open>readline\<close> on the part of the file that is still unread: NULL at the end of the file,
  otherwise the line and what is left of the file.
\<close>

definition readline :: "string \<Rightarrow> (string \<times> string) option" where
  "readline src =
     (case readline_loop None src of
        (None, rest) \<Rightarrow> None
      | (Some line, rest) \<Rightarrow> Some (line, rest))"

text \<open>Moving a pointer back over white space, down to the start of the text.\<close>

definition skip_back :: "string \<Rightarrow> string" where
  "skip_back t = rev (dropWhile isspace (rev t))"

text \<open>
  The scan of the table for a variable (lines 266 to 275): the first entry with a long name
  for which \<open>strncmp(varname, longarg, varnamelen)\<close> is 0 is called, and the scan stops.
\<close>

fun cfg_var ::
  "('f, 'u, 'c, 's) handler_call \<Rightarrow> string \<Rightarrow> nat \<Rightarrow> string \<Rightarrow> 'c callbackdata \<Rightarrow> 's \<Rightarrow>
   ('f, 'u) table \<Rightarrow> int \<times> 's \<times> ('f, 'u) event list" where
  "cfg_var call varname varnamelen val cbd s [] = (0, s, [])"
| "cfg_var call varname varnamelen val cbd s (d # ds) =
     (case callbackfn d of
        None \<Rightarrow> (0, s, [])
      | Some f \<Rightarrow>
          (case longarg d of
             None \<Rightarrow> cfg_var call varname varnamelen val cbd s ds
           | Some name \<Rightarrow>
               if strncmp_eq varname name varnamelen then
                 (case call f (Some d) (Some val) cbd s of
                    (status, s') \<Rightarrow> (status, s', [EnvCallback d val]))
               else cfg_var call varname varnamelen val cbd s ds))"

text \<open>
  The body of the loop over the lines (lines 240 to 278): the new \<open>status\<close>, which stays 0
  when the line calls nothing.
\<close>

definition cfg_line ::
  "('f, 'u, 'c, 's) handler_call \<Rightarrow> ('f, 'u) table \<Rightarrow> 'c callbackdata \<Rightarrow> string \<Rightarrow> 's \<Rightarrow>
   int \<times> 's \<times> ('f, 'u) event list" where
  "cfg_line call cfgdef cbd line s =
     (let varname = dropWhile isspace line in
      if varname \<noteq> [] then
        (let stop = (\<lambda>c. c = CHR ''='' \<or> c = CHR '':'' \<or> c = CHR ''#'' \<or> c = CHR '';'');
             p = dropWhile (\<lambda>c. \<not> stop c) varname in
         if p \<noteq> [] \<and> (hd p = CHR ''='' \<or> hd p = CHR '':'') then
           (let name = skip_back (takeWhile (\<lambda>c. \<not> stop c) varname) in
            if name \<noteq> [] then
              cfg_var call varname (length name)
                (skip_back (dropWhile isspace (tl p))) cbd s cfgdef
            else (0, s, []))
         else (0, s, []))
      else (0, s, []))"

lemma readline_loop_shorter:
  "readline_loop result src = (res, rest) \<Longrightarrow>
   length rest \<le> length src \<and> (result = None \<longrightarrow> res \<noteq> None \<longrightarrow> length rest < length src)"
proof (induction result src arbitrary: res rest rule: readline_loop.induct)
  case (1 result src)
  obtain data rest0 where f: "fgets (READLINE_BLOCK_SIZE - 1) src = (data, rest0)"
    by (cases "fgets (READLINE_BLOCK_SIZE - 1) src") auto
  from fgets_length [OF f] have len: "length data + length rest0 = length src" .
  show ?case
  proof (cases "data = []")
    case True
    with f "1.prems" have "res = result" "rest = rest0"
      by (subst (asm) readline_loop.simps, simp)+
    with len show ?thesis by auto
  next
    case False
    let ?r = "(case result of None \<Rightarrow> [] | Some t \<Rightarrow> t) @ c_string data"
    show ?thesis
    proof (cases "?r \<noteq> [] \<and> last ?r = CHR 0x0A")
      case True
      from "1.prems" have "rest = rest0"
        unfolding readline_loop.simps [of result src] f prod.case if_not_P [OF False] Let_def
          if_P [OF True]
        by simp
      with len False show ?thesis by (cases data) auto
    next
      case F2: False
      from "1.prems" have "readline_loop (Some ?r) rest0 = (res, rest)"
        unfolding readline_loop.simps [of result src] f prod.case if_not_P [OF False] Let_def
          if_not_P [OF F2] .
      from "1.IH" [OF f [symmetric] False refl F2 this] len False
      show ?thesis by (cases data) auto
    qed
  qed
qed

lemma readline_shorter: "readline src = Some (line, rest) \<Longrightarrow> length rest < length src"
  using readline_loop_shorter [of None src _ rest]
  by (auto simp: readline_def split: prod.splits option.splits)

text \<open>The loop \<open>while (status == 0 && (line = readline(src)) != NULL)\<close>.\<close>

function cfg_lines ::
  "('f, 'u, 'c, 's) handler_call \<Rightarrow> ('f, 'u) table \<Rightarrow> 'c callbackdata \<Rightarrow> int \<Rightarrow> string \<Rightarrow> 's \<Rightarrow>
   int \<times> 's \<times> ('f, 'u) event list" where
  "cfg_lines call cfgdef cbd status src s =
     (if status = 0 then
        (case readline src of
           None \<Rightarrow> (status, s, [])
         | Some (line, rest) \<Rightarrow>
             (case cfg_line call cfgdef cbd line s of
                (status', s', ev) \<Rightarrow>
                  (case cfg_lines call cfgdef cbd status' rest s' of
                     (r, s'', ev') \<Rightarrow> (r, s'', ev @ ev'))))
      else (status, s, []))"
  by pat_completeness auto
termination
  by (relation "measure (\<lambda>(call, cfgdef, cbd, status, src, s). length src)")
     (auto dest: readline_shorter)

declare cfg_lines.simps [simp del]

text \<open>
  \<open>miniargv_process_cfgfile\<close>; the file is its content, or \<open>None\<close> when \<open>fopen\<close> fails.
  The function ends with \<open>return 0\<close> (line 283).
\<close>

definition miniargv_process_cfgfile ::
  "('f, 'u, 'c, 's) handler_call \<Rightarrow> string option \<Rightarrow> ('f, 'u) table \<Rightarrow> 'c \<Rightarrow> 's \<Rightarrow>
   int \<times> 's \<times> ('f, 'u) event list" where
  "miniargv_process_cfgfile call cfgfile cfgdef callbackdata s =
     (case cfgfile of
        None \<Rightarrow> (0, s, [])
      | Some src \<Rightarrow>
          (case cfg_lines call cfgdef (UserData callbackdata) 0 src s of
             (status, s', ev) \<Rightarrow> (0, s', ev)))"

section \<open>Predefined callbacks on integers\<close>

text \<open>
  \<open>userdata\<close> is the address of an \<open>int\<close> or of a \<open>long\<close>; the memory of the caller maps
  addresses to the 32-bit \<open>int\<close>s and the 64-bit \<open>long\<close>s stored there (LP64).
\<close>

record memory =
  ints :: "nat \<Rightarrow> 32 word"
  longs :: "nat \<Rightarrow> 64 word"

definition miniargv_cb_increment_int ::
  "('f, nat) miniargv_definition \<Rightarrow> string option \<Rightarrow> 'c callbackdata \<Rightarrow> memory \<Rightarrow> int \<times> memory" where
  "miniargv_cb_increment_int argdef val callbackdata m =
     (0, m\<lparr>ints := (ints m)(userdata argdef := ints m (userdata argdef) + 1)\<rparr>)"

definition miniargv_cb_decrement_int ::
  "('f, nat) miniargv_definition \<Rightarrow> string option \<Rightarrow> 'c callbackdata \<Rightarrow> memory \<Rightarrow> int \<times> memory" where
  "miniargv_cb_decrement_int argdef val callbackdata m =
     (0, m\<lparr>ints := (ints m)(userdata argdef := ints m (userdata argdef) - 1)\<rparr>)"

definition miniargv_cb_increment_long ::
  "('f, nat) miniargv_definition \<Rightarrow> string option \<Rightarrow> 'c callbackdata \<Rightarrow> memory \<Rightarrow> int \<times> memory" where
  "miniargv_cb_increment_long argdef val callbackdata m =
     (0, m\<lparr>longs := (longs m)(userdata argdef := longs m (userdata argdef) - 1)\<rparr>)"

definition miniargv_cb_decrement_long ::
  "('f, nat) miniargv_definition \<Rightarrow> string option \<Rightarrow> 'c callbackdata \<Rightarrow> memory \<Rightarrow> int \<times> memory" where
  "miniargv_cb_decrement_long argdef val callbackdata m =
     (0, m\<lparr>longs := (longs m)(userdata argdef := longs m (userdata argdef) + 1)\<rparr>)"

section \<open>The example table of the specification\<close>

text \<open>
  The table of the examples: \<open>-o/--output\<close> takes a value, \<open>-v/--verbose\<close> takes none,
  one definition is positional, and the sentinel ends the array.
\<close>

datatype example_fn = Output_cb | Verbose_cb | Positional_cb | Bad_cb

definition output_def :: "(example_fn, unit) miniargv_definition" where
  "output_def = \<lparr>shortarg = CHR ''o'', longarg = Some ''output'', argparam = Some ''FILE'',
     callbackfn = Some Output_cb, userdata = (), help_text = ''output file''\<rparr>"

definition verbose_def :: "(example_fn, unit) miniargv_definition" where
  "verbose_def = \<lparr>shortarg = CHR ''v'', longarg = Some ''verbose'', argparam = None,
     callbackfn = Some Verbose_cb, userdata = (), help_text = ''verbose mode''\<rparr>"

definition positional_def :: "(example_fn, unit) miniargv_definition" where
  "positional_def = \<lparr>shortarg = CHR 0x00, longarg = None, argparam = Some ''FILE'',
     callbackfn = Some Positional_cb, userdata = (), help_text = ''input file''\<rparr>"

definition sentinel :: "(example_fn, unit) miniargv_definition" where
  "sentinel = \<lparr>shortarg = CHR 0x00, longarg = None, argparam = None,
     callbackfn = None, userdata = (), help_text = []\<rparr>"

definition example_argdef :: "(example_fn, unit) table" where
  "example_argdef = [output_def, verbose_def, positional_def, sentinel]"

text \<open>
  Two programs for the callbacks of the examples.  Both count their calls in the state;
  with \<open>counting_call\<close> every function returns 0, with \<open>refusing_call\<close> every function
  returns 5.
\<close>

definition counting_call :: "(example_fn, unit, unit, nat) handler_call" where
  "counting_call f d v c n = (0, Suc n)"

definition refusing_call :: "(example_fn, unit, unit, nat) handler_call" where
  "refusing_call f d v c n = (5, Suc n)"

lemmas flag_defs =
  MINIARG_PROCESS_FLAG_FLAGS_def MINIARG_PROCESS_FLAG_VALUES_def MINIARG_PROCESS_FLAG_BOTH_def
  MINIARG_PROCESS_FLAG_FIND_ONLY_def MINIARG_PROCESS_FLAG_FIND_VALUE_def

lemmas engine_defs =
  miniargv_process_partial_def start_index_def loop_body_def resolve_arg_def bad_arg_def
  standalone_arg_def standalone_lookup_def invoke_def char_at_def

lemmas example_defs =
  example_argdef_def output_def_def verbose_def_def positional_def_def sentinel_def

section \<open>Resolution of one token\<close>

lemma char_at_Nil [simp]: "char_at [] k = CHR 0x00"
  by (simp add: char_at_def)

lemma char_at_Cons_0 [simp]: "char_at (x # xs) 0 = x"
  by (simp add: char_at_def)

lemma char_at_Cons_Suc [simp]: "char_at (x # xs) (Suc k) = char_at xs k"
  by (simp add: char_at_def)

lemma char_at_Cons_Cons_2 [simp]: "char_at (x # y # xs) 2 = char_at xs 0"
  by (simp add: char_at_def)

lemma char_at_append_length: "char_at (xs @ ys) (length xs + k) = char_at ys k"
  by (simp add: char_at_def nth_append)

lemma char_at_end: "CHR 0x00 \<notin> set t \<Longrightarrow> (char_at t k = CHR 0x00) = (length t \<le> k)"
  by (auto simp: char_at_def in_set_conv_nth)

lemma strncmp_eq_take: "strncmp_eq a b n = (take n a = take n b)"
  by (induction a b n rule: strncmp_eq.induct) auto

lemma strncmp_eq_prefix: "strncmp_eq a b (length b) = (\<exists>t. a = b @ t)"
  by (metis append_eq_conv_conj strncmp_eq_take take_all_iff order_refl)

lemma short_arg_first:
  assumes "\<forall>e\<in>set pre. callbackfn e \<noteq> None \<and> shortarg e \<noteq> c"
    and "callbackfn d = Some f" and "shortarg d = c" and "c \<noteq> CHR 0x00"
    and "char_at (argv ! i) 1 = c"
  shows "short_arg call flags argv cbd i s (pre @ d # post) =
     (if argparam d = None then
        (if char_at (argv ! i) 2 = CHR 0x00
         then invoke call (flags AND MINIARG_PROCESS_FLAG_FLAGS = 0) f d None cbd i s
         else Resolved False i s [])
      else if char_at (argv ! i) 2 \<noteq> CHR 0x00 then
        invoke call (flags AND MINIARG_PROCESS_FLAG_FLAGS = 0) f d (Some (drop 2 (argv ! i))) cbd i s
      else if Suc i < length argv then
        invoke call (flags AND MINIARG_PROCESS_FLAG_FLAGS = 0) f d (Some (argv ! Suc i)) cbd (Suc i) s
      else Resolved False i s [])"
  using assms by (induction pre) auto

lemma short_flag_resolved:
  assumes "argv ! i = CHR ''-'' # c # rest" and "c \<noteq> CHR ''-''"
    and "CHR 0x00 \<notin> set (argv ! i)"
    and "argdef = pre @ d # post"
    and "\<forall>e\<in>set pre. callbackfn e \<noteq> None \<and> shortarg e \<noteq> c"
    and "callbackfn d = Some f" and "shortarg d = c"
  shows "resolve_arg call flags argv argdef cbd i cache s =
     (let matched = (\<lambda>v j.
            if flags AND MINIARG_PROCESS_FLAG_FLAGS = 0 then Resolved True j s []
            else Resolved (fst (call f (Some d) v cbd s) = 0) j (snd (call f (Some d) v cbd s))
                   [Callback j d v]);
          unmatched = Resolved False i s []
      in (if argparam d = None then (if rest = [] then matched None i else unmatched)
          else if rest \<noteq> [] then matched (Some rest) i
          else if Suc i < length argv then matched (Some (argv ! Suc i)) (Suc i)
          else unmatched,
          cache))"
proof -
  from assms have c: "c \<noteq> CHR 0x00" and r: "(char_at (argv ! i) 2 = CHR 0x00) = (rest = [])"
    by (auto simp: char_at_end)
  have drop2: "drop 2 (CHR ''-'' # c # rest) = rest" by simp
  have "short_arg call flags argv cbd i s argdef =
     (if argparam d = None then
        (if char_at (argv ! i) 2 = CHR 0x00
         then invoke call (flags AND MINIARG_PROCESS_FLAG_FLAGS = 0) f d None cbd i s
         else Resolved False i s [])
      else if char_at (argv ! i) 2 \<noteq> CHR 0x00 then
        invoke call (flags AND MINIARG_PROCESS_FLAG_FLAGS = 0) f d (Some (drop 2 (argv ! i))) cbd i s
      else if Suc i < length argv then
        invoke call (flags AND MINIARG_PROCESS_FLAG_FLAGS = 0) f d (Some (argv ! Suc i)) cbd (Suc i) s
      else Resolved False i s [])"
    unfolding \<open>argdef = pre @ d # post\<close>
    by (rule short_arg_first) (use assms c in auto)
  then show ?thesis
    using assms(1,2) c r drop2
    by (simp add: resolve_arg_def invoke_def case_prod_beta Let_def del: drop_Suc_Cons)
qed

section \<open>The left-to-right example\<close>

text \<open>
  Claim C5.  The example tokens \<open>-v\<close>, \<open>-oresult.txt\<close>, \<open>input.txt\<close> follow the program's
  own name, which is element 0 of \<open>argv\<close> and is skipped.  Whatever that name is, whatever the
  bad-argument handler and the state are, and for all callbacks that return 0,
  \<open>miniargv_process_arg\<close> calls the verbose callback without a value, then the output
  callback with \<open>result.txt\<close>, then the positional callback with \<open>input.txt\<close>, calls
  nothing else, and returns 0.
\<close>

theorem example_left_to_right:
  assumes "\<And>d v c st. fst (call Verbose_cb d v c st) = 0"
    and "\<And>d v c st. fst (call Output_cb d v c st) = 0"
    and "\<And>d v c st. fst (call Positional_cb d v c st) = 0"
  shows "\<exists>s'. miniargv_process_arg call (prog # [''-v'', ''-oresult.txt'', ''input.txt''])
           example_argdef badfn callbackdata s =
         Some (0, s',
           [Callback 1 verbose_def None,
            Callback 2 output_def (Some ''result.txt''),
            Callback 3 positional_def (Some ''input.txt'')])"
  using assms
  by (simp add: miniargv_process_arg_def engine_defs flag_defs partial_loop.simps example_defs
      case_prod_beta)

theorem example_left_to_right_witness:
  "fst (counting_call Verbose_cb None None (UserData ()) 0) = 0 \<and>
   miniargv_process_arg counting_call [''prog'', ''-v'', ''-oresult.txt'', ''input.txt'']
     example_argdef None () 0 =
   Some (0, 3,
     [Callback 1 verbose_def None,
      Callback 2 output_def (Some ''result.txt''),
      Callback 3 positional_def (Some ''input.txt'')])"
proof -
  have ok: "fst (counting_call f d v c st) = 0" for f d v c st
    by (simp add: counting_call_def)
  from example_left_to_right [of counting_call "''prog''" None "()" 0, OF ok ok ok]
  obtain s' where run:
    "miniargv_process_arg counting_call [''prog'', ''-v'', ''-oresult.txt'', ''input.txt'']
       example_argdef None () 0 =
     Some (0, s',
       [Callback 1 verbose_def None,
        Callback 2 output_def (Some ''result.txt''),
        Callback 3 positional_def (Some ''input.txt'')])"
    by blast
  have "miniargv_process_arg counting_call [''prog'', ''-v'', ''-oresult.txt'', ''input.txt'']
       example_argdef None () 0 = Some (0, 3,
       snd (snd (the (miniargv_process_arg counting_call
         [''prog'', ''-v'', ''-oresult.txt'', ''input.txt''] example_argdef None () 0))))"
    by (simp add: miniargv_process_arg_def engine_defs flag_defs partial_loop.simps example_defs
        counting_call_def)
  with run show ?thesis by (simp add: ok)
qed

text \<open>
  Element 0 of \<open>argv\<close> is never looked at: when the three tokens are passed with no
  program name in front of them, the first token stands in its place.
\<close>

lemma example_element_0_skipped:
  "miniargv_process_arg counting_call [''-v'', ''-oresult.txt'', ''input.txt''] example_argdef
     None () 0 =
   Some (0, 2,
     [Callback 1 output_def (Some ''result.txt''),
      Callback 2 positional_def (Some ''input.txt'')])"
  by (simp add: miniargv_process_arg_def engine_defs flag_defs partial_loop.simps example_defs
      counting_call_def)

section \<open>The predefined integer callbacks\<close>

lemma sint_pred_64:
  fixes x :: "64 word"
  assumes "- (2 ^ 63) < sint x"
  shows "sint (x - 1) = sint x - 1"
proof -
  have "sint x < 2 ^ 63" using sint_lt [of x] by simp
  with assms have "signed_take_bit 63 (sint x - 1) = sint x - 1"
    by (intro signed_take_bit_int_eq_self) auto
  then show ?thesis by (simp add: sint_word_diff)
qed

lemma sint_succ_64:
  fixes x :: "64 word"
  assumes "sint x < 2 ^ 63 - 1"
  shows "sint (x + 1) = sint x + 1"
proof -
  have "- (2 ^ 63) \<le> sint x" using sint_ge [of x] by simp
  with assms have "signed_take_bit 63 (sint x + 1) = sint x + 1"
    by (intro signed_take_bit_int_eq_self) auto
  then show ?thesis by (simp add: sint_word_add)
qed

lemma sint_pred_32:
  fixes x :: "32 word"
  assumes "- (2 ^ 31) < sint x"
  shows "sint (x - 1) = sint x - 1"
proof -
  have "sint x < 2 ^ 31" using sint_lt [of x] by simp
  with assms have "signed_take_bit 31 (sint x - 1) = sint x - 1"
    by (intro signed_take_bit_int_eq_self) auto
  then show ?thesis by (simp add: sint_word_diff)
qed

lemma sint_succ_32:
  fixes x :: "32 word"
  assumes "sint x < 2 ^ 31 - 1"
  shows "sint (x + 1) = sint x + 1"
proof -
  have "- (2 ^ 31) \<le> sint x" using sint_ge [of x] by simp
  with assms have "signed_take_bit 31 (sint x + 1) = sint x + 1"
    by (intro signed_take_bit_int_eq_self) auto
  then show ?thesis by (simp add: sint_word_add)
qed

text \<open>
  Claim C10.  \<open>miniargv_cb_increment_long\<close> returns 0 and leaves the \<open>long\<close> that
  \<open>userdata\<close> points to one lower than it was (line 596 is a \<open>--\<close>), and
  \<open>miniargv_cb_decrement_long\<close> leaves it one higher (line 602 is a \<open>++\<close>): the two bodies
  are exchanged with respect to their names and to the header's description.
  \<open>miniargv_cb_increment_int\<close> and \<open>miniargv_cb_decrement_int\<close> raise and lower the \<open>int\<close> by
  one, as they are named.  The new content is given as the machine word and, away from
  \<open>LONG_MIN\<close>, \<open>LONG_MAX\<close>, \<open>INT_MIN\<close> and \<open>INT_MAX\<close>, as the signed number.
\<close>

theorem long_callbacks_exchanged:
  fixes d :: "('f, nat) miniargv_definition" and c :: "'c callbackdata"
  shows
    "miniargv_cb_increment_long d v c m =
       (0, m\<lparr>longs := (longs m)(userdata d := longs m (userdata d) - 1)\<rparr>) \<and>
     miniargv_cb_decrement_long d v c m =
       (0, m\<lparr>longs := (longs m)(userdata d := longs m (userdata d) + 1)\<rparr>) \<and>
     miniargv_cb_increment_int d v c m =
       (0, m\<lparr>ints := (ints m)(userdata d := ints m (userdata d) + 1)\<rparr>) \<and>
     miniargv_cb_decrement_int d v c m =
       (0, m\<lparr>ints := (ints m)(userdata d := ints m (userdata d) - 1)\<rparr>) \<and>
     (- (2 ^ 63) < sint (longs m (userdata d)) \<longrightarrow>
        sint (longs (snd (miniargv_cb_increment_long d v c m)) (userdata d)) =
        sint (longs m (userdata d)) - 1) \<and>
     (sint (longs m (userdata d)) < 2 ^ 63 - 1 \<longrightarrow>
        sint (longs (snd (miniargv_cb_decrement_long d v c m)) (userdata d)) =
        sint (longs m (userdata d)) + 1) \<and>
     (sint (ints m (userdata d)) < 2 ^ 31 - 1 \<longrightarrow>
        sint (ints (snd (miniargv_cb_increment_int d v c m)) (userdata d)) =
        sint (ints m (userdata d)) + 1) \<and>
     (- (2 ^ 31) < sint (ints m (userdata d)) \<longrightarrow>
        sint (ints (snd (miniargv_cb_decrement_int d v c m)) (userdata d)) =
        sint (ints m (userdata d)) - 1)"
  by (simp add: miniargv_cb_increment_long_def miniargv_cb_decrement_long_def
      miniargv_cb_increment_int_def miniargv_cb_decrement_int_def
      sint_pred_64 sint_succ_64 sint_pred_32 sint_succ_32)

text \<open>
  A counter of 7 at address 0, as an \<open>int\<close> and as a \<open>long\<close>: the increment callback for
  \<open>long\<close> leaves 6, the decrement callback for \<open>long\<close> leaves 8, and the callbacks for
  \<open>int\<close> leave 8 and 6.
\<close>

definition counter_def :: "(example_fn, nat) miniargv_definition" where
  "counter_def = \<lparr>shortarg = CHR ''v'', longarg = Some ''verbose'', argparam = None,
     callbackfn = Some Verbose_cb, userdata = 0, help_text = ''verbose mode''\<rparr>"

definition seven :: memory where
  "seven = \<lparr>ints = (\<lambda>a. 7), longs = (\<lambda>a. 7)\<rparr>"

theorem long_callbacks_exchanged_witness:
  "- (2 ^ 63) < sint (longs seven (userdata counter_def)) \<and>
   sint (longs seven (userdata counter_def)) < 2 ^ 63 - 1 \<and>
   sint (ints seven (userdata counter_def)) < 2 ^ 31 - 1 \<and>
   - (2 ^ 31) < sint (ints seven (userdata counter_def)) \<and>
   sint (longs (snd (miniargv_cb_increment_long counter_def None (UserData ()) seven)) 0) = 6 \<and>
   sint (longs (snd (miniargv_cb_decrement_long counter_def None (UserData ()) seven)) 0) = 8 \<and>
   sint (ints (snd (miniargv_cb_increment_int counter_def None (UserData ()) seven)) 0) = 8 \<and>
   sint (ints (snd (miniargv_cb_decrement_int counter_def None (UserData ()) seven)) 0) = 6"
  using long_callbacks_exchanged [of counter_def None "UserData ()" seven]
  by (simp add: seven_def counter_def_def)

section \<open>Environment variables and configuration files\<close>

lemma fgets_Cons:
  "0 < n \<Longrightarrow> fgets n (c # cs) =
     (if c = CHR 0x0A then ([c], cs)
      else (case fgets (n - 1) cs of (data, rest) \<Rightarrow> (c # data, rest)))"
  by (cases n) simp_all

text \<open>
  A NUL byte in the file hides the rest of its block, the end of the line included, so
  that the next line is appended to what comes before the NUL byte.
\<close>

lemma readline_nul_byte:
  "readline (''a'' @ [CHR 0x00] @ ''b'' @ [CHR 0x0A] @ ''verbose = 1'' @ [CHR 0x0A]) =
   Some (''averbose = 1'', [])"
  by (simp add: readline_def readline_loop.simps READLINE_BLOCK_SIZE_def fgets_Cons c_string_def)

text \<open>
  Claim C8, evaluated where the code departs from it.  The environment holds the one pair
  \<open>out=x\<close>; no definition of the table is named \<open>out\<close>.  The comparison at line 185 looks
  only at the first three characters of the long name \<open>output\<close>, so the callback of
  \<open>--output\<close> is called with \<open>x\<close>.
\<close>

theorem env_key_prefix_is_called:
  "miniargv_process_env counting_call [''out=x''] example_argdef () 0 =
     (0, 1, [EnvCallback output_def ''x''])"
  by (simp add: miniargv_process_env_def example_defs counting_call_def)

text \<open>
  Claim C9, evaluated where the code departs from it.  The function returns 0 on every
  file and table: line 283 is \<open>return 0\<close>, the \<open>status\<close> of line 270 is dropped.  In
  the example the file has two lines and the callback of the first line returns 5: the
  second line is not processed, and the function returns 0.
\<close>

theorem cfgfile_drops_status:
  "fst (miniargv_process_cfgfile call cfgfile cfgdef callbackdata s) = 0 \<and>
   fst (refusing_call Output_cb (Some output_def) (Some ''a.txt'') (UserData ()) 0) = 5 \<and>
   miniargv_process_cfgfile refusing_call
     (Some (''output = a.txt'' @ [CHR 0x0A] @ ''verbose = 1'' @ [CHR 0x0A]))
     example_argdef () 0 =
     (0, 1, [EnvCallback output_def ''a.txt''])"
proof (intro conjI)
  show "fst (miniargv_process_cfgfile call cfgfile cfgdef callbackdata s) = 0"
    by (simp add: miniargv_process_cfgfile_def split: option.splits prod.splits)
  show "fst (refusing_call Output_cb (Some output_def) (Some ''a.txt'') (UserData ()) 0) = 5"
    by (simp add: refusing_call_def)
  show "miniargv_process_cfgfile refusing_call
     (Some (''output = a.txt'' @ [CHR 0x0A] @ ''verbose = 1'' @ [CHR 0x0A]))
     example_argdef () 0 =
     (0, 1, [EnvCallback output_def ''a.txt''])"
    by (simp add: miniargv_process_cfgfile_def cfg_lines.simps readline_def readline_loop.simps
        READLINE_BLOCK_SIZE_def fgets_Cons c_string_def cfg_line_def skip_back_def isspace_def
        example_defs refusing_call_def)
qed

section \<open>Short flags\<close>

lemma partial_loop_end [simp]:
  "length argv \<le> i \<Longrightarrow> partial_loop call flags argv argdef badfn cbd i cache s = (0, s, [])"
  by (subst partial_loop.simps) simp

lemma partial_loop_resolved_success:
  assumes "i < length argv"
    and "resolve_arg call flags argv argdef cbd i cache s = (Resolved True j s1 ev, cache')"
  shows "partial_loop call flags argv argdef badfn cbd i cache s =
     (case partial_loop call flags argv argdef badfn cbd (Suc j) cache' s1 of
        (r, s', tr) \<Rightarrow> (r, s', ev @ tr))"
  using assms by (subst partial_loop.simps) (simp add: loop_body_def bad_arg_def)

text \<open>
  Claim C2.  The token under the cursor is a short flag: a \<open>-\<close>, a character \<open>c\<close> other
  than \<open>-\<close>, and the rest of the token; \<open>d\<close> is the first entry of the table whose
  short argument is \<open>c\<close>.  Then the token is resolved against \<open>d\<close> alone.  An entry
  without value matches only when nothing follows \<open>c\<close>, and with trailing characters the
  token is unmatched (success stays 0 and nothing is called).  An entry with a value gets the
  trailing characters as value when there are any; otherwise the following token when there
  is one, and the cursor is then on that token, so that the loop goes on two positions after
  the flag; otherwise the token is unmatched.  A match calls the callback in the passes that
  dispatch flags (FLAGS bit set) and succeeds when the callback returns 0; in the other
  passes it counts as success without a call.
\<close>

theorem short_flag_resolution:
  assumes "i < length argv" and "argv ! i = CHR ''-'' # c # rest" and "c \<noteq> CHR ''-''"
    and "CHR 0x00 \<notin> set (argv ! i)"
    and "argdef = pre @ d # post"
    and "\<forall>e\<in>set pre. callbackfn e \<noteq> None \<and> shortarg e \<noteq> c"
    and "callbackfn d = Some f" and "shortarg d = c"
  shows "resolve_arg call flags argv argdef cbd i cache s =
     (let matched = (\<lambda>v j.
            if flags AND MINIARG_PROCESS_FLAG_FLAGS = 0 then Resolved True j s []
            else Resolved (fst (call f (Some d) v cbd s) = 0) j (snd (call f (Some d) v cbd s))
                   [Callback j d v]);
          unmatched = Resolved False i s []
      in (if argparam d = None then (if rest = [] then matched None i else unmatched)
          else if rest \<noteq> [] then matched (Some rest) i
          else if Suc i < length argv then matched (Some (argv ! Suc i)) (Suc i)
          else unmatched,
          cache)) \<and>
     (argparam d \<noteq> None \<and> rest = [] \<and> Suc i < length argv \<longrightarrow>
        (flags AND MINIARG_PROCESS_FLAG_FLAGS = 0 \<longrightarrow>
           partial_loop call flags argv argdef badfn cbd i cache s =
           partial_loop call flags argv argdef badfn cbd (i + 2) cache s) \<and>
        (flags AND MINIARG_PROCESS_FLAG_FLAGS \<noteq> 0 \<and>
         fst (call f (Some d) (Some (argv ! Suc i)) cbd s) = 0 \<longrightarrow>
           partial_loop call flags argv argdef badfn cbd i cache s =
           (case partial_loop call flags argv argdef badfn cbd (i + 2) cache
                   (snd (call f (Some d) (Some (argv ! Suc i)) cbd s)) of
              (r, s', tr) \<Rightarrow> (r, s', Callback (Suc i) d (Some (argv ! Suc i)) # tr))))"
proof -
  note res = short_flag_resolved [OF assms(2-8), of call flags cbd cache s]
  show ?thesis
  proof (intro conjI impI)
    show "resolve_arg call flags argv argdef cbd i cache s =
     (let matched = (\<lambda>v j.
            if flags AND MINIARG_PROCESS_FLAG_FLAGS = 0 then Resolved True j s []
            else Resolved (fst (call f (Some d) v cbd s) = 0) j (snd (call f (Some d) v cbd s))
                   [Callback j d v]);
          unmatched = Resolved False i s []
      in (if argparam d = None then (if rest = [] then matched None i else unmatched)
          else if rest \<noteq> [] then matched (Some rest) i
          else if Suc i < length argv then matched (Some (argv ! Suc i)) (Suc i)
          else unmatched,
          cache))" by (rule res)
  next
    assume a: "argparam d \<noteq> None \<and> rest = [] \<and> Suc i < length argv"
      and b: "flags AND MINIARG_PROCESS_FLAG_FLAGS = 0"
    from res a b have "resolve_arg call flags argv argdef cbd i cache s =
        (Resolved True (Suc i) s [], cache)" by (simp add: Let_def)
    from partial_loop_resolved_success [OF assms(1) this, of badfn]
    show "partial_loop call flags argv argdef badfn cbd i cache s =
           partial_loop call flags argv argdef badfn cbd (i + 2) cache s" by simp
  next
    assume a: "argparam d \<noteq> None \<and> rest = [] \<and> Suc i < length argv"
      and b: "flags AND MINIARG_PROCESS_FLAG_FLAGS \<noteq> 0 \<and>
         fst (call f (Some d) (Some (argv ! Suc i)) cbd s) = 0"
    from res a b have "resolve_arg call flags argv argdef cbd i cache s =
        (Resolved True (Suc i) (snd (call f (Some d) (Some (argv ! Suc i)) cbd s))
           [Callback (Suc i) d (Some (argv ! Suc i))], cache)" by (simp add: Let_def)
    from partial_loop_resolved_success [OF assms(1) this, of badfn]
    show "partial_loop call flags argv argdef badfn cbd i cache s =
           (case partial_loop call flags argv argdef badfn cbd (i + 2) cache
                   (snd (call f (Some d) (Some (argv ! Suc i)) cbd s)) of
              (r, s', tr) \<Rightarrow> (r, s', Callback (Suc i) d (Some (argv ! Suc i)) # tr))" by simp
  qed
qed

text \<open>The space-separated form \<open>-o f.txt\<close> on the example table.\<close>

theorem short_flag_resolution_witness:
  "[''prog'', ''-o'', ''f.txt''] ! 1 = CHR ''-'' # CHR ''o'' # [] \<and>
   example_argdef = [] @ output_def # [verbose_def, positional_def, sentinel] \<and>
   resolve_arg counting_call MINIARG_PROCESS_FLAG_BOTH [''prog'', ''-o'', ''f.txt''] example_argdef
     (UserData ()) 1 \<lparr>standalonevaluedefset = False, standalonevaluedef = None\<rparr> 0 =
   (Resolved True 2 1 [Callback 2 output_def (Some ''f.txt'')],
    \<lparr>standalonevaluedefset = False, standalonevaluedef = None\<rparr>) \<and>
   partial_loop counting_call MINIARG_PROCESS_FLAG_BOTH [''prog'', ''-o'', ''f.txt''] example_argdef
     None (UserData ()) 1 \<lparr>standalonevaluedefset = False, standalonevaluedef = None\<rparr> 0 =
   (0, 1, [Callback 2 output_def (Some ''f.txt'')])"
  using short_flag_resolution [where i = 1 and argv = "[''prog'', ''-o'', ''f.txt'']"
      and c = "CHR ''o''" and rest = "[]" and argdef = example_argdef and pre = "[]"
      and d = output_def and post = "[verbose_def, positional_def, sentinel]" and f = Output_cb
      and call = counting_call and flags = MINIARG_PROCESS_FLAG_BOTH and cbd = "UserData ()"
      and cache = "\<lparr>standalonevaluedefset = False, standalonevaluedef = None\<rparr>" and s = 0
      and badfn = None]
  by (simp add: example_defs flag_defs counting_call_def Let_def)

section \<open>Long flags\<close>

lemma long_test:
  assumes "CHR 0x00 \<notin> set tok" and "tok = ''--'' @ rem"
  shows "(strncmp_eq (drop 2 tok) n (length n) \<and>
          (char_at tok (2 + length n) = CHR 0x00 \<or> char_at tok (2 + length n) = CHR ''='')) =
         (\<exists>t. rem = n @ t \<and> (t = [] \<or> hd t = CHR ''=''))"
proof -
  have at: "char_at tok (2 + length n) = (if t = [] then CHR 0x00 else hd t)"
    if "rem = n @ t" for t
  proof -
    have "tok = (''--'' @ n) @ t" using assms(2) that by simp
    then have "char_at tok (length (''--'' @ n) + 0) = char_at t 0"
      by (simp only: char_at_append_length)
    then show ?thesis by (cases t) simp_all
  qed
  have nz: "hd t \<noteq> CHR 0x00" if "rem = n @ t" "t \<noteq> []" for t
    using assms that by (cases t) auto
  have rem: "drop 2 tok = rem" using assms(2) by simp
  show ?thesis
  proof
    assume L: "strncmp_eq (drop 2 tok) n (length n) \<and>
          (char_at tok (2 + length n) = CHR 0x00 \<or> char_at tok (2 + length n) = CHR ''='')"
    then obtain t where t: "rem = n @ t"
      unfolding rem strncmp_eq_prefix by blast
    from L at [OF t] have "(if t = [] then CHR 0x00 else hd t) = CHR 0x00 \<or>
        (if t = [] then CHR 0x00 else hd t) = CHR ''=''" by simp
    with nz [OF t] have "t = [] \<or> hd t = CHR ''=''" by (cases "t = []") auto
    with t show "\<exists>t. rem = n @ t \<and> (t = [] \<or> hd t = CHR ''='')" by blast
  next
    assume "\<exists>t. rem = n @ t \<and> (t = [] \<or> hd t = CHR ''='')"
    then obtain t where t: "rem = n @ t" "t = [] \<or> hd t = CHR ''=''" by blast
    from t(1) have "strncmp_eq (drop 2 tok) n (length n)"
      unfolding rem strncmp_eq_prefix by blast
    moreover from at [OF t(1)] t(2)
    have "char_at tok (2 + length n) = CHR 0x00 \<or> char_at tok (2 + length n) = CHR ''=''"
      by auto
    ultimately show "strncmp_eq (drop 2 tok) n (length n) \<and>
          (char_at tok (2 + length n) = CHR 0x00 \<or> char_at tok (2 + length n) = CHR ''='')"
      by blast
  qed
qed

lemma long_arg_first:
  assumes "\<forall>e\<in>set pre. callbackfn e \<noteq> None \<and>
             (\<forall>n. longarg e = Some n \<longrightarrow>
                \<not> (strncmp_eq (drop 2 (argv ! i)) n (length n) \<and>
                   (char_at (argv ! i) (2 + length n) = CHR 0x00 \<or>
                    char_at (argv ! i) (2 + length n) = CHR ''='')))"
    and "callbackfn d = Some f" and "longarg d = Some name"
    and "strncmp_eq (drop 2 (argv ! i)) name (length name)"
    and "char_at (argv ! i) (2 + length name) = CHR 0x00 \<or>
         char_at (argv ! i) (2 + length name) = CHR ''=''"
  shows "long_arg call flags argv cbd i s (pre @ d # post) =
     (if argparam d = None then
        (if char_at (argv ! i) (2 + length name) = CHR 0x00
         then invoke call (flags AND MINIARG_PROCESS_FLAG_FLAGS = 0) f d None cbd i s
         else Resolved False i s [])
      else if char_at (argv ! i) (2 + length name) = CHR ''='' then
        invoke call (flags AND MINIARG_PROCESS_FLAG_FLAGS = 0) f d
          (Some (drop (3 + length name) (argv ! i))) cbd i s
      else Resolved False i s [])"
  using assms by (induction pre) (auto split: option.splits)

lemma long_arg_none:
  assumes "\<forall>e\<in>set ds. \<forall>n. longarg e = Some n \<longrightarrow>
                \<not> (strncmp_eq (drop 2 (argv ! i)) n (length n) \<and>
                   (char_at (argv ! i) (2 + length n) = CHR 0x00 \<or>
                    char_at (argv ! i) (2 + length n) = CHR ''=''))"
  shows "long_arg call flags argv cbd i s ds = Resolved False i s []"
  using assms by (induction ds) (auto split: option.splits)

lemma long_flag_resolved:
  assumes tok: "argv ! i = ''--'' @ name @ tail" "CHR 0x00 \<notin> set (argv ! i)"
    and tail: "tail = [] \<or> hd tail = CHR ''=''"
    and tab: "argdef = pre @ d # post"
    and pre: "\<forall>e\<in>set pre. callbackfn e \<noteq> None \<and>
           (\<forall>n t. longarg e = Some n \<longrightarrow> argv ! i = ''--'' @ n @ t \<longrightarrow>
              t \<noteq> [] \<and> hd t \<noteq> CHR ''='')"
    and d: "callbackfn d = Some f" "longarg d = Some name"
  shows "resolve_arg call flags argv argdef cbd i cache s =
     (let matched = (\<lambda>v.
            if flags AND MINIARG_PROCESS_FLAG_FLAGS = 0 then Resolved True i s []
            else Resolved (fst (call f (Some d) v cbd s) = 0) i (snd (call f (Some d) v cbd s))
                   [Callback i d v]);
          unmatched = Resolved False i s []
      in (if argparam d = None then (if tail = [] then matched None else unmatched)
          else if tail \<noteq> [] then matched (Some (tl tail))
          else unmatched,
          cache))"
proof -
  note test = long_test [OF tok(2), of "name @ tail"]
  have hit: "strncmp_eq (drop 2 (argv ! i)) name (length name) \<and>
     (char_at (argv ! i) (2 + length name) = CHR 0x00 \<or>
      char_at (argv ! i) (2 + length name) = CHR ''='')"
    using tok(1) tail by (subst test) auto
  have pre': "\<forall>e\<in>set pre. callbackfn e \<noteq> None \<and>
             (\<forall>n. longarg e = Some n \<longrightarrow>
                \<not> (strncmp_eq (drop 2 (argv ! i)) n (length n) \<and>
                   (char_at (argv ! i) (2 + length n) = CHR 0x00 \<or>
                    char_at (argv ! i) (2 + length n) = CHR ''='')))"
  proof (intro ballI conjI allI impI)
    fix e assume "e \<in> set pre"
    with pre show "callbackfn e \<noteq> None" by blast
  next
    fix e n assume e: "e \<in> set pre" "longarg e = Some n"
    show "\<not> (strncmp_eq (drop 2 (argv ! i)) n (length n) \<and>
                   (char_at (argv ! i) (2 + length n) = CHR 0x00 \<or>
                    char_at (argv ! i) (2 + length n) = CHR ''=''))"
    proof (subst test [OF tok(1)], rule notI)
      assume "\<exists>t. name @ tail = n @ t \<and> (t = [] \<or> hd t = CHR ''='')"
      then obtain t where t: "name @ tail = n @ t" "t = [] \<or> hd t = CHR ''=''" by blast
      from t(1) tok(1) have "argv ! i = ''--'' @ n @ t" by simp
      with pre e have "t \<noteq> [] \<and> hd t \<noteq> CHR ''=''" by blast
      with t(2) show False by blast
    qed
  qed
  have "char_at (argv ! i) (length (''--'' @ name) + 0) = char_at tail 0"
    unfolding tok(1) by (simp only: char_at_append_length append_assoc [symmetric])
  then have at: "char_at (argv ! i) (2 + length name) = (if tail = [] then CHR 0x00 else hd tail)"
    by (cases tail) simp_all
  have nz: "tail \<noteq> [] \<Longrightarrow> hd tail \<noteq> CHR 0x00"
    using tok by (cases tail) auto
  have dr: "drop (3 + length name) (argv ! i) = tl tail" if "tail \<noteq> []"
    using that tok(1) by (cases tail) (simp_all add: numeral_3_eq_3)
  have first: "char_at (argv ! i) 0 = CHR ''-''" "char_at (argv ! i) 1 = CHR ''-''"
    using tok(1) by simp_all
  have "long_arg call flags argv cbd i s argdef =
     (if argparam d = None then
        (if char_at (argv ! i) (2 + length name) = CHR 0x00
         then invoke call (flags AND MINIARG_PROCESS_FLAG_FLAGS = 0) f d None cbd i s
         else Resolved False i s [])
      else if char_at (argv ! i) (2 + length name) = CHR ''='' then
        invoke call (flags AND MINIARG_PROCESS_FLAG_FLAGS = 0) f d
          (Some (drop (3 + length name) (argv ! i))) cbd i s
      else Resolved False i s [])"
    unfolding tab using pre' d hit by (intro long_arg_first) blast+
  then show ?thesis
    using first at nz tail dr
    by (auto simp: resolve_arg_def invoke_def case_prod_beta Let_def)
qed

lemma long_flag_unresolved:
  assumes tok: "argv ! i = ''--'' @ rem" "CHR 0x00 \<notin> set (argv ! i)"
    and none: "\<forall>e\<in>set argdef. \<forall>n t. longarg e = Some n \<longrightarrow> rem = n @ t \<longrightarrow>
              t \<noteq> [] \<and> hd t \<noteq> CHR ''=''"
  shows "resolve_arg call flags argv argdef cbd i cache s = (Resolved False i s [], cache)"
proof -
  have "\<forall>e\<in>set argdef. \<forall>n. longarg e = Some n \<longrightarrow>
                \<not> (strncmp_eq (drop 2 (argv ! i)) n (length n) \<and>
                   (char_at (argv ! i) (2 + length n) = CHR 0x00 \<or>
                    char_at (argv ! i) (2 + length n) = CHR ''=''))"
    using none by (subst long_test [OF tok(2,1)]) blast
  then have "long_arg call flags argv cbd i s argdef = Resolved False i s []"
    by (rule long_arg_none)
  moreover have "char_at (argv ! i) 0 = CHR ''-''" "char_at (argv ! i) 1 = CHR ''-''"
    using tok(1) by simp_all
  ultimately show ?thesis by (simp add: resolve_arg_def)
qed

text \<open>
  Claim C3.  The token under the cursor is a long flag: \<open>--\<close> and a remainder.  It is
  resolved against the first entry \<open>d\<close> of the table whose long name is a prefix of the
  remainder with nothing or a \<open>=\<close> right after it.  An entry without value matches only when
  the token ends after the name, and then the value is absent (NULL).  An entry with a value
  matches only when \<open>=\<close> follows, and the value is what follows the \<open>=\<close>: for \<open>--name=\<close>
  it is the empty string, which is not NULL.  In every other case the token is unmatched;
  it is unmatched as well when no entry of the table has a long name that is a prefix of the
  remainder with nothing or \<open>=\<close> after it, as \<open>--verbosity\<close> against \<open>--verbose\<close>.
\<close>

theorem long_flag_resolution:
  assumes "i < length argv" and "argv ! i = ''--'' @ rem" and "rem \<noteq> []"
    and "CHR 0x00 \<notin> set (argv ! i)"
  shows
    "(\<forall>pre d post f name tail.
        argdef = pre @ d # post \<and>
        (\<forall>e\<in>set pre. callbackfn e \<noteq> None \<and>
           (\<forall>n t. longarg e = Some n \<longrightarrow> rem = n @ t \<longrightarrow> t \<noteq> [] \<and> hd t \<noteq> CHR ''='')) \<and>
        callbackfn d = Some f \<and> longarg d = Some name \<and>
        rem = name @ tail \<and> (tail = [] \<or> hd tail = CHR ''='') \<longrightarrow>
        resolve_arg call flags argv argdef cbd i cache s =
          (let matched = (\<lambda>v.
                 if flags AND MINIARG_PROCESS_FLAG_FLAGS = 0 then Resolved True i s []
                 else Resolved (fst (call f (Some d) v cbd s) = 0) i
                        (snd (call f (Some d) v cbd s)) [Callback i d v]);
               unmatched = Resolved False i s []
           in (if argparam d = None then (if tail = [] then matched None else unmatched)
               else if tail \<noteq> [] then matched (Some (tl tail))
               else unmatched,
               cache))) \<and>
     ((\<forall>e\<in>set argdef. \<forall>n t. longarg e = Some n \<longrightarrow> rem = n @ t \<longrightarrow>
          t \<noteq> [] \<and> hd t \<noteq> CHR ''='') \<longrightarrow>
        resolve_arg call flags argv argdef cbd i cache s = (Resolved False i s [], cache))"
proof (intro conjI allI impI)
  fix pre d post f name tail
  assume a: "argdef = pre @ d # post \<and>
        (\<forall>e\<in>set pre. callbackfn e \<noteq> None \<and>
           (\<forall>n t. longarg e = Some n \<longrightarrow> rem = n @ t \<longrightarrow> t \<noteq> [] \<and> hd t \<noteq> CHR ''='')) \<and>
        callbackfn d = Some f \<and> longarg d = Some name \<and>
        rem = name @ tail \<and> (tail = [] \<or> hd tail = CHR ''='')"
  then have tok: "argv ! i = ''--'' @ name @ tail" using assms(2) by simp
  have pre: "\<forall>e\<in>set pre. callbackfn e \<noteq> None \<and>
           (\<forall>n t. longarg e = Some n \<longrightarrow> argv ! i = ''--'' @ n @ t \<longrightarrow>
              t \<noteq> [] \<and> hd t \<noteq> CHR ''='')"
    using a assms(2) by auto
  from a show "resolve_arg call flags argv argdef cbd i cache s =
          (let matched = (\<lambda>v.
                 if flags AND MINIARG_PROCESS_FLAG_FLAGS = 0 then Resolved True i s []
                 else Resolved (fst (call f (Some d) v cbd s) = 0) i
                        (snd (call f (Some d) v cbd s)) [Callback i d v]);
               unmatched = Resolved False i s []
           in (if argparam d = None then (if tail = [] then matched None else unmatched)
               else if tail \<noteq> [] then matched (Some (tl tail))
               else unmatched,
               cache))"
    by (intro long_flag_resolved [OF tok assms(4) _ _ pre]) blast+
next
  assume "\<forall>e\<in>set argdef. \<forall>n t. longarg e = Some n \<longrightarrow> rem = n @ t \<longrightarrow>
          t \<noteq> [] \<and> hd t \<noteq> CHR ''=''"
  then show "resolve_arg call flags argv argdef cbd i cache s = (Resolved False i s [], cache)"
    by (rule long_flag_unresolved [OF assms(2,4)])
qed

text \<open>
  On the example table: \<open>--output=\<close> calls the output callback with the empty string, and
  \<open>--verbosity\<close> is unmatched.
\<close>

theorem long_flag_resolution_witness:
  "[''prog'', ''--output='', ''--verbosity''] ! 1 = ''--'' @ ''output='' \<and>
   [''prog'', ''--output='', ''--verbosity''] ! 2 = ''--'' @ ''verbosity'' \<and>
   resolve_arg counting_call MINIARG_PROCESS_FLAG_BOTH [''prog'', ''--output='', ''--verbosity'']
     example_argdef (UserData ()) 1 \<lparr>standalonevaluedefset = False, standalonevaluedef = None\<rparr> 0 =
   (Resolved True 1 1 [Callback 1 output_def (Some [])],
    \<lparr>standalonevaluedefset = False, standalonevaluedef = None\<rparr>) \<and>
   resolve_arg counting_call MINIARG_PROCESS_FLAG_BOTH [''prog'', ''--output='', ''--verbosity'']
     example_argdef (UserData ()) 2 \<lparr>standalonevaluedefset = False, standalonevaluedef = None\<rparr> 0 =
   (Resolved False 2 0 [], \<lparr>standalonevaluedefset = False, standalonevaluedef = None\<rparr>)"
proof -
  let ?argv = "[''prog'', ''--output='', ''--verbosity'']"
  let ?cache = "\<lparr>standalonevaluedefset = False, standalonevaluedef = None\<rparr> ::
    (example_fn, unit) standalone_cache"
  have first: "example_argdef = [] @ output_def # [verbose_def, positional_def, sentinel] \<and>
      (\<forall>e\<in>set []. callbackfn e \<noteq> None \<and>
         (\<forall>n t. longarg e = Some n \<longrightarrow> ''output='' = n @ t \<longrightarrow> t \<noteq> [] \<and> hd t \<noteq> CHR ''='')) \<and>
      callbackfn output_def = Some Output_cb \<and> longarg output_def = Some ''output'' \<and>
      ''output='' = ''output'' @ ''='' \<and> (''='' = [] \<or> hd ''='' = CHR ''='')"
    by (simp add: example_defs)
  have none: "\<forall>e\<in>set example_argdef. \<forall>n t. longarg e = Some n \<longrightarrow> ''verbosity'' = n @ t \<longrightarrow>
      t \<noteq> [] \<and> hd t \<noteq> CHR ''=''"
    by (simp add: example_defs)
  have "resolve_arg counting_call MINIARG_PROCESS_FLAG_BOTH ?argv example_argdef
       (UserData ()) 1 ?cache 0 =
      (let matched = (\<lambda>v.
                 if MINIARG_PROCESS_FLAG_BOTH AND MINIARG_PROCESS_FLAG_FLAGS = 0 then Resolved True 1 0 []
                 else Resolved (fst (counting_call Output_cb (Some output_def) v (UserData ()) 0) = 0) 1
                        (snd (counting_call Output_cb (Some output_def) v (UserData ()) 0)) [Callback 1 output_def v]);
               unmatched = Resolved False 1 0 []
           in (if argparam output_def = None then (if ''='' = [] then matched None else unmatched)
               else if ''='' \<noteq> [] then matched (Some (tl ''=''))
               else unmatched,
               ?cache))"
    by (rule long_flag_resolution [where rem = "''output=''", THEN conjunct1, rule_format,
          OF _ _ _ _ first]) simp_all
  then have 1: "resolve_arg counting_call MINIARG_PROCESS_FLAG_BOTH ?argv example_argdef
       (UserData ()) 1 ?cache 0 =
     (Resolved True 1 1 [Callback 1 output_def (Some [])], ?cache)"
    by (simp add: Let_def flag_defs counting_call_def output_def_def)
  have 2: "resolve_arg counting_call MINIARG_PROCESS_FLAG_BOTH ?argv example_argdef
       (UserData ()) 2 ?cache 0 = (Resolved False 2 0 [], ?cache)"
    by (rule long_flag_resolution [where rem = "''verbosity''", THEN conjunct2, THEN mp,
          OF _ _ _ _ none]) simp_all
  from 1 2 show ?thesis by simp
qed

section \<open>The shape of one iteration\<close>

lemma short_arg_shape:
  "short_arg call flags argv cbd i s ds = Resolved False i s [] \<or>
   (\<exists>d f v j. d \<in> set ds \<and> callbackfn d = Some f \<and> shortarg d \<noteq> CHR 0x00 \<and>
      (j = i \<or> j = Suc i \<and> Suc i < length argv) \<and>
      short_arg call flags argv cbd i s ds =
        invoke call (flags AND MINIARG_PROCESS_FLAG_FLAGS = 0) f d v cbd j s)"
proof (induction ds)
  case Nil
  then show ?case by simp
next
  case (Cons d ds)
  show ?case
  proof (cases "callbackfn d")
    case None
    then show ?thesis by simp
  next
    case (Some f)
    show ?thesis
    proof (cases "shortarg d \<noteq> CHR 0x00 \<and> char_at (argv ! i) 1 = shortarg d")
      case True
      with Some have "short_arg call flags argv cbd i s (d # ds) = Resolved False i s [] \<or>
        (\<exists>v j. (j = i \<or> j = Suc i \<and> Suc i < length argv) \<and>
           short_arg call flags argv cbd i s (d # ds) =
           invoke call (flags AND MINIARG_PROCESS_FLAG_FLAGS = 0) f d v cbd j s)"
        by auto
      with Some True show ?thesis by (metis list.set_intros(1))
    next
      case False
      with Some have "short_arg call flags argv cbd i s (d # ds) =
          short_arg call flags argv cbd i s ds" by auto
      with Cons.IH show ?thesis by (metis list.set_intros(2))
    qed
  qed
qed

lemma long_arg_shape:
  "long_arg call flags argv cbd i s ds = Resolved False i s [] \<or>
   (\<exists>d f v. d \<in> set ds \<and> callbackfn d = Some f \<and> longarg d \<noteq> None \<and>
      long_arg call flags argv cbd i s ds =
        invoke call (flags AND MINIARG_PROCESS_FLAG_FLAGS = 0) f d v cbd i s)"
proof (induction ds)
  case Nil
  then show ?case by simp
next
  case (Cons d ds)
  show ?case
  proof (cases "callbackfn d")
    case None
    then show ?thesis by simp
  next
    case (Some f)
    show ?thesis
    proof (cases "\<exists>name. longarg d = Some name \<and>
        strncmp_eq (drop 2 (argv ! i)) name (length name) \<and>
        (char_at (argv ! i) (2 + length name) = CHR 0x00 \<or>
         char_at (argv ! i) (2 + length name) = CHR ''='')")
      case True
      with Some have "long_arg call flags argv cbd i s (d # ds) = Resolved False i s [] \<or>
        (\<exists>v. long_arg call flags argv cbd i s (d # ds) =
           invoke call (flags AND MINIARG_PROCESS_FLAG_FLAGS = 0) f d v cbd i s)"
        by (auto; blast)
      with Some True show ?thesis by (metis list.set_intros(1) option.distinct(1))
    next
      case False
      with Some have "long_arg call flags argv cbd i s (d # ds) =
          long_arg call flags argv cbd i s ds" by (auto split: option.splits)
      with Cons.IH show ?thesis by (metis list.set_intros(2))
    qed
  qed
qed

lemma find_standalone_Some:
  "find_standalone ds = Some d \<Longrightarrow>
   d \<in> set ds \<and> callbackfn d \<noteq> None \<and> shortarg d = CHR 0x00 \<and> longarg d = None"
  by (induction ds) (auto split: option.splits if_splits)

text \<open>The test of line 27, and what it says about a token without NUL inside.\<close>

definition flag_form :: "string \<Rightarrow> bool" where
  "flag_form t = (char_at t 0 = CHR ''-'' \<and> char_at t 1 \<noteq> CHR 0x00)"

lemma resolve_arg_cases [consumes 1, case_names unmatched found silent flag standalone]:
  assumes "resolve_arg call flags argv argdef cbd i cache s = (res, cache')"
  obtains
    (unmatched) "res = Resolved False i s []"
  | (found) d where "res = Found i s" "\<not> flag_form (argv ! i)"
      "flags AND MINIARG_PROCESS_FLAG_VALUES \<noteq> 0" "flags AND MINIARG_PROCESS_FLAG_FIND_ONLY \<noteq> 0"
      "standalonevaluedef cache' = Some d"
  | (silent) j where "res = Resolved True j s []" "j = i \<or> j = Suc i \<and> Suc i < length argv"
      "flag_form (argv ! i) \<and> flags AND MINIARG_PROCESS_FLAG_FLAGS = 0 \<or>
       \<not> flag_form (argv ! i) \<and> j = i \<and> flags AND MINIARG_PROCESS_FLAG_VALUES = 0 \<and>
         standalonevaluedef cache' \<noteq> None"
  | (flag) d f v j where
      "res = Resolved (fst (call f (Some d) v cbd s) = 0) j (snd (call f (Some d) v cbd s))
               [Callback j d v]"
      "callbackfn d = Some f" "d \<in> set argdef" "shortarg d \<noteq> CHR 0x00 \<or> longarg d \<noteq> None"
      "flag_form (argv ! i)" "flags AND MINIARG_PROCESS_FLAG_FLAGS \<noteq> 0"
      "j = i \<or> j = Suc i \<and> Suc i < length argv"
  | (standalone) d f where
      "res = Resolved (fst (call f (Some d) (Some (argv ! i)) cbd s) = 0) i
               (snd (call f (Some d) (Some (argv ! i)) cbd s)) [Callback i d (Some (argv ! i))]"
      "callbackfn d = Some f" "standalonevaluedef cache' = Some d" "\<not> flag_form (argv ! i)"
      "flags AND MINIARG_PROCESS_FLAG_VALUES \<noteq> 0" "flags AND MINIARG_PROCESS_FLAG_FIND_ONLY = 0"
proof (cases "flag_form (argv ! i)")
  case True
  then have res: "res = short_arg call flags argv cbd i s argdef \<or>
      res = long_arg call flags argv cbd i s argdef"
    using assms by (auto simp: resolve_arg_def flag_form_def split: if_splits)
  then consider "res = Resolved False i s []"
    | d f v j where "d \<in> set argdef" "callbackfn d = Some f"
        "shortarg d \<noteq> CHR 0x00 \<or> longarg d \<noteq> None"
        "j = i \<or> j = Suc i \<and> Suc i < length argv"
        "res = invoke call (flags AND MINIARG_PROCESS_FLAG_FLAGS = 0) f d v cbd j s"
    using short_arg_shape [of call flags argv cbd i s argdef]
      long_arg_shape [of call flags argv cbd i s argdef]
    by metis
  then show ?thesis
  proof cases
    case 1
    then show ?thesis by (rule unmatched)
  next
    case 2
    show ?thesis
    proof (cases "flags AND MINIARG_PROCESS_FLAG_FLAGS = 0")
      case z: True
      with 2 have "res = Resolved True j s []" by (simp add: invoke_def)
      with 2 True z show ?thesis by (intro silent [of j]) auto
    next
      case False
      with 2 have "res = Resolved (fst (call f (Some d) v cbd s) = 0) j
          (snd (call f (Some d) v cbd s)) [Callback j d v]"
        by (simp add: invoke_def case_prod_beta)
      with 2 True False show ?thesis by (intro flag [of f d v j]) auto
    qed
  qed
next
  case False
  then have res: "res = standalone_arg call flags argv cbd i s (standalone_lookup argdef cache)"
      and c: "cache' = standalone_lookup argdef cache"
    using assms by (auto simp: resolve_arg_def flag_form_def split: if_splits)
  show ?thesis
  proof (cases "standalonevaluedef cache'")
    case None
    with res c have "res = Resolved False i s []" by (simp add: standalone_arg_def)
    then show ?thesis by (rule unmatched)
  next
    case (Some d)
    show ?thesis
    proof (cases "callbackfn d")
      case None
      with Some res c have "res = Resolved False i s []" by (simp add: standalone_arg_def)
      then show ?thesis by (rule unmatched)
    next
      case f: (Some f)
      consider "flags AND MINIARG_PROCESS_FLAG_VALUES = 0"
        | "flags AND MINIARG_PROCESS_FLAG_VALUES \<noteq> 0" "flags AND MINIARG_PROCESS_FLAG_FIND_ONLY \<noteq> 0"
        | "flags AND MINIARG_PROCESS_FLAG_VALUES \<noteq> 0" "flags AND MINIARG_PROCESS_FLAG_FIND_ONLY = 0"
        by blast
      then show ?thesis
      proof cases
        case 1
        with Some f res c have "res = Resolved True i s []" by (simp add: standalone_arg_def)
        with 1 False Some show ?thesis by (intro silent [of i]) auto
      next
        case 2
        with Some f res c have "res = Found i s" by (simp add: standalone_arg_def)
        with 2 False Some show ?thesis by (intro found [of d]) auto
      next
        case 3
        with Some f res c have "res = Resolved (fst (call f (Some d) (Some (argv ! i)) cbd s) = 0) i
               (snd (call f (Some d) (Some (argv ! i)) cbd s)) [Callback i d (Some (argv ! i))]"
          by (simp add: standalone_arg_def invoke_def case_prod_beta)
        with 3 False Some f show ?thesis by (intro standalone [of f d]) auto
      qed
    qed
  qed
qed

lemma resolve_arg_cache:
  "resolve_arg call flags argv argdef cbd i cache s = (res, cache') \<Longrightarrow>
   cache' = (if flag_form (argv ! i) then cache else standalone_lookup argdef cache)"
  by (auto simp: resolve_arg_def flag_form_def split: if_splits)


section \<open>Induction over the loop\<close>

lemma partial_loop_cases:
  assumes "i < length argv"
  shows "(\<exists>r s' ev cache'. loop_body call flags argv argdef badfn cbd i cache s = (Abort r s' ev, cache') \<and>
            partial_loop call flags argv argdef badfn cbd i cache s = (r, s', ev)) \<or>
         (\<exists>j s' ev cache' r s'' ev'.
            loop_body call flags argv argdef badfn cbd i cache s = (Continue j s' ev, cache') \<and>
            i \<le> j \<and> j < length argv \<and>
            partial_loop call flags argv argdef badfn cbd (Suc j) cache' s' = (r, s'', ev') \<and>
            partial_loop call flags argv argdef badfn cbd i cache s = (r, s'', ev @ ev'))"
proof (cases "loop_body call flags argv argdef badfn cbd i cache s")
  case (Pair it cache')
  show ?thesis
  proof (cases it)
    case (Abort r s' ev)
    with Pair assms show ?thesis by (subst partial_loop.simps) simp
  next
    case (Continue j s' ev)
    with Pair loop_body_cursor [of call flags argv argdef badfn cbd i cache s j s' ev cache'] assms
    have j: "i \<le> j" "j < length argv" by auto
    obtain r s'' ev' where
      rest: "partial_loop call flags argv argdef badfn cbd (Suc j) cache' s' = (r, s'', ev')"
      by (cases "partial_loop call flags argv argdef badfn cbd (Suc j) cache' s'") auto
    with Pair Continue assms
    have "partial_loop call flags argv argdef badfn cbd i cache s = (r, s'', ev @ ev')"
      by (subst partial_loop.simps) simp
    with Pair Continue j rest show ?thesis by blast
  qed
qed

lemma partial_loop_induct [case_names finish abort continue]:
  assumes finish: "\<And>i cache s. length argv \<le> i \<Longrightarrow> P i cache s (0, s, [])"
    and abort: "\<And>i cache s r s' ev cache'. i < length argv \<Longrightarrow>
        loop_body call flags argv argdef badfn cbd i cache s = (Abort r s' ev, cache') \<Longrightarrow>
        P i cache s (r, s', ev)"
    and continue: "\<And>i cache s j s' ev cache' r s'' ev'. i < length argv \<Longrightarrow>
        loop_body call flags argv argdef badfn cbd i cache s = (Continue j s' ev, cache') \<Longrightarrow>
        i \<le> j \<Longrightarrow> j < length argv \<Longrightarrow>
        partial_loop call flags argv argdef badfn cbd (Suc j) cache' s' = (r, s'', ev') \<Longrightarrow>
        P (Suc j) cache' s' (r, s'', ev') \<Longrightarrow>
        P i cache s (r, s'', ev @ ev')"
  shows "P i cache s (partial_loop call flags argv argdef badfn cbd i cache s)"
proof (induction "length argv - i" arbitrary: i cache s rule: less_induct)
  case less
  show ?case
  proof (cases "i < length argv")
    case False
    then show ?thesis using finish [of i cache s] by simp
  next
    case True
    from partial_loop_cases [OF True, of call flags argdef badfn cbd cache s]
    show ?thesis
    proof (elim disjE exE conjE)
      fix r s' ev cache'
      assume "loop_body call flags argv argdef badfn cbd i cache s = (Abort r s' ev, cache')"
        and "partial_loop call flags argv argdef badfn cbd i cache s = (r, s', ev)"
      with abort [OF True] show ?thesis by simp
    next
      fix j s' ev cache' r s'' ev'
      assume b: "loop_body call flags argv argdef badfn cbd i cache s = (Continue j s' ev, cache')"
        and j: "i \<le> j" "j < length argv"
        and rest: "partial_loop call flags argv argdef badfn cbd (Suc j) cache' s' = (r, s'', ev')"
        and all: "partial_loop call flags argv argdef badfn cbd i cache s = (r, s'', ev @ ev')"
      from j True have "length argv - Suc j < length argv - i" by arith
      from less [OF this, of cache' s'] rest have "P (Suc j) cache' s' (r, s'', ev')" by simp
      from continue [OF True b j rest this] all show ?thesis by simp
    qed
  qed
qed


lemma bad_arg_cases [consumes 1, case_names found success accepted refused invalid]:
  assumes "bad_arg call flags argv badfn cbd res = it"
  obtains
    (found) i s where "res = Found i s" "it = Abort (int i) s []"
  | (success) j s1 ev where "res = Resolved True j s1 ev" "it = Continue j s1 ev"
  | (accepted) j s1 ev b where "res = Resolved False j s1 ev" "badfn = Some b"
      "fst (call b None (Some (argv ! j)) cbd s1) = 0"
      "it = Continue j (snd (call b None (Some (argv ! j)) cbd s1)) (ev @ [BadArg j (argv ! j)])"
  | (refused) j s1 ev b where "res = Resolved False j s1 ev" "badfn = Some b"
      "fst (call b None (Some (argv ! j)) cbd s1) \<noteq> 0"
      "it = Abort (if flags AND MINIARG_PROCESS_FLAG_FIND_ONLY \<noteq> 0 then - 1 else int j)
              (snd (call b None (Some (argv ! j)) cbd s1)) (ev @ [BadArg j (argv ! j)])"
  | (invalid) j s1 ev where "res = Resolved False j s1 ev" "badfn = None"
      "it = (if flags AND MINIARG_PROCESS_FLAG_FIND_ONLY \<noteq> 0 then Abort (- 1) s1 ev
             else Abort (int j) s1
               (ev @ [Stderr (''Invalid command line argument: '' @ argv ! j @ [CHR 0x0A])]))"
  using assms
  by (cases res; cases badfn)
     (auto simp: bad_arg_def case_prod_beta split: if_splits)

text \<open>
  One iteration in one statement: the cursor \<open>j\<close> it ends on, the call \<open>cs\<close> of a
  definition's callback it makes, if any, and what follows.
\<close>

lemma loop_body_summary:
  assumes "i < length argv"
    and "loop_body call flags argv argdef badfn cbd i cache s = (it, cache')"
  shows "\<exists>j cs s1.
      (j = i \<or> j = Suc i \<and> flag_form (argv ! i)) \<and> j < length argv \<and>
      cache' = (if flag_form (argv ! i) then cache else standalone_lookup argdef cache) \<and>
      (cs = [] \<and> s1 = s \<or>
       (\<exists>d f v. cs = [Callback j d v] \<and> callbackfn d = Some f \<and>
          s1 = snd (call f (Some d) v cbd s) \<and>
          (d \<in> set argdef \<and> (shortarg d \<noteq> CHR 0x00 \<or> longarg d \<noteq> None) \<and>
             flag_form (argv ! i) \<and> flags AND MINIARG_PROCESS_FLAG_FLAGS \<noteq> 0 \<or>
           standalonevaluedef cache' = Some d \<and> v = Some (argv ! i) \<and> j = i \<and>
             \<not> flag_form (argv ! i) \<and> flags AND MINIARG_PROCESS_FLAG_VALUES \<noteq> 0 \<and>
             flags AND MINIARG_PROCESS_FLAG_FIND_ONLY = 0))) \<and>
      (it = Continue j s1 cs \<or>
       (\<exists>b. badfn = Some b \<and> fst (call b None (Some (argv ! j)) cbd s1) = 0 \<and>
          it = Continue j (snd (call b None (Some (argv ! j)) cbd s1))
                 (cs @ [BadArg j (argv ! j)])) \<or>
       (\<exists>b. badfn = Some b \<and> fst (call b None (Some (argv ! j)) cbd s1) \<noteq> 0 \<and>
          it = Abort (if flags AND MINIARG_PROCESS_FLAG_FIND_ONLY \<noteq> 0 then - 1 else int j)
                 (snd (call b None (Some (argv ! j)) cbd s1)) (cs @ [BadArg j (argv ! j)])) \<or>
       (badfn = None \<and> flags AND MINIARG_PROCESS_FLAG_FIND_ONLY \<noteq> 0 \<and> it = Abort (- 1) s1 cs) \<or>
       (badfn = None \<and> flags AND MINIARG_PROCESS_FLAG_FIND_ONLY = 0 \<and>
          it = Abort (int j) s1
                 (cs @ [Stderr (''Invalid command line argument: '' @ argv ! j @ [CHR 0x0A])])) \<or>
       (it = Abort (int i) s [] \<and> cs = [] \<and> j = i \<and> \<not> flag_form (argv ! i) \<and>
          standalonevaluedef cache' \<noteq> None \<and>
          flags AND MINIARG_PROCESS_FLAG_VALUES \<noteq> 0 \<and>
          flags AND MINIARG_PROCESS_FLAG_FIND_ONLY \<noteq> 0))"
proof -
  obtain res where res: "resolve_arg call flags argv argdef cbd i cache s = (res, cache')"
    and it: "bad_arg call flags argv badfn cbd res = it"
    using assms(2) by (auto simp: loop_body_def split: prod.splits)
  note c = resolve_arg_cache [OF res]
  from res show ?thesis
  proof (cases rule: resolve_arg_cases)
    case unmatched
    with it c assms(1) show ?thesis
      by (cases rule: bad_arg_cases) (auto intro!: exI [of _ i] exI [of _ "[]"])
  next
    case (found d)
    with it c assms(1) show ?thesis
      by (cases rule: bad_arg_cases) (auto intro!: exI [of _ i] exI [of _ "[]"])
  next
    case (silent j)
    with it c assms(1) show ?thesis
      by (cases rule: bad_arg_cases) (auto intro!: exI [of _ j] exI [of _ "[]"])
  next
    case (flag d f v j)
    with it c assms(1) show ?thesis
      by (cases rule: bad_arg_cases)
         (auto intro!: exI [of _ j] exI [of _ "[Callback j d v]"])
  next
    case (standalone d f)
    with it c assms(1) show ?thesis
      by (cases rule: bad_arg_cases)
         (auto intro!: exI [of _ i] exI [of _ "[Callback i d (Some (argv ! i))]"])
  qed
qed

section \<open>Vocabulary of the claims\<close>

text \<open>
  A standalone value argument, in the words of the header: an argument that does not start
  with \<open>-\<close>, or \<open>-\<close> all by itself.
\<close>

definition standalone_token :: "string \<Rightarrow> bool" where
  "standalone_token t = (t = [] \<or> hd t \<noteq> CHR ''-'' \<or> t = ''-'')"

text \<open>The definition for standalone values: neither a short nor a long argument.\<close>

definition standalone_definition :: "('f, 'u) miniargv_definition \<Rightarrow> bool" where
  "standalone_definition d = (shortarg d = CHR 0x00 \<and> longarg d = None)"

text \<open>
  Calls of a flag's callback, calls of the callback for standalone values, and the cursor
  at which a callback (respectively any handler) is called.
\<close>

fun flag_callback :: "('f, 'u) event \<Rightarrow> bool" where
  "flag_callback (Callback i d v) = (\<not> standalone_definition d)"
| "flag_callback e = False"

fun value_callback :: "('f, 'u) event \<Rightarrow> bool" where
  "value_callback (Callback i d v) = standalone_definition d"
| "value_callback e = False"

fun callback_cursor :: "('f, 'u) event \<Rightarrow> nat option" where
  "callback_cursor (Callback i d v) = Some i"
| "callback_cursor e = None"

fun call_cursor :: "('f, 'u) event \<Rightarrow> nat option" where
  "call_cursor (Callback i d v) = Some i"
| "call_cursor (BadArg i t) = Some i"
| "call_cursor e = None"

section \<open>Invariants of the traversal\<close>

lemma flag_form_standalone_token:
  "CHR 0x00 \<notin> set t \<Longrightarrow> flag_form t = (\<not> standalone_token t)"
proof (cases t)
  case Nil
  then show ?thesis by (simp add: flag_form_def standalone_token_def)
next
  case (Cons x xs)
  assume "CHR 0x00 \<notin> set t"
  with Cons show ?thesis
    by (cases xs) (auto simp: flag_form_def standalone_token_def)
qed

lemma map_filter_append: "List.map_filter f (xs @ ys) = List.map_filter f xs @ List.map_filter f ys"
  by (simp add: List.map_filter_def)

lemma set_map_filter: "set (List.map_filter f xs) = {y. \<exists>x\<in>set xs. f x = Some y}"
  by (force simp: List.map_filter_def image_iff)

lemma callback_cursor_call_cursor: "callback_cursor e = Some c \<Longrightarrow> call_cursor e = Some c"
  by (cases e) auto

lemma partial_loop_cursors:
  fixes call :: "('f, 'u, 'c, 's) handler_call"
  shows "partial_loop call flags argv argdef badfn cbd i cache s = (r, s', tr) \<Longrightarrow>
   (\<forall>e\<in>set tr. \<forall>c. call_cursor e = Some c \<longrightarrow> i \<le> c \<and> c < length argv) \<and>
   sorted_wrt (<) (List.map_filter callback_cursor tr) \<and>
   sorted (List.map_filter call_cursor tr)"
proof -
  let ?P = "\<lambda>i (cache :: ('f, 'u) standalone_cache) (s :: 's)
       (res :: int \<times> 's \<times> ('f, 'u) event list).
     (\<forall>e\<in>set (snd (snd res)). \<forall>c. call_cursor e = Some c \<longrightarrow> i \<le> c \<and> c < length argv) \<and>
     sorted_wrt (<) (List.map_filter callback_cursor (snd (snd res))) \<and>
     sorted (List.map_filter call_cursor (snd (snd res)))"
  have "?P i cache s (partial_loop call flags argv argdef badfn cbd i cache s)"
  proof (rule partial_loop_induct [where P = ?P], goal_cases)
    case (1 i cache s)
    then show ?case by simp
  next
    case (2 i cache s r s' ev cache')
    from loop_body_summary [OF 2] show ?case
      by (auto simp: map_filter_append)
  next
    case (3 i cache s j s' ev cache' r s'' ev')
    from loop_body_summary [OF 3(1,2)]
    have ev: "(\<forall>e\<in>set ev. \<forall>c. call_cursor e = Some c \<longrightarrow> c = j) \<and>
          (List.map_filter callback_cursor ev = [] \<or> List.map_filter callback_cursor ev = [j]) \<and>
          sorted (List.map_filter call_cursor ev)"
      by (auto simp: map_filter_append)
    from 3(6) have ev': "\<forall>e\<in>set ev'. \<forall>c. call_cursor e = Some c \<longrightarrow> Suc j \<le> c \<and> c < length argv"
      and s1: "sorted_wrt (<) (List.map_filter callback_cursor ev')"
      and s2: "sorted (List.map_filter call_cursor ev')"
      by simp_all
    have A: "\<forall>x\<in>set (List.map_filter call_cursor ev). x = j"
      and A': "\<forall>x\<in>set (List.map_filter callback_cursor ev). x = j"
      using ev by (auto simp: set_map_filter dest: callback_cursor_call_cursor)
    have B: "\<forall>y\<in>set (List.map_filter call_cursor ev'). Suc j \<le> y"
      and B': "\<forall>y\<in>set (List.map_filter callback_cursor ev'). Suc j \<le> y"
      using ev' by (auto simp: set_map_filter dest: callback_cursor_call_cursor)
    have a: "\<forall>e\<in>set (ev @ ev'). \<forall>c. call_cursor e = Some c \<longrightarrow> i \<le> c \<and> c < length argv"
      using ev ev' 3(3,4) by fastforce
    have b: "sorted_wrt (<) (List.map_filter callback_cursor (ev @ ev'))"
      using ev s1 A' B' by (fastforce simp: map_filter_append sorted_wrt_append)
    have c: "sorted (List.map_filter call_cursor (ev @ ev'))"
      using ev s2 A B by (fastforce simp: map_filter_append sorted_append)
    from a b c show ?case by simp
  qed
  then show "partial_loop call flags argv argdef badfn cbd i cache s = (r, s', tr) \<Longrightarrow> ?thesis"
    by simp
qed


text \<open>What the loop keeps true of its two locals for the standalone definition.\<close>

definition cache_inv :: "('f, 'u) table \<Rightarrow> ('f, 'u) standalone_cache \<Rightarrow> bool" where
  "cache_inv argdef cache =
     (standalonevaluedefset cache \<longrightarrow> standalonevaluedef cache = find_standalone argdef)"

lemma cache_inv_initial [simp]:
  "cache_inv argdef \<lparr>standalonevaluedefset = False, standalonevaluedef = None\<rparr>"
  by (simp add: cache_inv_def)

lemma standalone_lookup_inv:
  "cache_inv argdef cache \<Longrightarrow>
   cache_inv argdef (standalone_lookup argdef cache) \<and>
   standalonevaluedefset (standalone_lookup argdef cache) \<and>
   standalonevaluedef (standalone_lookup argdef cache) = find_standalone argdef"
  by (simp add: cache_inv_def standalone_lookup_def)

lemma loop_body_events:
  assumes "i < length argv"
    and "loop_body call flags argv argdef badfn cbd i cache s = (it, cache')"
  obtains j cs bs s1 s2 where
    "j = i \<or> j = Suc i \<and> flag_form (argv ! i)" "j < length argv"
    "cache' = (if flag_form (argv ! i) then cache else standalone_lookup argdef cache)"
    "cs = [] \<and> s1 = s \<or>
       (\<exists>d f v. cs = [Callback j d v] \<and> callbackfn d = Some f \<and>
          s1 = snd (call f (Some d) v cbd s) \<and>
          (d \<in> set argdef \<and> (shortarg d \<noteq> CHR 0x00 \<or> longarg d \<noteq> None) \<and>
             flag_form (argv ! i) \<and> flags AND MINIARG_PROCESS_FLAG_FLAGS \<noteq> 0 \<or>
           standalonevaluedef cache' = Some d \<and> v = Some (argv ! i) \<and> j = i \<and>
             \<not> flag_form (argv ! i) \<and> flags AND MINIARG_PROCESS_FLAG_VALUES \<noteq> 0 \<and>
             flags AND MINIARG_PROCESS_FLAG_FIND_ONLY = 0))"
    "bs = [] \<and> s2 = s1 \<or>
       (\<exists>b. badfn = Some b \<and> bs = [BadArg j (argv ! j)] \<and>
          s2 = snd (call b None (Some (argv ! j)) cbd s1)) \<or>
       (badfn = None \<and> s2 = s1 \<and> flags AND MINIARG_PROCESS_FLAG_FIND_ONLY = 0 \<and>
          bs = [Stderr (''Invalid command line argument: '' @ argv ! j @ [CHR 0x0A])])"
    "(\<exists>r. it = Abort r s2 (cs @ bs)) \<or> it = Continue j s2 (cs @ bs)"
proof -
  from loop_body_summary [OF assms] obtain j cs s1 where
    j: "j = i \<or> j = Suc i \<and> flag_form (argv ! i)" "j < length argv"
    and c: "cache' = (if flag_form (argv ! i) then cache else standalone_lookup argdef cache)"
    and cs: "cs = [] \<and> s1 = s \<or>
       (\<exists>d f v. cs = [Callback j d v] \<and> callbackfn d = Some f \<and>
          s1 = snd (call f (Some d) v cbd s) \<and>
          (d \<in> set argdef \<and> (shortarg d \<noteq> CHR 0x00 \<or> longarg d \<noteq> None) \<and>
             flag_form (argv ! i) \<and> flags AND MINIARG_PROCESS_FLAG_FLAGS \<noteq> 0 \<or>
           standalonevaluedef cache' = Some d \<and> v = Some (argv ! i) \<and> j = i \<and>
             \<not> flag_form (argv ! i) \<and> flags AND MINIARG_PROCESS_FLAG_VALUES \<noteq> 0 \<and>
             flags AND MINIARG_PROCESS_FLAG_FIND_ONLY = 0))"
    and it: "it = Continue j s1 cs \<or>
       (\<exists>b. badfn = Some b \<and> fst (call b None (Some (argv ! j)) cbd s1) = 0 \<and>
          it = Continue j (snd (call b None (Some (argv ! j)) cbd s1))
                 (cs @ [BadArg j (argv ! j)])) \<or>
       (\<exists>b. badfn = Some b \<and> fst (call b None (Some (argv ! j)) cbd s1) \<noteq> 0 \<and>
          it = Abort (if flags AND MINIARG_PROCESS_FLAG_FIND_ONLY \<noteq> 0 then - 1 else int j)
                 (snd (call b None (Some (argv ! j)) cbd s1)) (cs @ [BadArg j (argv ! j)])) \<or>
       (badfn = None \<and> flags AND MINIARG_PROCESS_FLAG_FIND_ONLY \<noteq> 0 \<and> it = Abort (- 1) s1 cs) \<or>
       (badfn = None \<and> flags AND MINIARG_PROCESS_FLAG_FIND_ONLY = 0 \<and>
          it = Abort (int j) s1
                 (cs @ [Stderr (''Invalid command line argument: '' @ argv ! j @ [CHR 0x0A])])) \<or>
       (it = Abort (int i) s [] \<and> cs = [] \<and> j = i \<and> \<not> flag_form (argv ! i) \<and>
          standalonevaluedef cache' \<noteq> None \<and>
          flags AND MINIARG_PROCESS_FLAG_VALUES \<noteq> 0 \<and>
          flags AND MINIARG_PROCESS_FLAG_FIND_ONLY \<noteq> 0)"
    by blast
  from it consider
      (a) "it = Continue j s1 (cs @ [])"
    | (b) b where "badfn = Some b"
        "it = Continue j (snd (call b None (Some (argv ! j)) cbd s1)) (cs @ [BadArg j (argv ! j)])"
    | (c) b r where "badfn = Some b"
        "it = Abort r (snd (call b None (Some (argv ! j)) cbd s1)) (cs @ [BadArg j (argv ! j)])"
    | (d) "it = Abort (- 1) s1 (cs @ [])"
    | (e) "badfn = None" "flags AND MINIARG_PROCESS_FLAG_FIND_ONLY = 0"
        "it = Abort (int j) s1
           (cs @ [Stderr (''Invalid command line argument: '' @ argv ! j @ [CHR 0x0A])])"
    | (f) "it = Abort (int i) s1 (cs @ [])" "cs = []"
    using cs by (elim disjE exE conjE) auto
  then show ?thesis
  proof cases
    case a
    show ?thesis by (rule that [OF j c cs, of "[]" s1]) (use a in auto)
  next
    case b
    show ?thesis
      by (rule that [OF j c cs, of "[BadArg j (argv ! j)]"
            "snd (call b None (Some (argv ! j)) cbd s1)"]) (use b in auto)
  next
    case c': c
    show ?thesis
      by (rule that [OF j c cs, of "[BadArg j (argv ! j)]"
            "snd (call b None (Some (argv ! j)) cbd s1)"]) (use c' in auto)
  next
    case d
    show ?thesis by (rule that [OF j c cs, of "[]" s1]) (use d in auto)
  next
    case e
    show ?thesis
      by (rule that [OF j c cs,
            of "[Stderr (''Invalid command line argument: '' @ argv ! j @ [CHR 0x0A])]" s1])
         (use e in auto)
  next
    case f
    show ?thesis by (rule that [OF j c cs, of "[]" s1]) (use f in auto)
  qed
qed

lemma partial_loop_kinds:
  fixes call :: "('f, 'u, 'c, 's) handler_call"
  assumes "cache_inv argdef cache"
    and "partial_loop call flags argv argdef badfn cbd i cache s = (r, s', tr)"
  shows "(flags AND MINIARG_PROCESS_FLAG_FLAGS = 0 \<longrightarrow> filter flag_callback tr = []) \<and>
     (flags AND MINIARG_PROCESS_FLAG_VALUES = 0 \<or> flags AND MINIARG_PROCESS_FLAG_FIND_ONLY \<noteq> 0 \<longrightarrow>
        filter value_callback tr = []) \<and>
     (\<forall>e\<in>set tr. value_callback e \<longrightarrow>
        (\<exists>j d. e = Callback j d (Some (argv ! j)) \<and> find_standalone argdef = Some d \<and>
           j < length argv \<and> \<not> flag_form (argv ! j)))"
proof -
  let ?Q = "\<lambda>tr :: ('f, 'u) event list.
     (flags AND MINIARG_PROCESS_FLAG_FLAGS = 0 \<longrightarrow> filter flag_callback tr = []) \<and>
     (flags AND MINIARG_PROCESS_FLAG_VALUES = 0 \<or> flags AND MINIARG_PROCESS_FLAG_FIND_ONLY \<noteq> 0 \<longrightarrow>
        filter value_callback tr = []) \<and>
     (\<forall>e\<in>set tr. value_callback e \<longrightarrow>
        (\<exists>j d. e = Callback j d (Some (argv ! j)) \<and> find_standalone argdef = Some d \<and>
           j < length argv \<and> \<not> flag_form (argv ! j)))"
  let ?P = "\<lambda>(i :: nat) (cache :: ('f, 'u) standalone_cache) (s :: 's)
       (res :: int \<times> 's \<times> ('f, 'u) event list).
     cache_inv argdef cache \<longrightarrow> ?Q (snd (snd res))"
  have body: "cache_inv argdef cache' \<and> ?Q ev"
    if "i < length argv" "cache_inv argdef cache"
      "loop_body call flags argv argdef badfn cbd i cache s = (it, cache')"
      "it = Continue j s1 ev \<or> it = Abort r s1 ev"
    for i cache s it cache' j s1 ev r
  proof -
    note inv = standalone_lookup_inv [OF that(2)]
    from that(1,3) obtain k cs bs t1 t2 where
      k: "k = i \<or> k = Suc i \<and> flag_form (argv ! i)" "k < length argv"
      and c: "cache' = (if flag_form (argv ! i) then cache else standalone_lookup argdef cache)"
      and cs: "cs = [] \<and> t1 = s \<or>
       (\<exists>d f v. cs = [Callback k d v] \<and> callbackfn d = Some f \<and>
          t1 = snd (call f (Some d) v cbd s) \<and>
          (d \<in> set argdef \<and> (shortarg d \<noteq> CHR 0x00 \<or> longarg d \<noteq> None) \<and>
             flag_form (argv ! i) \<and> flags AND MINIARG_PROCESS_FLAG_FLAGS \<noteq> 0 \<or>
           standalonevaluedef cache' = Some d \<and> v = Some (argv ! i) \<and> k = i \<and>
             \<not> flag_form (argv ! i) \<and> flags AND MINIARG_PROCESS_FLAG_VALUES \<noteq> 0 \<and>
             flags AND MINIARG_PROCESS_FLAG_FIND_ONLY = 0))"
      and bs: "bs = [] \<and> t2 = t1 \<or>
       (\<exists>b. badfn = Some b \<and> bs = [BadArg k (argv ! k)] \<and>
          t2 = snd (call b None (Some (argv ! k)) cbd t1)) \<or>
       (badfn = None \<and> t2 = t1 \<and> flags AND MINIARG_PROCESS_FLAG_FIND_ONLY = 0 \<and>
          bs = [Stderr (''Invalid command line argument: '' @ argv ! k @ [CHR 0x0A])])"
      and it: "(\<exists>r. it = Abort r t2 (cs @ bs)) \<or> it = Continue k t2 (cs @ bs)"
      by (rule loop_body_events)
    from it that(4) have ev: "ev = cs @ bs" by auto
    from bs have nb: "filter flag_callback bs = []" "filter value_callback bs = []"
      "\<forall>e\<in>set bs. \<not> value_callback e" by auto
    from c inv that(2) have inv': "cache_inv argdef cache'" by simp
    have Qcs: "?Q cs"
    proof (cases "cs = []")
      case True
      then show ?thesis by simp
    next
      case False
      with cs obtain d f v where d: "cs = [Callback k d v]" and
        kind: "(shortarg d \<noteq> CHR 0x00 \<or> longarg d \<noteq> None) \<and>
             flags AND MINIARG_PROCESS_FLAG_FLAGS \<noteq> 0 \<or>
           standalonevaluedef cache' = Some d \<and> v = Some (argv ! i) \<and> k = i \<and>
             \<not> flag_form (argv ! i) \<and> flags AND MINIARG_PROCESS_FLAG_VALUES \<noteq> 0 \<and>
             flags AND MINIARG_PROCESS_FLAG_FIND_ONLY = 0" by blast
      from kind show ?thesis
      proof
        assume "(shortarg d \<noteq> CHR 0x00 \<or> longarg d \<noteq> None) \<and>
             flags AND MINIARG_PROCESS_FLAG_FLAGS \<noteq> 0"
        with d show ?thesis by (auto simp: standalone_definition_def)
      next
        assume a: "standalonevaluedef cache' = Some d \<and> v = Some (argv ! i) \<and> k = i \<and>
             \<not> flag_form (argv ! i) \<and> flags AND MINIARG_PROCESS_FLAG_VALUES \<noteq> 0 \<and>
             flags AND MINIARG_PROCESS_FLAG_FIND_ONLY = 0"
        with c inv have "find_standalone argdef = Some d" by simp
        with a d find_standalone_Some [of argdef d] that(1) show ?thesis
          by (simp add: standalone_definition_def)
      qed
    qed
    with nb ev have "?Q ev" by auto
    with inv' show ?thesis by blast
  qed
  have "?P i cache s (partial_loop call flags argv argdef badfn cbd i cache s)"
  proof (rule partial_loop_induct [where P = ?P], goal_cases)
    case (1 i cache s)
    then show ?case by simp
  next
    case (2 i cache s r s' ev cache')
    show ?case
    proof
      assume "cache_inv argdef cache"
      from body [OF 2(1) this 2(2), of j s' ev r] show "?Q (snd (snd (r, s', ev)))" by simp
    qed
  next
    case (3 i cache s j s' ev cache' r s'' ev')
    show ?case
    proof
      assume "cache_inv argdef cache"
      from body [OF 3(1) this 3(2), of j s' ev] have "cache_inv argdef cache'" "?Q ev"
        by simp_all
      moreover from this(1) 3(6) have "?Q ev'" by simp
      ultimately show "?Q (snd (snd (r, s'', ev @ ev')))" by auto
    qed
  qed
  with assms show ?thesis by simp
qed

section \<open>Standalone values\<close>

lemma process_partial_loop:
  assumes "miniargv_process_partial call flags argv argdef badfn cbd s = Some res"
  obtains k where "k \<le> length argv"
    "flags AND MINIARG_PROCESS_FLAG_FIND_ONLY = 0 \<longrightarrow> k = 1"
    "\<forall>a. cbd = ArgIndex a \<and> flags AND MINIARG_PROCESS_FLAG_FIND_ONLY \<noteq> 0 \<longrightarrow> int k = a + 1"
    "res = partial_loop call flags argv argdef badfn cbd k
       \<lparr>standalonevaluedefset = False, standalonevaluedef = None\<rparr> s"
proof -
  from assms obtain n where n: "start_index flags cbd = Some n" "0 \<le> n" "n \<le> int (length argv)"
    and res: "res = partial_loop call flags argv argdef badfn cbd (nat n)
       \<lparr>standalonevaluedefset = False, standalonevaluedef = None\<rparr> s"
    by (auto simp: miniargv_process_partial_def split: option.splits if_splits)
  show ?thesis
  proof (rule that [of "nat n"])
    show "nat n \<le> length argv" using n by simp
    show "flags AND MINIARG_PROCESS_FLAG_FIND_ONLY = 0 \<longrightarrow> nat n = 1"
      using n by (auto simp: start_index_def split: if_splits)
    show "\<forall>a. cbd = ArgIndex a \<and> flags AND MINIARG_PROCESS_FLAG_FIND_ONLY \<noteq> 0 \<longrightarrow> int (nat n) = a + 1"
      using n by (auto simp: start_index_def split: if_splits)
    show "res = partial_loop call flags argv argdef badfn cbd (nat n)
       \<lparr>standalonevaluedefset = False, standalonevaluedef = None\<rparr> s" by (rule res)
  qed
qed

lemma find_standalone_first:
  assumes "\<forall>e\<in>set pre. callbackfn e \<noteq> None \<and> \<not> standalone_definition e"
    and "callbackfn d \<noteq> None" and "standalone_definition d"
  shows "find_standalone (pre @ d # post) = Some d"
  using assms by (induction pre) (auto simp: standalone_definition_def)

text \<open>
  Claim C4.  A token that does not begin with \<open>-\<close>, and the token \<open>-\<close>, never reaches the
  scans for short and long flags: it is resolved against the standalone value definition
  alone.  That definition is the one the loop remembers when it has looked it up before
  (the table is not read again), and otherwise the first entry of the table before the
  sentinel that has neither a short nor a long argument; after the token the loop
  remembers it.  In a whole traversal, in every pass, each call of a standalone definition's
  callback is a call of that first entry, for a standalone token, with the token as value.
\<close>

theorem standalone_resolution:
  "(i < length argv \<and> CHR 0x00 \<notin> set (argv ! i) \<and> standalone_token (argv ! i) \<longrightarrow>
      resolve_arg call flags argv argdef cbd i cache s =
        (let sd = (if standalonevaluedefset cache then standalonevaluedef cache
                   else find_standalone argdef)
         in ((case sd of
                None \<Rightarrow> Resolved False i s []
              | Some d \<Rightarrow>
                  (case callbackfn d of
                     None \<Rightarrow> Resolved False i s []
                   | Some f \<Rightarrow>
                       if flags AND MINIARG_PROCESS_FLAG_VALUES = 0 then Resolved True i s []
                       else if flags AND MINIARG_PROCESS_FLAG_FIND_ONLY \<noteq> 0 then Found i s
                       else Resolved (fst (call f (Some d) (Some (argv ! i)) cbd s) = 0) i
                              (snd (call f (Some d) (Some (argv ! i)) cbd s))
                              [Callback i d (Some (argv ! i))])),
             \<lparr>standalonevaluedefset = True, standalonevaluedef = sd\<rparr>))) \<and>
   (\<forall>pre d post.
      argdef = pre @ d # post \<and>
      (\<forall>e\<in>set pre. callbackfn e \<noteq> None \<and> \<not> standalone_definition e) \<and>
      callbackfn d \<noteq> None \<and> standalone_definition d \<longrightarrow>
      find_standalone argdef = Some d) \<and>
   ((\<forall>t\<in>set argv. CHR 0x00 \<notin> set t) \<and>
    miniargv_process_partial call flags argv argdef badfn cbd s = Some (r, s', tr) \<longrightarrow>
      (\<forall>e\<in>set tr. value_callback e \<longrightarrow>
         (\<exists>j d. e = Callback j d (Some (argv ! j)) \<and> j < length argv \<and>
            standalone_token (argv ! j) \<and> find_standalone argdef = Some d)))"
proof (intro conjI impI allI)
  assume a: "i < length argv \<and> CHR 0x00 \<notin> set (argv ! i) \<and> standalone_token (argv ! i)"
  then have "\<not> flag_form (argv ! i)" by (simp add: flag_form_standalone_token)
  then show "resolve_arg call flags argv argdef cbd i cache s =
        (let sd = (if standalonevaluedefset cache then standalonevaluedef cache
                   else find_standalone argdef)
         in ((case sd of
                None \<Rightarrow> Resolved False i s []
              | Some d \<Rightarrow>
                  (case callbackfn d of
                     None \<Rightarrow> Resolved False i s []
                   | Some f \<Rightarrow>
                       if flags AND MINIARG_PROCESS_FLAG_VALUES = 0 then Resolved True i s []
                       else if flags AND MINIARG_PROCESS_FLAG_FIND_ONLY \<noteq> 0 then Found i s
                       else Resolved (fst (call f (Some d) (Some (argv ! i)) cbd s) = 0) i
                              (snd (call f (Some d) (Some (argv ! i)) cbd s))
                              [Callback i d (Some (argv ! i))])),
             \<lparr>standalonevaluedefset = True, standalonevaluedef = sd\<rparr>))"
    by (auto simp: resolve_arg_def flag_form_def standalone_arg_def standalone_lookup_def
        invoke_def case_prod_beta Let_def split: option.splits)
next
  fix pre d post
  assume "argdef = pre @ d # post \<and>
      (\<forall>e\<in>set pre. callbackfn e \<noteq> None \<and> \<not> standalone_definition e) \<and>
      callbackfn d \<noteq> None \<and> standalone_definition d"
  then show "find_standalone argdef = Some d"
    using find_standalone_first [of pre d post] by blast
next
  assume a: "(\<forall>t\<in>set argv. CHR 0x00 \<notin> set t) \<and>
    miniargv_process_partial call flags argv argdef badfn cbd s = Some (r, s', tr)"
  then obtain k where "(r, s', tr) = partial_loop call flags argv argdef badfn cbd k
       \<lparr>standalonevaluedefset = False, standalonevaluedef = None\<rparr> s"
    by (blast elim: process_partial_loop)
  from partial_loop_kinds [OF cache_inv_initial this [symmetric]]
  have "\<forall>e\<in>set tr. value_callback e \<longrightarrow>
        (\<exists>j d. e = Callback j d (Some (argv ! j)) \<and> find_standalone argdef = Some d \<and>
           j < length argv \<and> \<not> flag_form (argv ! j))" by blast
  moreover have "\<not> flag_form (argv ! j) \<Longrightarrow> j < length argv \<Longrightarrow> standalone_token (argv ! j)" for j
    using a flag_form_standalone_token [of "argv ! j"] by auto
  ultimately show "\<forall>e\<in>set tr. value_callback e \<longrightarrow>
         (\<exists>j d. e = Callback j d (Some (argv ! j)) \<and> j < length argv \<and>
            standalone_token (argv ! j) \<and> find_standalone argdef = Some d)"
    by blast
qed

text \<open>
  On the example table, with \<open>-\<close> and \<open>input.txt\<close> as arguments: the first token looks the
  positional definition up, the second one finds it remembered.
\<close>

theorem standalone_resolution_witness:
  "standalone_token ''-'' \<and> standalone_token ''input.txt'' \<and>
   find_standalone example_argdef = Some positional_def \<and>
   resolve_arg counting_call MINIARG_PROCESS_FLAG_BOTH [''prog'', ''-'', ''input.txt'']
     example_argdef (UserData ()) 1 \<lparr>standalonevaluedefset = False, standalonevaluedef = None\<rparr> 0 =
   (Resolved True 1 1 [Callback 1 positional_def (Some ''-'')],
    \<lparr>standalonevaluedefset = True, standalonevaluedef = Some positional_def\<rparr>) \<and>
   resolve_arg counting_call MINIARG_PROCESS_FLAG_BOTH [''prog'', ''-'', ''input.txt'']
     example_argdef (UserData ())
     2 \<lparr>standalonevaluedefset = True, standalonevaluedef = Some positional_def\<rparr> 1 =
   (Resolved True 2 2 [Callback 2 positional_def (Some ''input.txt'')],
    \<lparr>standalonevaluedefset = True, standalonevaluedef = Some positional_def\<rparr>)"
proof -
  let ?argv = "[''prog'', ''-'', ''input.txt'']"
  have tok: "standalone_token ''-''" "standalone_token ''input.txt''"
    by (simp_all add: standalone_token_def)
  have pos: "example_argdef = [output_def, verbose_def] @ positional_def # [sentinel] \<and>
      (\<forall>e\<in>set [output_def, verbose_def]. callbackfn e \<noteq> None \<and> \<not> standalone_definition e) \<and>
      callbackfn positional_def \<noteq> None \<and> standalone_definition positional_def"
    by (simp add: example_defs standalone_definition_def)
  note inst = standalone_resolution [where call = counting_call
      and flags = MINIARG_PROCESS_FLAG_BOTH and argv = ?argv and argdef = example_argdef
      and cbd = "UserData ()"]
  from inst [THEN conjunct2, THEN conjunct1, rule_format, OF pos]
  have find: "find_standalone example_argdef = Some positional_def" .
  have 1: "resolve_arg counting_call MINIARG_PROCESS_FLAG_BOTH ?argv example_argdef (UserData ())
       1 \<lparr>standalonevaluedefset = False, standalonevaluedef = None\<rparr> 0 =
     (Resolved True 1 1 [Callback 1 positional_def (Some ''-'')],
      \<lparr>standalonevaluedefset = True, standalonevaluedef = Some positional_def\<rparr>)"
    using inst [where i = 1 and cache = "\<lparr>standalonevaluedefset = False, standalonevaluedef = None\<rparr>"
        and s = 0, THEN conjunct1] tok find
    by (simp add: Let_def flag_defs counting_call_def positional_def_def)
  have 2: "resolve_arg counting_call MINIARG_PROCESS_FLAG_BOTH ?argv example_argdef (UserData ())
       2 \<lparr>standalonevaluedefset = True, standalonevaluedef = Some positional_def\<rparr> 1 =
     (Resolved True 2 2 [Callback 2 positional_def (Some ''input.txt'')],
      \<lparr>standalonevaluedefset = True, standalonevaluedef = Some positional_def\<rparr>)"
    using inst [where i = 2
        and cache = "\<lparr>standalonevaluedefset = True, standalonevaluedef = Some positional_def\<rparr>"
        and s = 1, THEN conjunct1] tok
    by (simp add: Let_def flag_defs counting_call_def positional_def_def)
  from tok find 1 2 show ?thesis by simp
qed

section \<open>The order of the calls\<close>

lemma env_scan_events:
  "env_scan call f d name cbd s env = (r, s', ev) \<Longrightarrow>
   \<forall>e\<in>set ev. \<exists>d v. e = EnvCallback d v"
proof (induction env arbitrary: s r s' ev)
  case Nil
  then show ?case by simp
next
  case (Cons e es)
  then show ?case
    by (auto split: option.splits if_splits prod.splits)
qed

lemma env_defs_events:
  "env_defs call env cbd s ds = (r, s', ev) \<Longrightarrow> \<forall>e\<in>set ev. \<exists>d v. e = EnvCallback d v"
proof (induction ds arbitrary: s r s' ev)
  case Nil
  then show ?case by simp
next
  case (Cons d ds)
  show ?case
  proof (cases "callbackfn d")
    case None
    with Cons.prems show ?thesis by simp
  next
    case (Some f)
    show ?thesis
    proof (cases "longarg d")
      case None
      with Some Cons show ?thesis by simp
    next
      case name: (Some name)
      obtain r1 s1 ev1 where scan: "env_scan call f d name cbd s env = (r1, s1, ev1)"
        by (cases "env_scan call f d name cbd s env") auto
      note e1 = env_scan_events [OF scan]
      show ?thesis
      proof (cases "r1 = 0")
        case False
        with Some name scan Cons.prems e1 show ?thesis by simp
      next
        case True
        obtain r2 s2 ev2 where rest: "env_defs call env cbd s1 ds = (r2, s2, ev2)"
          by (cases "env_defs call env cbd s1 ds") auto
        from Cons.IH [OF rest] e1 True Some name scan rest Cons.prems show ?thesis by auto
      qed
    qed
  qed
qed

lemma run_if_zero_cases:
  assumes "run_if_zero (r0, s0, ev0) pass = Some (r1, s1, ev1)"
  obtains (skipped) "r0 \<noteq> 0" "r1 = r0" "s1 = s0" "ev1 = ev0"
  | (run) tr where "r0 = 0" "pass s0 = Some (r1, s1, tr)" "ev1 = ev0 @ tr"
  using assms by (auto simp: run_if_zero_def split: if_splits option.splits)

lemma miniargv_process_split:
  assumes "miniargv_process call (Some argv) env argdef envdef badfn callbackdata s = Some (r, s', tr)"
  obtains ev0 tr1 tr2 where "tr = ev0 @ tr1 @ tr2"
    "\<forall>e\<in>set ev0. \<exists>d v. e = EnvCallback d v"
    "tr1 = [] \<or> (\<exists>s0 r1 s1. miniargv_process_partial call MINIARG_PROCESS_FLAG_FLAGS argv argdef
        badfn (UserData callbackdata) s0 = Some (r1, s1, tr1))"
    "tr2 = [] \<or> (\<exists>s0 r2 s2. miniargv_process_partial call MINIARG_PROCESS_FLAG_VALUES argv argdef
        badfn (UserData callbackdata) s0 = Some (r2, s2, tr2))"
proof -
  obtain r0 s0 ev0 where acc: "(case env of None \<Rightarrow> (0, s, [])
      | Some e \<Rightarrow> miniargv_process_env call e envdef callbackdata s) = (r0, s0, ev0)"
    by (metis prod_cases3)
  have ev0: "\<forall>e\<in>set ev0. \<exists>d v. e = EnvCallback d v"
    using acc env_defs_events [of call _ "UserData callbackdata" s envdef r0 s0 ev0]
    by (cases env) (auto simp: miniargv_process_env_def)
  from assms acc obtain r1 s1 ev1 where
    p1: "run_if_zero (r0, s0, ev0) (miniargv_process_partial call MINIARG_PROCESS_FLAG_FLAGS argv
           argdef badfn (UserData callbackdata)) = Some (r1, s1, ev1)"
    and p2: "run_if_zero (r1, s1, ev1) (miniargv_process_partial call MINIARG_PROCESS_FLAG_VALUES argv
           argdef badfn (UserData callbackdata)) = Some (r, s', tr)"
    by (auto simp: miniargv_process_def split: option.splits)
  from p1 obtain tr1 where tr1: "ev1 = ev0 @ tr1"
    "tr1 = [] \<or> (\<exists>s0 r1 s1. miniargv_process_partial call MINIARG_PROCESS_FLAG_FLAGS argv argdef
        badfn (UserData callbackdata) s0 = Some (r1, s1, tr1))"
    by (cases rule: run_if_zero_cases) auto
  from p2 obtain tr2 where tr2: "tr = ev1 @ tr2"
    "tr2 = [] \<or> (\<exists>s0 r2 s2. miniargv_process_partial call MINIARG_PROCESS_FLAG_VALUES argv argdef
        badfn (UserData callbackdata) s0 = Some (r2, s2, tr2))"
    by (cases rule: run_if_zero_cases) auto
  show ?thesis
    by (rule that [of ev0 tr1 tr2]) (use tr1 tr2 ev0 in auto)
qed

lemma process_partial_facts:
  assumes "miniargv_process_partial call flags argv argdef badfn cbd s = Some (r, s', tr)"
  shows "(flags AND MINIARG_PROCESS_FLAG_FLAGS = 0 \<longrightarrow> filter flag_callback tr = []) \<and>
     (flags AND MINIARG_PROCESS_FLAG_VALUES = 0 \<or> flags AND MINIARG_PROCESS_FLAG_FIND_ONLY \<noteq> 0 \<longrightarrow>
        filter value_callback tr = []) \<and>
     (\<forall>e\<in>set tr. value_callback e \<longrightarrow>
        (\<exists>j d. e = Callback j d (Some (argv ! j)) \<and> find_standalone argdef = Some d \<and>
           j < length argv \<and> \<not> flag_form (argv ! j))) \<and>
     sorted_wrt (<) (List.map_filter callback_cursor tr) \<and>
     sorted (List.map_filter call_cursor tr)"
proof -
  from assms obtain k where k: "(r, s', tr) = partial_loop call flags argv argdef badfn cbd k
       \<lparr>standalonevaluedefset = False, standalonevaluedef = None\<rparr> s"
    by (blast elim: process_partial_loop)
  from partial_loop_kinds [OF cache_inv_initial k [symmetric]]
    partial_loop_cursors [OF k [symmetric]]
  show ?thesis by blast
qed

lemma sorted_wrt_map_filter_filter:
  "sorted_wrt P (List.map_filter f xs) \<Longrightarrow> sorted_wrt P (List.map_filter f (filter Q xs))"
proof (induction xs)
  case Nil
  then show ?case by simp
next
  case (Cons x xs)
  have sub: "set (List.map_filter f (filter Q xs)) \<subseteq> set (List.map_filter f xs)"
    by (auto simp: set_map_filter)
  from Cons sub show ?case
    by (cases "f x") auto
qed


text \<open>
  Claim C1.  Without an environment, \<open>miniargv_process\<close> is \<open>miniargv_process_arg_flags\<close>
  followed, when that returns 0, by \<open>miniargv_process_arg_params\<close>.  In what
  \<open>miniargv_process\<close> calls, no callback of a flag comes after the first call of the
  callback for standalone values; the calls of that callback are made at strictly increasing
  cursors, each with the token under the cursor as value.  In the left-to-right traversal
  \<open>miniargv_process_arg\<close> the callbacks of the definitions are called at strictly
  increasing cursors, and all calls, those of the bad-argument handler included, at cursors
  that never decrease (the handler is called at the cursor of a callback that refused).
\<close>

theorem traversal_order:
  "miniargv_process call (Some argv) None argdef envdef badfn callbackdata s =
     (case miniargv_process_arg_flags call argv argdef badfn callbackdata s of
        None \<Rightarrow> None
      | Some (r1, s1, tr1) \<Rightarrow>
          if r1 \<noteq> 0 then Some (r1, s1, tr1)
          else (case miniargv_process_arg_params call argv argdef badfn callbackdata s1 of
                  None \<Rightarrow> None
                | Some (r2, s2, tr2) \<Rightarrow> Some (r2, s2, tr1 @ tr2))) \<and>
   (miniargv_process call (Some argv) env argdef envdef badfn callbackdata s = Some (r, s', tr) \<longrightarrow>
      filter flag_callback (dropWhile (\<lambda>e. \<not> value_callback e) tr) = [] \<and>
      sorted_wrt (<) (List.map_filter callback_cursor (filter value_callback tr)) \<and>
      (\<forall>e\<in>set tr. value_callback e \<longrightarrow>
         (\<exists>j d. e = Callback j d (Some (argv ! j)) \<and> j < length argv))) \<and>
   (miniargv_process_arg call argv argdef badfn callbackdata s = Some (r, s', tr) \<longrightarrow>
      sorted_wrt (<) (List.map_filter callback_cursor tr) \<and>
      sorted (List.map_filter call_cursor tr))"
proof (intro conjI impI)
  show "miniargv_process call (Some argv) None argdef envdef badfn callbackdata s =
     (case miniargv_process_arg_flags call argv argdef badfn callbackdata s of
        None \<Rightarrow> None
      | Some (r1, s1, tr1) \<Rightarrow>
          if r1 \<noteq> 0 then Some (r1, s1, tr1)
          else (case miniargv_process_arg_params call argv argdef badfn callbackdata s1 of
                  None \<Rightarrow> None
                | Some (r2, s2, tr2) \<Rightarrow> Some (r2, s2, tr1 @ tr2)))"
    by (simp add: miniargv_process_def miniargv_process_arg_flags_def
        miniargv_process_arg_params_def run_if_zero_def split: option.splits)
next
  assume run: "miniargv_process call (Some argv) env argdef envdef badfn callbackdata s =
    Some (r, s', tr)"
  then obtain ev0 tr1 tr2 where tr: "tr = ev0 @ tr1 @ tr2"
    and ev0: "\<forall>e\<in>set ev0. \<exists>d v. e = EnvCallback d v"
    and tr1: "tr1 = [] \<or> (\<exists>s0 r1 s1. miniargv_process_partial call MINIARG_PROCESS_FLAG_FLAGS argv
        argdef badfn (UserData callbackdata) s0 = Some (r1, s1, tr1))"
    and tr2: "tr2 = [] \<or> (\<exists>s0 r2 s2. miniargv_process_partial call MINIARG_PROCESS_FLAG_VALUES argv
        argdef badfn (UserData callbackdata) s0 = Some (r2, s2, tr2))"
    by (rule miniargv_process_split)
  have v0: "filter value_callback ev0 = []" using ev0 by (auto simp: filter_empty_conv)
  have v1: "filter value_callback tr1 = []"
  proof (cases "tr1 = []")
    case True
    then show ?thesis by simp
  next
    case False
    with tr1 obtain s0 r1 s1 where "miniargv_process_partial call MINIARG_PROCESS_FLAG_FLAGS argv
        argdef badfn (UserData callbackdata) s0 = Some (r1, s1, tr1)" by blast
    from process_partial_facts [OF this] show ?thesis by (simp add: flag_defs)
  qed
  have "filter flag_callback tr2 = [] \<and>
      sorted_wrt (<) (List.map_filter callback_cursor tr2) \<and>
      (\<forall>e\<in>set tr2. value_callback e \<longrightarrow>
        (\<exists>j d. e = Callback j d (Some (argv ! j)) \<and> j < length argv))"
  proof (cases "tr2 = []")
    case True
    then show ?thesis by simp
  next
    case False
    with tr2 obtain s0 r2 s2 where "miniargv_process_partial call MINIARG_PROCESS_FLAG_VALUES argv
        argdef badfn (UserData callbackdata) s0 = Some (r2, s2, tr2)" by blast
    from process_partial_facts [OF this]
    have "filter flag_callback tr2 = []"
      and "sorted_wrt (<) (List.map_filter callback_cursor tr2)"
      and "\<forall>e\<in>set tr2. value_callback e \<longrightarrow>
        (\<exists>j d. e = Callback j d (Some (argv ! j)) \<and> find_standalone argdef = Some d \<and>
           j < length argv \<and> \<not> flag_form (argv ! j))"
      by (simp_all add: flag_defs)
    then show ?thesis by blast
  qed
  then have f2: "filter flag_callback tr2 = []"
    and s2: "sorted_wrt (<) (List.map_filter callback_cursor tr2)"
    and t2: "\<forall>e\<in>set tr2. value_callback e \<longrightarrow>
        (\<exists>j d. e = Callback j d (Some (argv ! j)) \<and> j < length argv)"
    by blast+
  from v0 v1 have "dropWhile (\<lambda>e. \<not> value_callback e) tr =
      dropWhile (\<lambda>e. \<not> value_callback e) tr2"
    unfolding tr by (simp add: filter_empty_conv dropWhile_append2)
  moreover have "set (dropWhile (\<lambda>e. \<not> value_callback e) tr2) \<subseteq> set tr2"
    by (auto dest: set_dropWhileD)
  ultimately show "filter flag_callback (dropWhile (\<lambda>e. \<not> value_callback e) tr) = []"
    using f2 by (auto simp: filter_empty_conv)
  from v0 v1 have "filter value_callback tr = filter value_callback tr2"
    unfolding tr by simp
  with s2 show "sorted_wrt (<) (List.map_filter callback_cursor (filter value_callback tr))"
    by (simp add: sorted_wrt_map_filter_filter)
  from v0 v1 t2 show "\<forall>e\<in>set tr. value_callback e \<longrightarrow>
         (\<exists>j d. e = Callback j d (Some (argv ! j)) \<and> j < length argv)"
    unfolding tr by (auto simp: filter_empty_conv)
next
  assume "miniargv_process_arg call argv argdef badfn callbackdata s = Some (r, s', tr)"
  then show "sorted_wrt (<) (List.map_filter callback_cursor tr)"
    and "sorted (List.map_filter call_cursor tr)"
    using process_partial_facts [of call MINIARG_PROCESS_FLAG_BOTH argv argdef badfn
        "UserData callbackdata" s r s' tr]
    by (simp_all add: miniargv_process_arg_def)
qed

text \<open>
  The arguments \<open>a -v b\<close> on the example table: the two passes call the verbose callback
  first and the positional callback for \<open>a\<close> and \<open>b\<close> after it; the left-to-right
  traversal calls them in the order of the tokens.
\<close>

theorem traversal_order_witness:
  "miniargv_process counting_call (Some [''prog'', ''a'', ''-v'', ''b'']) None example_argdef []
     None () 0 =
   Some (0, 3, [Callback 2 verbose_def None, Callback 1 positional_def (Some ''a''),
     Callback 3 positional_def (Some ''b'')]) \<and>
   filter flag_callback (dropWhile (\<lambda>e. \<not> value_callback e)
     [Callback 2 verbose_def None, Callback 1 positional_def (Some ''a''),
      Callback 3 positional_def (Some ''b'')]) = [] \<and>
   sorted_wrt (<) (List.map_filter callback_cursor (filter value_callback
     [Callback 2 verbose_def None, Callback 1 positional_def (Some ''a''),
      Callback 3 positional_def (Some ''b'')])) \<and>
   miniargv_process_arg counting_call [''prog'', ''a'', ''-v'', ''b''] example_argdef None () 0 =
   Some (0, 3, [Callback 1 positional_def (Some ''a''), Callback 2 verbose_def None,
     Callback 3 positional_def (Some ''b'')]) \<and>
   sorted_wrt (<) (List.map_filter callback_cursor
     [Callback 1 positional_def (Some ''a''), Callback 2 verbose_def None,
      Callback 3 positional_def (Some ''b'')])"
proof -
  let ?argv = "[''prog'', ''a'', ''-v'', ''b'']"
  have two: "miniargv_process counting_call (Some ?argv) None example_argdef [] None () 0 =
     Some (0, 3, [Callback 2 verbose_def None, Callback 1 positional_def (Some ''a''),
       Callback 3 positional_def (Some ''b'')])"
    by (simp add: miniargv_process_def run_if_zero_def engine_defs flag_defs partial_loop.simps
        example_defs counting_call_def)
  have ltr: "miniargv_process_arg counting_call ?argv example_argdef None () 0 =
     Some (0, 3, [Callback 1 positional_def (Some ''a''), Callback 2 verbose_def None,
       Callback 3 positional_def (Some ''b'')])"
    by (simp add: miniargv_process_arg_def engine_defs flag_defs partial_loop.simps
        example_defs counting_call_def)
  note inst = traversal_order [where call = counting_call and argv = ?argv
      and argdef = example_argdef and envdef = "[]" and badfn = None and callbackdata = "()"
      and s = 0]
  from inst [THEN conjunct2, THEN conjunct1, THEN mp, OF two]
    inst [THEN conjunct2, THEN conjunct2, THEN mp, OF ltr] two ltr
  show ?thesis by blast
qed

section \<open>The match result of a token\<close>

text \<open>
  What the specification calls the match result of a token, written after its words and not
  after the code: a definition of a flag with the value extracted for it and the cursor on
  which the match ends (the cursor itself, or the following token when that token is the
  value), the definition for standalone values, or no match.
\<close>

datatype ('f, 'u) match_result =
    Flag_match "('f, 'u) miniargv_definition" "string option" nat
  | Value_match "('f, 'u) miniargv_definition"
  | No_match

text \<open>
  The first entry of the table, before its sentinel, whose short argument is \<open>c\<close>.
\<close>

fun short_definition :: "('f, 'u) table \<Rightarrow> char \<Rightarrow> ('f, 'u) miniargv_definition option" where
  "short_definition [] c = None"
| "short_definition (d # ds) c =
     (case callbackfn d of
        None \<Rightarrow> None
      | Some f \<Rightarrow> if shortarg d = c then Some d else short_definition ds c)"

text \<open>
  The first entry of the table, before its sentinel, whose long name is the whole remainder
  \<open>rem\<close> of the token or is followed by \<open>=\<close> in it, together with what follows the name.
\<close>

fun long_definition ::
  "('f, 'u) table \<Rightarrow> string \<Rightarrow> (('f, 'u) miniargv_definition \<times> string) option" where
  "long_definition [] rem = None"
| "long_definition (d # ds) rem =
     (case callbackfn d of
        None \<Rightarrow> None
      | Some f \<Rightarrow>
          (case longarg d of
             None \<Rightarrow> long_definition ds rem
           | Some name \<Rightarrow>
               if rem = name \<or> take (Suc (length name)) rem = name @ ''=''
               then Some (d, drop (length name) rem)
               else long_definition ds rem))"

text \<open>
  The first entry of the table, before its sentinel, that is a definition for standalone
  values.
\<close>

definition positional_definition :: "('f, 'u) table \<Rightarrow> ('f, 'u) miniargv_definition option" where
  "positional_definition argdef =
     List.find standalone_definition (takeWhile (\<lambda>d. callbackfn d \<noteq> None) argdef)"

text \<open>
  The match result of token \<open>i\<close>.  A standalone token matches the definition for standalone
  values.  A short flag matches the first entry with its character: an entry without value
  when nothing follows the character; an entry with a value when the value is attached or a
  following token exists, which is then the value.  A long flag matches the first entry
  whose name is followed by the end of the token or by \<open>=\<close>: an entry without value at the
  end of the token, an entry with a value at \<open>=\<close>.  Everything else is no match.  As in
  the code, the token \<open>--\<close> is a long flag whose name is empty.
\<close>

definition match_token :: "('f, 'u) table \<Rightarrow> string list \<Rightarrow> nat \<Rightarrow> ('f, 'u) match_result" where
  "match_token argdef argv i =
     (let t = argv ! i in
      if standalone_token t then
        (case positional_definition argdef of None \<Rightarrow> No_match | Some d \<Rightarrow> Value_match d)
      else if t ! 1 \<noteq> CHR ''-'' then
        (case short_definition argdef (t ! 1) of
           None \<Rightarrow> No_match
         | Some d \<Rightarrow>
             if argparam d = None then (if drop 2 t = [] then Flag_match d None i else No_match)
             else if drop 2 t \<noteq> [] then Flag_match d (Some (drop 2 t)) i
             else if Suc i < length argv then Flag_match d (Some (argv ! Suc i)) (Suc i)
             else No_match)
      else
        (case long_definition argdef (drop 2 t) of
           None \<Rightarrow> No_match
         | Some (d, tail) \<Rightarrow>
             if argparam d = None then (if tail = [] then Flag_match d None i else No_match)
             else if tail \<noteq> [] then Flag_match d (Some (tl tail)) i
             else No_match))"

lemma match_token_cursor:
  "match_token argdef argv i = Flag_match d v j \<Longrightarrow> j = i \<or> j = Suc i \<and> Suc i < length argv"
  by (auto simp: match_token_def Let_def split: if_splits option.splits prod.splits)

text \<open>
  The first token from cursor \<open>i\<close> on that matches nothing, when every token before it is
  passed over with its value: the token at which a traversal fails when no callback refuses.
\<close>

function first_unmatched :: "('f, 'u) table \<Rightarrow> string list \<Rightarrow> nat \<Rightarrow> nat option" where
  "first_unmatched argdef argv i =
     (if i < length argv then
        (case match_token argdef argv i of
           No_match \<Rightarrow> Some i
         | Flag_match d v j \<Rightarrow> first_unmatched argdef argv (Suc j)
         | Value_match d \<Rightarrow> first_unmatched argdef argv (Suc i))
      else None)"
  by pat_completeness auto
termination
  by (relation "measure (\<lambda>(argdef, argv, i). length argv - i)")
     (auto dest!: match_token_cursor)

declare first_unmatched.simps [simp del]

text \<open>The code resolves a token to its match result.\<close>

lemma find_standalone_positional: "find_standalone argdef = positional_definition argdef"
  by (induction argdef)
     (auto simp: positional_definition_def standalone_definition_def split: option.splits)

lemma short_arg_definition:
  assumes "char_at (argv ! i) 1 = c" and "c \<noteq> CHR 0x00"
  shows "short_arg call flags argv cbd i s ds =
     (case short_definition ds c of
        None \<Rightarrow> Resolved False i s []
      | Some d \<Rightarrow>
          if argparam d = None then
            (if char_at (argv ! i) 2 = CHR 0x00
             then invoke call (flags AND MINIARG_PROCESS_FLAG_FLAGS = 0) (the (callbackfn d)) d None
                    cbd i s
             else Resolved False i s [])
          else if char_at (argv ! i) 2 \<noteq> CHR 0x00 then
            invoke call (flags AND MINIARG_PROCESS_FLAG_FLAGS = 0) (the (callbackfn d)) d
              (Some (drop 2 (argv ! i))) cbd i s
          else if Suc i < length argv then
            invoke call (flags AND MINIARG_PROCESS_FLAG_FLAGS = 0) (the (callbackfn d)) d
              (Some (argv ! Suc i)) cbd (Suc i) s
          else Resolved False i s [])"
  using assms by (induction ds) (auto split: option.splits)

lemma long_definition_test:
  "(rem = name \<or> take (Suc (length name)) rem = name @ ''='') =
   (\<exists>t. rem = name @ t \<and> (t = [] \<or> hd t = CHR ''=''))"
proof
  assume "rem = name \<or> take (Suc (length name)) rem = name @ ''=''"
  then show "\<exists>t. rem = name @ t \<and> (t = [] \<or> hd t = CHR ''='')"
  proof
    assume "rem = name"
    then show ?thesis by simp
  next
    assume t: "take (Suc (length name)) rem = name @ ''=''"
    then have "take (length name) (take (Suc (length name)) rem) = name" by simp
    then have tk: "take (length name) rem = name" by (simp add: min_def)
    then have r: "rem = name @ drop (length name) rem" by (metis append_take_drop_id)
    with t have "take (Suc (length name)) (name @ drop (length name) rem) = name @ ''=''" by simp
    then have "take (Suc 0) (drop (length name) rem) = ''=''" by simp
    then have "hd (drop (length name) rem) = CHR ''=''" by (cases "drop (length name) rem") auto
    with r show ?thesis by blast
  qed
next
  assume "\<exists>t. rem = name @ t \<and> (t = [] \<or> hd t = CHR ''='')"
  then obtain t where "rem = name @ t" "t = [] \<or> hd t = CHR ''=''" by blast
  then show "rem = name \<or> take (Suc (length name)) rem = name @ ''=''"
    by (cases t) auto
qed

lemma long_arg_definition:
  assumes nul: "CHR 0x00 \<notin> set (argv ! i)" and tok: "argv ! i = ''--'' @ rem"
  shows "long_arg call flags argv cbd i s ds =
     (case long_definition ds rem of
        None \<Rightarrow> Resolved False i s []
      | Some (d, tail) \<Rightarrow>
          if argparam d = None then
            (if tail = []
             then invoke call (flags AND MINIARG_PROCESS_FLAG_FLAGS = 0) (the (callbackfn d)) d None
                    cbd i s
             else Resolved False i s [])
          else if tail \<noteq> [] then
            invoke call (flags AND MINIARG_PROCESS_FLAG_FLAGS = 0) (the (callbackfn d)) d
              (Some (tl tail)) cbd i s
          else Resolved False i s [])"
proof (induction ds)
  case Nil
  then show ?case by simp
next
  case (Cons d ds)
  show ?case
  proof (cases "callbackfn d")
    case None
    then show ?thesis by simp
  next
    case (Some f)
    show ?thesis
    proof (cases "longarg d")
      case None
      with Some Cons show ?thesis by simp
    next
      case n: (Some name)
      let ?hit = "strncmp_eq (drop 2 (argv ! i)) name (length name) \<and>
          (char_at (argv ! i) (2 + length name) = CHR 0x00 \<or>
           char_at (argv ! i) (2 + length name) = CHR ''='')"
      have hit: "?hit = (rem = name \<or> take (Suc (length name)) rem = name @ ''='')"
        unfolding long_definition_test by (rule long_test [OF nul tok])
      show ?thesis
      proof (cases ?hit)
        case False
        have a: "long_arg call flags argv cbd i s (d # ds) = long_arg call flags argv cbd i s ds"
          by (simp only: long_arg.simps Some n option.case if_not_P [OF False])
        have "\<not> (rem = name \<or> take (Suc (length name)) rem = name @ ''='')"
          unfolding hit [symmetric] by (rule False)
        then have b: "long_definition (d # ds) rem = long_definition ds rem"
          using Some n by simp
        show ?thesis unfolding a b by (rule Cons.IH)
      next
        case True
        with hit obtain tail where r: "rem = name @ tail" and tl: "tail = [] \<or> hd tail = CHR ''=''"
          unfolding long_definition_test by blast
        have "char_at (argv ! i) (length (''--'' @ name) + 0) = char_at tail 0"
          unfolding tok r by (simp only: char_at_append_length append_assoc [symmetric])
        then have at: "char_at (argv ! i) (2 + length name) = (if tail = [] then CHR 0x00 else hd tail)"
          by (cases tail) simp_all
        have nz: "tail \<noteq> [] \<Longrightarrow> hd tail \<noteq> CHR 0x00"
          using nul tok r by (cases tail) auto
        have dr: "drop (3 + length name) (argv ! i) = tl tail" if "tail \<noteq> []"
          using that tok r by (cases tail) (simp_all add: numeral_3_eq_3)
        have ld: "long_definition (d # ds) rem = Some (d, tail)"
          using Some n hit True r by simp
        from True Some n have "long_arg call flags argv cbd i s (d # ds) =
          (if argparam d = None then
             (if char_at (argv ! i) (2 + length name) = CHR 0x00
              then invoke call (flags AND MINIARG_PROCESS_FLAG_FLAGS = 0) f d None cbd i s
              else Resolved False i s [])
           else if char_at (argv ! i) (2 + length name) = CHR ''='' then
             invoke call (flags AND MINIARG_PROCESS_FLAG_FLAGS = 0) f d
               (Some (drop (3 + length name) (argv ! i))) cbd i s
           else Resolved False i s [])"
          by simp
        with at nz tl dr Some show ?thesis unfolding ld by auto
      qed
    qed
  qed
qed

lemma resolve_arg_match:
  assumes nul: "CHR 0x00 \<notin> set (argv ! i)" and inv: "cache_inv argdef cache"
  shows "resolve_arg call flags argv argdef cbd i cache s =
     (case match_token argdef argv i of
        No_match \<Rightarrow> Resolved False i s []
      | Flag_match d v j \<Rightarrow>
          invoke call (flags AND MINIARG_PROCESS_FLAG_FLAGS = 0) (the (callbackfn d)) d v cbd j s
      | Value_match d \<Rightarrow>
          if flags AND MINIARG_PROCESS_FLAG_VALUES = 0 then Resolved True i s []
          else if flags AND MINIARG_PROCESS_FLAG_FIND_ONLY \<noteq> 0 then Found i s
          else invoke call False (the (callbackfn d)) d (Some (argv ! i)) cbd i s,
      if standalone_token (argv ! i) then standalone_lookup argdef cache else cache)"
proof (cases "standalone_token (argv ! i)")
  case True
  with nul have nf: "\<not> (char_at (argv ! i) 0 = CHR ''-'' \<and> char_at (argv ! i) 1 \<noteq> CHR 0x00)"
    using flag_form_standalone_token [of "argv ! i"] by (simp add: flag_form_def)
  note lk = standalone_lookup_inv [OF inv]
  have res: "resolve_arg call flags argv argdef cbd i cache s =
      (standalone_arg call flags argv cbd i s (standalone_lookup argdef cache),
       standalone_lookup argdef cache)"
    unfolding resolve_arg_def if_not_P [OF nf] ..
  have mt: "match_token argdef argv i =
      (case positional_definition argdef of None \<Rightarrow> No_match | Some d \<Rightarrow> Value_match d)"
    using True by (simp add: match_token_def)
  show ?thesis
  proof (cases "positional_definition argdef")
    case None
    with lk have "standalonevaluedef (standalone_lookup argdef cache) = None"
      by (simp add: find_standalone_positional)
    with None True show ?thesis unfolding res mt by (simp add: standalone_arg_def)
  next
    case (Some d)
    then have fs: "find_standalone argdef = Some d" by (simp add: find_standalone_positional)
    from find_standalone_Some [OF this] obtain f where f: "callbackfn d = Some f" by auto
    from lk fs have "standalonevaluedef (standalone_lookup argdef cache) = Some d" by simp
    with f Some True show ?thesis unfolding res mt by (simp add: standalone_arg_def invoke_def)
  qed
next
  case False
  then obtain c rest where tok: "argv ! i = CHR ''-'' # c # rest"
    by (cases "argv ! i"; cases "tl (argv ! i)") (auto simp: standalone_token_def)
  with nul have c: "c \<noteq> CHR 0x00" by auto
  have r: "(char_at (argv ! i) 2 = CHR 0x00) = (rest = [])"
    using tok nul by (auto simp: char_at_end)
  have drop2: "drop 2 (argv ! i) = rest" using tok by simp
  have nth1: "argv ! i ! 1 = c" using tok by simp
  show ?thesis
  proof (cases "c = CHR ''-''")
    case ns: False
    have res: "resolve_arg call flags argv argdef cbd i cache s =
        (short_arg call flags argv cbd i s argdef, cache)"
      using tok c ns by (simp add: resolve_arg_def)
    have sa: "short_arg call flags argv cbd i s argdef =
     (case short_definition argdef c of
        None \<Rightarrow> Resolved False i s []
      | Some d \<Rightarrow>
          if argparam d = None then
            (if rest = []
             then invoke call (flags AND MINIARG_PROCESS_FLAG_FLAGS = 0) (the (callbackfn d)) d None
                    cbd i s
             else Resolved False i s [])
          else if rest \<noteq> [] then
            invoke call (flags AND MINIARG_PROCESS_FLAG_FLAGS = 0) (the (callbackfn d)) d
              (Some rest) cbd i s
          else if Suc i < length argv then
            invoke call (flags AND MINIARG_PROCESS_FLAG_FLAGS = 0) (the (callbackfn d)) d
              (Some (argv ! Suc i)) cbd (Suc i) s
          else Resolved False i s [])"
    proof -
      have c1: "char_at (argv ! i) 1 = c" by (simp add: tok)
      show ?thesis unfolding short_arg_definition [OF c1 c] r drop2 by (rule refl)
    qed
    have mt: "match_token argdef argv i =
        (case short_definition argdef c of
           None \<Rightarrow> No_match
         | Some d \<Rightarrow>
             if argparam d = None then (if rest = [] then Flag_match d None i else No_match)
             else if rest \<noteq> [] then Flag_match d (Some rest) i
             else if Suc i < length argv then Flag_match d (Some (argv ! Suc i)) (Suc i)
             else No_match)"
      unfolding match_token_def Let_def if_not_P [OF False] nth1 drop2
      using ns by simp
    show ?thesis unfolding res sa mt if_not_P [OF False]
      by (cases "short_definition argdef c") simp_all
  next
    case True
    with tok have t2: "argv ! i = ''--'' @ rest" by simp
    have res: "resolve_arg call flags argv argdef cbd i cache s =
        (long_arg call flags argv cbd i s argdef, cache)"
      using tok c True by (simp add: resolve_arg_def)
    note la = long_arg_definition [OF nul t2, of call flags cbd s argdef]
    have mt: "match_token argdef argv i =
        (case long_definition argdef rest of
           None \<Rightarrow> No_match
         | Some (d, tail) \<Rightarrow>
             if argparam d = None then (if tail = [] then Flag_match d None i else No_match)
             else if tail \<noteq> [] then Flag_match d (Some (tl tail)) i
             else No_match)"
      unfolding match_token_def Let_def if_not_P [OF False] nth1 drop2
      using True by simp
    show ?thesis unfolding res la mt if_not_P [OF False]
      by (cases "long_definition argdef rest") (simp_all add: case_prod_beta)
  qed
qed

section \<open>The return value of a traversal\<close>

lemma loop_body_abort:
  assumes "i < length argv"
    and "loop_body call flags argv argdef badfn cbd i cache s = (Abort r s' ev, cache')"
    and "flags AND MINIARG_PROCESS_FLAG_FIND_ONLY = 0"
  shows "\<exists>j cs. (j = i \<or> j = Suc i) \<and> j < length argv \<and> r = int j \<and>
      (cs = [] \<or> (\<exists>d v. cs = [Callback j d v])) \<and>
      ((\<exists>b. badfn = Some b \<and> ev = cs @ [BadArg j (argv ! j)]) \<or>
       (badfn = None \<and>
        ev = cs @ [Stderr (''Invalid command line argument: '' @ argv ! j @ [CHR 0x0A])]))"
proof -
  from loop_body_summary [OF assms(1,2)] assms(3)
  have "\<exists>j cs. (j = i \<or> j = Suc i) \<and> j < length argv \<and>
      (cs = [] \<or> (\<exists>d v. cs = [Callback j d v])) \<and>
      ((\<exists>b. badfn = Some b \<and> r = int j \<and> ev = cs @ [BadArg j (argv ! j)]) \<or>
       (badfn = None \<and> r = int j \<and>
        ev = cs @ [Stderr (''Invalid command line argument: '' @ argv ! j @ [CHR 0x0A])]))"
    by (elim exE conjE) (auto; blast)
  then show ?thesis by blast
qed

lemma loop_body_continue:
  assumes "i < length argv"
    and "loop_body call flags argv argdef badfn cbd i cache s = (Continue j s' ev, cache')"
  shows "\<exists>cs. (cs = [] \<or> (\<exists>d v. cs = [Callback j d v])) \<and>
      (ev = cs \<or> (\<exists>b. badfn = Some b \<and> ev = cs @ [BadArg j (argv ! j)]))"
  using loop_body_summary [OF assms] by (elim exE conjE) (auto; blast)


lemma partial_loop_return:
  fixes call :: "('f, 'u, 'c, 's) handler_call"
  assumes "flags AND MINIARG_PROCESS_FLAG_FIND_ONLY = 0"
    and "partial_loop call flags argv argdef badfn cbd i cache s = (r, s', tr)"
  shows "r = 0 \<and> (\<forall>t. Stderr t \<notin> set tr) \<or>
     int i \<le> r \<and> r < int (length argv) \<and> tr \<noteq> [] \<and>
     (\<forall>e\<in>set tr. \<forall>c. call_cursor e = Some c \<longrightarrow> c \<le> nat r) \<and>
     last tr = (case badfn of
                  None \<Rightarrow> Stderr (''Invalid command line argument: '' @ argv ! nat r @ [CHR 0x0A])
                | Some b \<Rightarrow> BadArg (nat r) (argv ! nat r))"
proof -
  let ?Q = "\<lambda>(i :: nat) r (tr :: ('f, 'u) event list).
     r = 0 \<and> (\<forall>t. Stderr t \<notin> set tr) \<or>
     int i \<le> r \<and> r < int (length argv) \<and> tr \<noteq> [] \<and>
     (\<forall>e\<in>set tr. \<forall>c. call_cursor e = Some c \<longrightarrow> c \<le> nat r) \<and>
     last tr = (case badfn of
                  None \<Rightarrow> Stderr (''Invalid command line argument: '' @ argv ! nat r @ [CHR 0x0A])
                | Some b \<Rightarrow> BadArg (nat r) (argv ! nat r))"
  let ?P = "\<lambda>(i :: nat) (cache :: ('f, 'u) standalone_cache) (s :: 's)
       (res :: int \<times> 's \<times> ('f, 'u) event list). ?Q i (fst res) (snd (snd res))"
  have "?P i cache s (partial_loop call flags argv argdef badfn cbd i cache s)"
  proof (rule partial_loop_induct [where P = ?P], goal_cases)
    case (1 i cache s)
    then show ?case by simp
  next
    case (2 i cache s r s' ev cache')
    from loop_body_abort [OF 2 assms(1)] obtain j cs where
      j: "j = i \<or> j = Suc i" "j < length argv" "r = int j"
      and cs: "cs = [] \<or> (\<exists>d v. cs = [Callback j d v])"
      and ev: "(\<exists>b. badfn = Some b \<and> ev = cs @ [BadArg j (argv ! j)]) \<or>
       (badfn = None \<and>
        ev = cs @ [Stderr (''Invalid command line argument: '' @ argv ! j @ [CHR 0x0A])])"
      by blast
    from j have nr: "nat r = j" and lo: "int i \<le> r" and hi: "r < int (length argv)" by auto
    from cs ev nr lo hi have "int i \<le> r \<and> r < int (length argv) \<and> ev \<noteq> [] \<and>
       (\<forall>e\<in>set ev. \<forall>c. call_cursor e = Some c \<longrightarrow> c \<le> nat r) \<and>
       last ev = (case badfn of
                  None \<Rightarrow> Stderr (''Invalid command line argument: '' @ argv ! nat r @ [CHR 0x0A])
                | Some b \<Rightarrow> BadArg (nat r) (argv ! nat r))"
      by auto
    then show ?case unfolding fst_conv snd_conv by (rule disjI2)
  next
    case (3 i cache s j s' ev cache' r s'' ev')
    from loop_body_continue [OF 3(1,2)] obtain cs where
      cs: "cs = [] \<or> (\<exists>d v. cs = [Callback j d v])"
      and ev: "ev = cs \<or> (\<exists>b. badfn = Some b \<and> ev = cs @ [BadArg j (argv ! j)])"
      by blast
    from cs ev have noerr: "\<forall>t. Stderr t \<notin> set ev"
      and cur: "\<forall>e\<in>set ev. \<forall>c. call_cursor e = Some c \<longrightarrow> c = j"
      by auto
    from 3(6) have IH: "?Q (Suc j) r ev'" unfolding fst_conv snd_conv .
    then show ?case
    proof
      assume "r = 0 \<and> (\<forall>t. Stderr t \<notin> set ev')"
      with noerr have "r = 0 \<and> (\<forall>t. Stderr t \<notin> set (ev @ ev'))" by simp
      then show ?thesis unfolding fst_conv snd_conv by (rule disjI1)
    next
      assume a: "int (Suc j) \<le> r \<and> r < int (length argv) \<and> ev' \<noteq> [] \<and>
       (\<forall>e\<in>set ev'. \<forall>c. call_cursor e = Some c \<longrightarrow> c \<le> nat r) \<and>
       last ev' = (case badfn of
                  None \<Rightarrow> Stderr (''Invalid command line argument: '' @ argv ! nat r @ [CHR 0x0A])
                | Some b \<Rightarrow> BadArg (nat r) (argv ! nat r))"
      with 3(3) have "int i \<le> r" "j \<le> nat r" by linarith+
      with a cur have "int i \<le> r \<and> r < int (length argv) \<and> ev @ ev' \<noteq> [] \<and>
       (\<forall>e\<in>set (ev @ ev'). \<forall>c. call_cursor e = Some c \<longrightarrow> c \<le> nat r) \<and>
       last (ev @ ev') = (case badfn of
                  None \<Rightarrow> Stderr (''Invalid command line argument: '' @ argv ! nat r @ [CHR 0x0A])
                | Some b \<Rightarrow> BadArg (nat r) (argv ! nat r))"
        by auto
      then show ?thesis unfolding fst_conv snd_conv by (rule disjI2)
    qed
  qed
  from this [unfolded assms(2) fst_conv snd_conv] show ?thesis .
qed

lemma partial_loop_unmatched:
  assumes "i < length argv"
    and "resolve_arg call flags argv argdef cbd i cache s = (Resolved False j s1 ev, cache')"
    and "flags AND MINIARG_PROCESS_FLAG_FIND_ONLY = 0"
  shows "partial_loop call flags argv argdef badfn cbd i cache s =
     (case badfn of
        None \<Rightarrow>
          (int j, s1, ev @ [Stderr (''Invalid command line argument: '' @ argv ! j @ [CHR 0x0A])])
      | Some b \<Rightarrow>
          if fst (call b None (Some (argv ! j)) cbd s1) = 0 then
            (case partial_loop call flags argv argdef badfn cbd (Suc j) cache'
                    (snd (call b None (Some (argv ! j)) cbd s1)) of
               (r, s', tr) \<Rightarrow> (r, s', ev @ BadArg j (argv ! j) # tr))
          else (int j, snd (call b None (Some (argv ! j)) cbd s1),
                ev @ [BadArg j (argv ! j)]))"
  using assms
  by (subst partial_loop.simps)
     (simp add: loop_body_def bad_arg_def case_prod_beta split: option.splits)


lemma process_partial_returns:
  assumes "flags AND MINIARG_PROCESS_FLAG_FIND_ONLY = 0" and "argv \<noteq> []"
  shows "miniargv_process_partial call flags argv argdef badfn cbd s =
     Some (partial_loop call flags argv argdef badfn cbd 1
       \<lparr>standalonevaluedefset = False, standalonevaluedef = None\<rparr> s)"
  using assms by (cases argv) (simp_all add: miniargv_process_partial_def start_index_def)

lemma process_partial_return:
  assumes "flags AND MINIARG_PROCESS_FLAG_FIND_ONLY = 0"
    and "miniargv_process_partial call flags argv argdef badfn cbd s = Some (r, s', tr)"
  shows "r = 0 \<and> (\<forall>t. Stderr t \<notin> set tr) \<or>
     1 \<le> r \<and> r < int (length argv) \<and> tr \<noteq> [] \<and>
     (\<forall>e\<in>set tr. \<forall>c. call_cursor e = Some c \<longrightarrow> c \<le> nat r) \<and>
     last tr = (case badfn of
                  None \<Rightarrow> Stderr (''Invalid command line argument: '' @ argv ! nat r @ [CHR 0x0A])
                | Some b \<Rightarrow> BadArg (nat r) (argv ! nat r))"
proof -
  from assms(2) obtain k where k: "flags AND MINIARG_PROCESS_FLAG_FIND_ONLY = 0 \<longrightarrow> k = 1"
    and run: "(r, s', tr) = partial_loop call flags argv argdef badfn cbd k
       \<lparr>standalonevaluedefset = False, standalonevaluedef = None\<rparr> s"
    by (rule process_partial_loop)
  from k assms(1) have "k = 1" by simp
  with partial_loop_return [OF assms(1) run [symmetric]] show ?thesis by simp
qed

lemma loop_body_accepting:
  assumes nul: "CHR 0x00 \<notin> set (argv ! i)"
    and acc: "\<forall>f d v st. fst (call f (Some d) v cbd st) = 0"
    and nf: "flags AND MINIARG_PROCESS_FLAG_FIND_ONLY = 0"
    and inv: "cache_inv argdef cache"
    and body: "loop_body call flags argv argdef badfn cbd i cache s = (it, cache')"
  shows "cache_inv argdef cache' \<and>
     (case match_token argdef argv i of
        No_match \<Rightarrow>
          (badfn = None \<and>
           it = Abort (int i) s [Stderr (''Invalid command line argument: '' @ argv ! i @ [CHR 0x0A])]) \<or>
          (\<exists>b. badfn = Some b \<and>
             (if fst (call b None (Some (argv ! i)) cbd s) = 0
              then it = Continue i (snd (call b None (Some (argv ! i)) cbd s)) [BadArg i (argv ! i)]
              else it = Abort (int i) (snd (call b None (Some (argv ! i)) cbd s))
                     [BadArg i (argv ! i)]))
      | Flag_match d v j \<Rightarrow>
          (\<exists>s1 ev. it = Continue j s1 ev \<and> (\<forall>e\<in>set ev. \<exists>c d v. e = Callback c d v))
      | Value_match d \<Rightarrow>
          (\<exists>s1 ev. it = Continue i s1 ev \<and> (\<forall>e\<in>set ev. \<exists>c d v. e = Callback c d v)))"
proof -
  from body have c: "cache' = (if standalone_token (argv ! i) then standalone_lookup argdef cache else cache)"
    and it: "it = bad_arg call flags argv badfn cbd
      (case match_token argdef argv i of
        No_match \<Rightarrow> Resolved False i s []
      | Flag_match d v j \<Rightarrow>
          invoke call (flags AND MINIARG_PROCESS_FLAG_FLAGS = 0) (the (callbackfn d)) d v cbd j s
      | Value_match d \<Rightarrow>
          if flags AND MINIARG_PROCESS_FLAG_VALUES = 0 then Resolved True i s []
          else if flags AND MINIARG_PROCESS_FLAG_FIND_ONLY \<noteq> 0 then Found i s
          else invoke call False (the (callbackfn d)) d (Some (argv ! i)) cbd i s)"
    unfolding loop_body_def resolve_arg_match [OF nul inv] by auto
  from c inv have "cache_inv argdef cache'" by (simp add: standalone_lookup_inv)
  moreover have "case match_token argdef argv i of
        No_match \<Rightarrow>
          (badfn = None \<and>
           it = Abort (int i) s [Stderr (''Invalid command line argument: '' @ argv ! i @ [CHR 0x0A])]) \<or>
          (\<exists>b. badfn = Some b \<and>
             (if fst (call b None (Some (argv ! i)) cbd s) = 0
              then it = Continue i (snd (call b None (Some (argv ! i)) cbd s)) [BadArg i (argv ! i)]
              else it = Abort (int i) (snd (call b None (Some (argv ! i)) cbd s))
                     [BadArg i (argv ! i)]))
      | Flag_match d v j \<Rightarrow>
          (\<exists>s1 ev. it = Continue j s1 ev \<and> (\<forall>e\<in>set ev. \<exists>c d v. e = Callback c d v))
      | Value_match d \<Rightarrow>
          (\<exists>s1 ev. it = Continue i s1 ev \<and> (\<forall>e\<in>set ev. \<exists>c d v. e = Callback c d v))"
  proof (cases "match_token argdef argv i")
    case No_match
    with it nf show ?thesis
      by (cases badfn) (simp_all add: bad_arg_def case_prod_beta)
  next
    case (Flag_match d v j)
    with it acc show ?thesis
      by (simp add: bad_arg_def invoke_def case_prod_beta)
  next
    case (Value_match d)
    with it acc nf show ?thesis
      by (simp add: bad_arg_def invoke_def case_prod_beta)
  qed
  ultimately show ?thesis ..
qed

lemma partial_loop_accepting:
  fixes call :: "('f, 'u, 'c, 's) handler_call"
  assumes nul: "\<forall>t\<in>set argv. CHR 0x00 \<notin> set t"
    and acc: "\<forall>f d v st. fst (call f (Some d) v cbd st) = 0"
    and nf: "flags AND MINIARG_PROCESS_FLAG_FIND_ONLY = 0"
    and inv: "cache_inv argdef cache"
    and run: "partial_loop call flags argv argdef badfn cbd i cache s = (r, s', tr)"
  shows "case first_unmatched argdef argv i of
       None \<Rightarrow> r = 0 \<and> (\<forall>e\<in>set tr. \<exists>c d v. e = Callback c d v)
     | Some j \<Rightarrow>
         (badfn = None \<longrightarrow> r = int j) \<and>
         (\<forall>b. badfn = Some b \<longrightarrow>
            BadArg j (argv ! j) \<in> set tr \<and>
            ((\<forall>st. fst (call b None (Some (argv ! j)) cbd st) \<noteq> 0) \<longrightarrow> r = int j))"
proof -
  let ?Q = "\<lambda>(i :: nat) r (tr :: ('f, 'u) event list).
     case first_unmatched argdef argv i of
       None \<Rightarrow> r = 0 \<and> (\<forall>e\<in>set tr. \<exists>c d v. e = Callback c d v)
     | Some j \<Rightarrow>
         (badfn = None \<longrightarrow> r = int j) \<and>
         (\<forall>b. badfn = Some b \<longrightarrow>
            BadArg j (argv ! j) \<in> set tr \<and>
            ((\<forall>st. fst (call b None (Some (argv ! j)) cbd st) \<noteq> 0) \<longrightarrow> r = int j))"
  let ?P = "\<lambda>(i :: nat) (cache :: ('f, 'u) standalone_cache) (s :: 's)
       (res :: int \<times> 's \<times> ('f, 'u) event list).
     cache_inv argdef cache \<longrightarrow> ?Q i (fst res) (snd (snd res))"
  have "?P i cache s (partial_loop call flags argv argdef badfn cbd i cache s)"
  proof (rule partial_loop_induct [where P = ?P], goal_cases)
    case (1 i cache s)
    then have "first_unmatched argdef argv i = None"
      by (subst first_unmatched.simps) simp
    then show ?case by simp
  next
    case (2 i cache s r s' ev cache')
    from 2(1) nul have nz: "CHR 0x00 \<notin> set (argv ! i)" by simp
    have "?Q i r ev" if inv: "cache_inv argdef cache"
    proof -
      note b = loop_body_accepting [OF nz acc nf inv 2(2)]
      show ?thesis
      proof (cases "match_token argdef argv i")
        case No_match
        with 2(1) have fu: "first_unmatched argdef argv i = Some i"
          by (subst first_unmatched.simps) simp
        from b No_match show ?thesis unfolding fu by (auto split: if_splits)
      next
        case (Flag_match d v j)
        with b show ?thesis by simp
      next
        case (Value_match d)
        with b show ?thesis by simp
      qed
    qed
    then show ?case unfolding fst_conv snd_conv by blast
  next
    case (3 i cache s j s' ev cache' r s'' ev')
    from 3(1) nul have nz: "CHR 0x00 \<notin> set (argv ! i)" by simp
    have "?Q i r (ev @ ev')" if inv: "cache_inv argdef cache"
    proof -
      note b = loop_body_accepting [OF nz acc nf inv 3(2)]
      then have inv': "cache_inv argdef cache'" by blast
      from 3(6) inv' have IH: "?Q (Suc j) r ev'" unfolding fst_conv snd_conv by blast
      show ?thesis
      proof (cases "match_token argdef argv i")
        case No_match
        with 3(1) have fu: "first_unmatched argdef argv i = Some i"
          by (subst first_unmatched.simps) simp
        from b No_match show ?thesis unfolding fu by (auto split: if_splits)
      next
        case (Flag_match d v k)
        with b have k: "k = j" and cb: "\<forall>e\<in>set ev. \<exists>c d v. e = Callback c d v" by auto
        from Flag_match k 3(1) have fu: "first_unmatched argdef argv i = first_unmatched argdef argv (Suc j)"
          by (subst first_unmatched.simps) simp
        from IH cb show ?thesis unfolding fu by (auto split: option.splits)
      next
        case (Value_match d)
        with b have k: "j = i" and cb: "\<forall>e\<in>set ev. \<exists>c d v. e = Callback c d v" by auto
        from Value_match k 3(1) have fu: "first_unmatched argdef argv i = first_unmatched argdef argv (Suc j)"
          by (subst first_unmatched.simps) simp
        from IH cb show ?thesis unfolding fu by (auto split: option.splits)
      qed
    qed
    then show ?case unfolding fst_conv snd_conv by blast
  qed
  from this [unfolded run fst_conv snd_conv] inv show ?thesis by blast
qed

lemma loop_body_refusal:
  assumes body: "loop_body call flags argv argdef badfn cbd i cache s = (it, cache')"
    and nf: "flags AND MINIARG_PROCESS_FLAG_FIND_ONLY = 0"
    and f: "callbackfn d = Some f"
    and ref: "\<forall>st. fst (call f (Some d) v cbd st) \<noteq> 0"
  shows "(\<forall>s2 ev. it = Abort r s2 ev \<longrightarrow> Callback c d v \<in> set ev \<longrightarrow>
            r = int c \<and> (badfn \<noteq> None \<longrightarrow> BadArg c (argv ! c) \<in> set ev)) \<and>
         (\<forall>j s2 ev. it = Continue j s2 ev \<longrightarrow> Callback c d v \<in> set ev \<longrightarrow>
            (\<exists>b st. badfn = Some b \<and> BadArg c (argv ! c) \<in> set ev \<and>
               fst (call b None (Some (argv ! c)) cbd st) = 0))"
proof -
  obtain res where res: "resolve_arg call flags argv argdef cbd i cache s = (res, cache')"
    and it: "bad_arg call flags argv badfn cbd res = it"
    using body by (auto simp: loop_body_def split: prod.splits)
  from res show ?thesis
  proof (cases rule: resolve_arg_cases)
    case unmatched
    with it show ?thesis
      by (cases rule: bad_arg_cases) (auto split: if_splits)
  next
    case (found d)
    with it show ?thesis
      by (cases rule: bad_arg_cases) (auto split: if_splits)
  next
    case (silent j)
    with it show ?thesis
      by (cases rule: bad_arg_cases) (auto split: if_splits)
  next
    case (flag d' f' v' j)
    from it show ?thesis
    proof (cases rule: bad_arg_cases)
      case (found i s)
      with flag show ?thesis by simp
    next
      case (success j s1 ev)
      with flag f ref show ?thesis by auto
    next
      case (accepted j s1 ev b)
      with flag f ref nf show ?thesis by auto
    next
      case (refused j s1 ev b)
      with flag f ref nf show ?thesis by auto
    next
      case (invalid j s1 ev)
      with flag f ref nf show ?thesis by auto
    qed
  next
    case (standalone d' f')
    from it show ?thesis
    proof (cases rule: bad_arg_cases)
      case (found i s)
      with standalone show ?thesis by simp
    next
      case (success j s1 ev)
      with standalone f ref show ?thesis by auto
    next
      case (accepted j s1 ev b)
      with standalone f ref nf show ?thesis by auto
    next
      case (refused j s1 ev b)
      with standalone f ref nf show ?thesis by auto
    next
      case (invalid j s1 ev)
      with standalone f ref nf show ?thesis by auto
    qed
  qed
qed

lemma partial_loop_refusal:
  fixes call :: "('f, 'u, 'c, 's) handler_call"
  assumes nf: "flags AND MINIARG_PROCESS_FLAG_FIND_ONLY = 0"
    and run: "partial_loop call flags argv argdef badfn cbd i cache s = (r, s', tr)"
    and ev: "Callback c d v \<in> set tr" and f: "callbackfn d = Some f"
    and ref: "\<forall>st. fst (call f (Some d) v cbd st) \<noteq> 0"
  shows "(badfn = None \<longrightarrow> r = int c) \<and>
     (\<forall>b. badfn = Some b \<longrightarrow>
        BadArg c (argv ! c) \<in> set tr \<and>
        ((\<forall>st. fst (call b None (Some (argv ! c)) cbd st) \<noteq> 0) \<longrightarrow> r = int c))"
proof -
  let ?Q = "\<lambda>r (tr :: ('f, 'u) event list).
     Callback c d v \<in> set tr \<longrightarrow>
     (badfn = None \<longrightarrow> r = int c) \<and>
     (\<forall>b. badfn = Some b \<longrightarrow>
        BadArg c (argv ! c) \<in> set tr \<and>
        ((\<forall>st. fst (call b None (Some (argv ! c)) cbd st) \<noteq> 0) \<longrightarrow> r = int c))"
  let ?P = "\<lambda>(i :: nat) (cache :: ('f, 'u) standalone_cache) (s :: 's)
       (res :: int \<times> 's \<times> ('f, 'u) event list). ?Q (fst res) (snd (snd res))"
  have "?P i cache s (partial_loop call flags argv argdef badfn cbd i cache s)"
  proof (rule partial_loop_induct [where P = ?P], goal_cases)
    case (1 i cache s)
    then show ?case by simp
  next
    case (2 i cache s r s' ev cache')
    from loop_body_refusal [OF 2(2) nf f ref, of r c] have "?Q r ev" by auto
    then show ?case unfolding fst_conv snd_conv .
  next
    case (3 i cache s j s' ev cache' r s'' ev')
    from 3(6) have IH: "?Q r ev'" unfolding fst_conv snd_conv .
    have "?Q r (ev @ ev')"
    proof (intro impI)
      assume "Callback c d v \<in> set (ev @ ev')"
      then consider "Callback c d v \<in> set ev" | "Callback c d v \<in> set ev'" by auto
      then show "(badfn = None \<longrightarrow> r = int c) \<and>
        (\<forall>b. badfn = Some b \<longrightarrow>
          BadArg c (argv ! c) \<in> set (ev @ ev') \<and>
          ((\<forall>st. fst (call b None (Some (argv ! c)) cbd st) \<noteq> 0) \<longrightarrow> r = int c))"
      proof cases
        case 1
        with loop_body_refusal [OF 3(2) nf f ref, of 0 c]
        obtain b st where "badfn = Some b" "BadArg c (argv ! c) \<in> set ev"
          "fst (call b None (Some (argv ! c)) cbd st) = 0" by blast
        then show ?thesis by auto
      next
        case 2
        with IH show ?thesis by auto
      qed
    qed
    then show ?case unfolding fst_conv snd_conv .
  qed
  from this [unfolded run fst_conv snd_conv] ev show ?thesis by blast
qed

lemma loop_body_abort_handler:
  assumes "i < length argv"
    and "loop_body call flags argv argdef badfn cbd i cache s = (Abort r s' ev, cache')"
    and "flags AND MINIARG_PROCESS_FLAG_FIND_ONLY = 0"
  shows "badfn = None \<or>
     (\<exists>b st. badfn = Some b \<and> 0 \<le> r \<and> fst (call b None (Some (argv ! nat r)) cbd st) \<noteq> 0)"
proof -
  obtain res where res: "resolve_arg call flags argv argdef cbd i cache s = (res, cache')"
    and it: "bad_arg call flags argv badfn cbd res = Abort r s' ev"
    using assms(2) by (auto simp: loop_body_def split: prod.splits)
  from res have nfound: "res \<noteq> Found k st" for k st
    by (cases rule: resolve_arg_cases) (use assms(3) in auto)
  from it show ?thesis
  proof (cases rule: bad_arg_cases)
    case (found k st)
    with nfound [of k st] show ?thesis by simp
  next
    case (success j s1 ev)
    then show ?thesis by simp
  next
    case (accepted j s1 ev b)
    then show ?thesis by simp
  next
    case (refused j s1 ev1 b)
    with assms(3) have "r = int j" by simp
    with refused show ?thesis by auto
  next
    case (invalid j s1 ev)
    then show ?thesis by simp
  qed
qed

lemma partial_loop_handler:
  fixes call :: "('f, 'u, 'c, 's) handler_call"
  assumes nf: "flags AND MINIARG_PROCESS_FLAG_FIND_ONLY = 0"
    and run: "partial_loop call flags argv argdef badfn cbd i cache s = (r, s', tr)"
    and b: "badfn = Some b"
  shows "(r \<noteq> 0 \<longrightarrow> (\<exists>st. fst (call b None (Some (argv ! nat r)) cbd st) \<noteq> 0)) \<and>
     ((\<forall>v st. fst (call b None v cbd st) = 0) \<longrightarrow> r = 0)"
proof -
  let ?Q = "\<lambda>r. r = 0 \<or> (\<exists>st. fst (call b None (Some (argv ! nat r)) cbd st) \<noteq> 0)"
  let ?P = "\<lambda>(i :: nat) (cache :: ('f, 'u) standalone_cache) (s :: 's)
       (res :: int \<times> 's \<times> ('f, 'u) event list). ?Q (fst res)"
  have "?P i cache s (partial_loop call flags argv argdef badfn cbd i cache s)"
  proof (rule partial_loop_induct [where P = ?P], goal_cases)
    case (1 i cache s)
    then show ?case by simp
  next
    case (2 i cache s r s' ev cache')
    from loop_body_abort_handler [OF 2 nf] b show ?case by auto
  next
    case (3 i cache s j s' ev cache' r s'' ev')
    then show ?case by simp
  qed
  from this [unfolded run fst_conv] show ?thesis by blast
qed

lemma traversal_loop:
  assumes "miniargv_process_arg call argv argdef badfn callbackdata s = Some (r, s', tr) \<or>
    miniargv_process_arg_flags call argv argdef badfn callbackdata s = Some (r, s', tr) \<or>
    miniargv_process_arg_params call argv argdef badfn callbackdata s = Some (r, s', tr)"
  obtains flags where "flags AND MINIARG_PROCESS_FLAG_FIND_ONLY = 0"
    and "partial_loop call flags argv argdef badfn (UserData callbackdata) 1
       \<lparr>standalonevaluedefset = False, standalonevaluedef = None\<rparr> s = (r, s', tr)"
proof -
  have "MINIARG_PROCESS_FLAG_BOTH AND MINIARG_PROCESS_FLAG_FIND_ONLY = 0"
    "MINIARG_PROCESS_FLAG_FLAGS AND MINIARG_PROCESS_FLAG_FIND_ONLY = 0"
    "MINIARG_PROCESS_FLAG_VALUES AND MINIARG_PROCESS_FLAG_FIND_ONLY = 0"
    by (simp_all add: flag_defs)
  with assms obtain flags where nf: "flags AND MINIARG_PROCESS_FLAG_FIND_ONLY = 0"
    and p: "miniargv_process_partial call flags argv argdef badfn (UserData callbackdata) s =
       Some (r, s', tr)"
    unfolding miniargv_process_arg_def miniargv_process_arg_flags_def
      miniargv_process_arg_params_def
    by (elim disjE) blast+
  from p obtain k where k: "flags AND MINIARG_PROCESS_FLAG_FIND_ONLY = 0 \<longrightarrow> k = 1"
    and run: "(r, s', tr) = partial_loop call flags argv argdef badfn (UserData callbackdata) k
       \<lparr>standalonevaluedefset = False, standalonevaluedef = None\<rparr> s"
    by (rule process_partial_loop)
  from k nf have "k = 1" by simp
  with run nf that show ?thesis by simp
qed

text \<open>
  Claim C6.  The traversals \<open>miniargv_process_arg\<close>, \<open>miniargv_process_arg_flags\<close> and
  \<open>miniargv_process_arg_params\<close> return whenever \<open>argv\<close> holds at least the program's name,
  and what they return is the result of the loop started at cursor 1.  They return 0 when
  the end of \<open>argv\<close> is reached, and then nothing was printed on stderr.  Otherwise they
  return the cursor, an index from 1 up to the last token: no call was made at a later
  cursor, and the last thing done is the handler's call with the token at that index (a
  handler is given) or the diagnostic that names this token (no handler is given).  On the
  example table, after any program name, \<open>-x\<close> without a handler returns 1, calls nothing
  and prints the diagnostic.  A token that is not resolved (success is 0 at line 111) goes
  to the handler when there is one; the loop goes on after it when the handler returns 0,
  and returns the cursor when the handler returns non-zero or is absent.

  Which token makes a traversal fail (the tokens are C strings: no NUL inside).  When no
  callback of a definition refuses, a traversal returns 0 if every token it comes to has a
  match result, and after calls of callbacks only; otherwise it comes to the first token
  without a match result (\<open>first_unmatched\<close>): it returns the index of that token when
  there is no handler; when there is a handler, the handler is called with that token, and
  the index is returned if the handler refuses the token.  When the callback of a
  definition is called at a cursor (for a flag whose value is the following token, the
  cursor is on that token) and refuses whatever the state is, the traversal returns that
  cursor when there is no handler; when there is a handler, the handler is called with the
  token at that cursor, and the cursor is returned if the handler refuses the token.  With
  a handler, a traversal that returns an index has had the token at that index refused by
  the handler, and a traversal whose handler accepts everything returns 0.
\<close>

theorem return_contract:
  "(argv \<noteq> [] \<longrightarrow>
      miniargv_process_arg call argv argdef badfn callbackdata s \<noteq> None \<and>
      miniargv_process_arg_flags call argv argdef badfn callbackdata s \<noteq> None \<and>
      miniargv_process_arg_params call argv argdef badfn callbackdata s \<noteq> None) \<and>
   (miniargv_process_arg call argv argdef badfn callbackdata s = Some (r, s', tr) \<or>
    miniargv_process_arg_flags call argv argdef badfn callbackdata s = Some (r, s', tr) \<or>
    miniargv_process_arg_params call argv argdef badfn callbackdata s = Some (r, s', tr) \<longrightarrow>
      r = 0 \<and> (\<forall>t. Stderr t \<notin> set tr) \<or>
      1 \<le> r \<and> r < int (length argv) \<and> tr \<noteq> [] \<and>
      (\<forall>e\<in>set tr. \<forall>c. call_cursor e = Some c \<longrightarrow> c \<le> nat r) \<and>
      last tr = (case badfn of
                   None \<Rightarrow> Stderr (''Invalid command line argument: '' @ argv ! nat r @ [CHR 0x0A])
                 | Some b \<Rightarrow> BadArg (nat r) (argv ! nat r))) \<and>
   miniargv_process_arg ecall [prog, ''-x''] example_argdef None edata est =
     Some (1, est, [Stderr (''Invalid command line argument: -x'' @ [CHR 0x0A])]) \<and>
   (i < length argv \<and> flags AND MINIARG_PROCESS_FLAG_FIND_ONLY = 0 \<and>
    resolve_arg call flags argv argdef cbd i cache s = (Resolved False j st ev, cache') \<longrightarrow>
      partial_loop call flags argv argdef badfn cbd i cache s =
        (case badfn of
           None \<Rightarrow>
             (int j, st,
              ev @ [Stderr (''Invalid command line argument: '' @ argv ! j @ [CHR 0x0A])])
         | Some b \<Rightarrow>
             if fst (call b None (Some (argv ! j)) cbd st) = 0 then
               (case partial_loop call flags argv argdef badfn cbd (Suc j) cache'
                       (snd (call b None (Some (argv ! j)) cbd st)) of
                  (r, s', tr) \<Rightarrow> (r, s', ev @ BadArg j (argv ! j) # tr))
             else (int j, snd (call b None (Some (argv ! j)) cbd st),
                   ev @ [BadArg j (argv ! j)]))) \<and>
   (argv \<noteq> [] \<longrightarrow>
      miniargv_process_arg call argv argdef badfn callbackdata s =
        Some (partial_loop call MINIARG_PROCESS_FLAG_BOTH argv argdef badfn (UserData callbackdata) 1
          \<lparr>standalonevaluedefset = False, standalonevaluedef = None\<rparr> s) \<and>
      miniargv_process_arg_flags call argv argdef badfn callbackdata s =
        Some (partial_loop call MINIARG_PROCESS_FLAG_FLAGS argv argdef badfn (UserData callbackdata) 1
          \<lparr>standalonevaluedefset = False, standalonevaluedef = None\<rparr> s) \<and>
      miniargv_process_arg_params call argv argdef badfn callbackdata s =
        Some (partial_loop call MINIARG_PROCESS_FLAG_VALUES argv argdef badfn (UserData callbackdata) 1
          \<lparr>standalonevaluedefset = False, standalonevaluedef = None\<rparr> s)) \<and>
   ((\<forall>t\<in>set argv. CHR 0x00 \<notin> set t) \<and>
    (\<forall>g e w x. fst (call g (Some e) w (UserData callbackdata) x) = 0) \<and>
    (miniargv_process_arg call argv argdef badfn callbackdata s = Some (r, s', tr) \<or>
     miniargv_process_arg_flags call argv argdef badfn callbackdata s = Some (r, s', tr) \<or>
     miniargv_process_arg_params call argv argdef badfn callbackdata s = Some (r, s', tr)) \<longrightarrow>
      (case first_unmatched argdef argv 1 of
         None \<Rightarrow> r = 0 \<and> (\<forall>e\<in>set tr. \<exists>c d v. e = Callback c d v)
       | Some k \<Rightarrow>
           (badfn = None \<longrightarrow> r = int k) \<and>
           (\<forall>b. badfn = Some b \<longrightarrow>
              BadArg k (argv ! k) \<in> set tr \<and>
              ((\<forall>x. fst (call b None (Some (argv ! k)) (UserData callbackdata) x) \<noteq> 0) \<longrightarrow>
                 r = int k)))) \<and>
   ((miniargv_process_arg call argv argdef badfn callbackdata s = Some (r, s', tr) \<or>
     miniargv_process_arg_flags call argv argdef badfn callbackdata s = Some (r, s', tr) \<or>
     miniargv_process_arg_params call argv argdef badfn callbackdata s = Some (r, s', tr)) \<and>
    Callback c d v \<in> set tr \<and> callbackfn d = Some f \<and>
    (\<forall>x. fst (call f (Some d) v (UserData callbackdata) x) \<noteq> 0) \<longrightarrow>
      (badfn = None \<longrightarrow> r = int c) \<and>
      (\<forall>b. badfn = Some b \<longrightarrow>
         BadArg c (argv ! c) \<in> set tr \<and>
         ((\<forall>x. fst (call b None (Some (argv ! c)) (UserData callbackdata) x) \<noteq> 0) \<longrightarrow>
            r = int c))) \<and>
   ((miniargv_process_arg call argv argdef badfn callbackdata s = Some (r, s', tr) \<or>
     miniargv_process_arg_flags call argv argdef badfn callbackdata s = Some (r, s', tr) \<or>
     miniargv_process_arg_params call argv argdef badfn callbackdata s = Some (r, s', tr)) \<and>
    badfn = Some h \<longrightarrow>
      (r \<noteq> 0 \<longrightarrow> (\<exists>x. fst (call h None (Some (argv ! nat r)) (UserData callbackdata) x) \<noteq> 0)) \<and>
      ((\<forall>w x. fst (call h None w (UserData callbackdata) x) = 0) \<longrightarrow> r = 0))"
proof (intro conjI impI)
  assume "argv \<noteq> []"
  then show "miniargv_process_arg call argv argdef badfn callbackdata s \<noteq> None"
    and "miniargv_process_arg_flags call argv argdef badfn callbackdata s \<noteq> None"
    and "miniargv_process_arg_params call argv argdef badfn callbackdata s \<noteq> None"
    by (simp_all add: miniargv_process_arg_def miniargv_process_arg_flags_def
        miniargv_process_arg_params_def process_partial_returns flag_defs)
next
  assume "miniargv_process_arg call argv argdef badfn callbackdata s = Some (r, s', tr) \<or>
    miniargv_process_arg_flags call argv argdef badfn callbackdata s = Some (r, s', tr) \<or>
    miniargv_process_arg_params call argv argdef badfn callbackdata s = Some (r, s', tr)"
  moreover have "MINIARG_PROCESS_FLAG_BOTH AND MINIARG_PROCESS_FLAG_FIND_ONLY = 0"
    "MINIARG_PROCESS_FLAG_FLAGS AND MINIARG_PROCESS_FLAG_FIND_ONLY = 0"
    "MINIARG_PROCESS_FLAG_VALUES AND MINIARG_PROCESS_FLAG_FIND_ONLY = 0"
    by (simp_all add: flag_defs)
  ultimately obtain flags where "flags AND MINIARG_PROCESS_FLAG_FIND_ONLY = 0"
    "miniargv_process_partial call flags argv argdef badfn (UserData callbackdata) s =
       Some (r, s', tr)"
    unfolding miniargv_process_arg_def miniargv_process_arg_flags_def
      miniargv_process_arg_params_def
    by (elim disjE) blast+
  then show "r = 0 \<and> (\<forall>t. Stderr t \<notin> set tr) \<or>
      1 \<le> r \<and> r < int (length argv) \<and> tr \<noteq> [] \<and>
      (\<forall>e\<in>set tr. \<forall>c. call_cursor e = Some c \<longrightarrow> c \<le> nat r) \<and>
      last tr = (case badfn of
                   None \<Rightarrow> Stderr (''Invalid command line argument: '' @ argv ! nat r @ [CHR 0x0A])
                 | Some b \<Rightarrow> BadArg (nat r) (argv ! nat r))"
    by (rule process_partial_return)
next
  show "miniargv_process_arg ecall [prog, ''-x''] example_argdef None edata est =
     Some (1, est, [Stderr (''Invalid command line argument: -x'' @ [CHR 0x0A])])"
    by (simp add: miniargv_process_arg_def engine_defs flag_defs partial_loop.simps example_defs)
next
  assume "i < length argv \<and> flags AND MINIARG_PROCESS_FLAG_FIND_ONLY = 0 \<and>
    resolve_arg call flags argv argdef cbd i cache s = (Resolved False j st ev, cache')"
  then show "partial_loop call flags argv argdef badfn cbd i cache s =
        (case badfn of
           None \<Rightarrow>
             (int j, st,
              ev @ [Stderr (''Invalid command line argument: '' @ argv ! j @ [CHR 0x0A])])
         | Some b \<Rightarrow>
             if fst (call b None (Some (argv ! j)) cbd st) = 0 then
               (case partial_loop call flags argv argdef badfn cbd (Suc j) cache'
                       (snd (call b None (Some (argv ! j)) cbd st)) of
                  (r, s', tr) \<Rightarrow> (r, s', ev @ BadArg j (argv ! j) # tr))
             else (int j, snd (call b None (Some (argv ! j)) cbd st),
                   ev @ [BadArg j (argv ! j)]))"
    using partial_loop_unmatched [of i argv call flags argdef cbd cache s j st ev cache' badfn]
    by blast
next
  assume "argv \<noteq> []"
  then show "miniargv_process_arg call argv argdef badfn callbackdata s =
        Some (partial_loop call MINIARG_PROCESS_FLAG_BOTH argv argdef badfn (UserData callbackdata) 1
          \<lparr>standalonevaluedefset = False, standalonevaluedef = None\<rparr> s)"
    and "miniargv_process_arg_flags call argv argdef badfn callbackdata s =
        Some (partial_loop call MINIARG_PROCESS_FLAG_FLAGS argv argdef badfn (UserData callbackdata) 1
          \<lparr>standalonevaluedefset = False, standalonevaluedef = None\<rparr> s)"
    and "miniargv_process_arg_params call argv argdef badfn callbackdata s =
        Some (partial_loop call MINIARG_PROCESS_FLAG_VALUES argv argdef badfn (UserData callbackdata) 1
          \<lparr>standalonevaluedefset = False, standalonevaluedef = None\<rparr> s)"
    by (simp_all add: miniargv_process_arg_def miniargv_process_arg_flags_def
        miniargv_process_arg_params_def process_partial_returns flag_defs)
next
  assume a: "(\<forall>t\<in>set argv. CHR 0x00 \<notin> set t) \<and>
    (\<forall>g e w x. fst (call g (Some e) w (UserData callbackdata) x) = 0) \<and>
    (miniargv_process_arg call argv argdef badfn callbackdata s = Some (r, s', tr) \<or>
     miniargv_process_arg_flags call argv argdef badfn callbackdata s = Some (r, s', tr) \<or>
     miniargv_process_arg_params call argv argdef badfn callbackdata s = Some (r, s', tr))"
  then have nul: "\<forall>t\<in>set argv. CHR 0x00 \<notin> set t"
    and acc: "\<forall>g e w x. fst (call g (Some e) w (UserData callbackdata) x) = 0"
    by blast+
  from a have "miniargv_process_arg call argv argdef badfn callbackdata s = Some (r, s', tr) \<or>
     miniargv_process_arg_flags call argv argdef badfn callbackdata s = Some (r, s', tr) \<or>
     miniargv_process_arg_params call argv argdef badfn callbackdata s = Some (r, s', tr)"
    by blast
  then obtain flags where nf: "flags AND MINIARG_PROCESS_FLAG_FIND_ONLY = 0"
    and run: "partial_loop call flags argv argdef badfn (UserData callbackdata) 1
       \<lparr>standalonevaluedefset = False, standalonevaluedef = None\<rparr> s = (r, s', tr)"
    by (rule traversal_loop)
  show "case first_unmatched argdef argv 1 of
         None \<Rightarrow> r = 0 \<and> (\<forall>e\<in>set tr. \<exists>c d v. e = Callback c d v)
       | Some k \<Rightarrow>
           (badfn = None \<longrightarrow> r = int k) \<and>
           (\<forall>b. badfn = Some b \<longrightarrow>
              BadArg k (argv ! k) \<in> set tr \<and>
              ((\<forall>x. fst (call b None (Some (argv ! k)) (UserData callbackdata) x) \<noteq> 0) \<longrightarrow>
                 r = int k))"
    by (rule partial_loop_accepting [OF nul acc nf cache_inv_initial run])
next
  assume a: "(miniargv_process_arg call argv argdef badfn callbackdata s = Some (r, s', tr) \<or>
     miniargv_process_arg_flags call argv argdef badfn callbackdata s = Some (r, s', tr) \<or>
     miniargv_process_arg_params call argv argdef badfn callbackdata s = Some (r, s', tr)) \<and>
    Callback c d v \<in> set tr \<and> callbackfn d = Some f \<and>
    (\<forall>x. fst (call f (Some d) v (UserData callbackdata) x) \<noteq> 0)"
  then have ev: "Callback c d v \<in> set tr" and f: "callbackfn d = Some f"
    and ref: "\<forall>x. fst (call f (Some d) v (UserData callbackdata) x) \<noteq> 0"
    by blast+
  from a have "miniargv_process_arg call argv argdef badfn callbackdata s = Some (r, s', tr) \<or>
     miniargv_process_arg_flags call argv argdef badfn callbackdata s = Some (r, s', tr) \<or>
     miniargv_process_arg_params call argv argdef badfn callbackdata s = Some (r, s', tr)"
    by blast
  then obtain flags where nf: "flags AND MINIARG_PROCESS_FLAG_FIND_ONLY = 0"
    and run: "partial_loop call flags argv argdef badfn (UserData callbackdata) 1
       \<lparr>standalonevaluedefset = False, standalonevaluedef = None\<rparr> s = (r, s', tr)"
    by (rule traversal_loop)
  from partial_loop_refusal [OF nf run ev f ref]
  show "badfn = None \<Longrightarrow> r = int c"
    and "\<forall>b. badfn = Some b \<longrightarrow>
         BadArg c (argv ! c) \<in> set tr \<and>
         ((\<forall>x. fst (call b None (Some (argv ! c)) (UserData callbackdata) x) \<noteq> 0) \<longrightarrow>
            r = int c)"
    by blast+
next
  assume a: "(miniargv_process_arg call argv argdef badfn callbackdata s = Some (r, s', tr) \<or>
     miniargv_process_arg_flags call argv argdef badfn callbackdata s = Some (r, s', tr) \<or>
     miniargv_process_arg_params call argv argdef badfn callbackdata s = Some (r, s', tr)) \<and>
    badfn = Some h"
  then have h: "badfn = Some h" by blast
  from a have "miniargv_process_arg call argv argdef badfn callbackdata s = Some (r, s', tr) \<or>
     miniargv_process_arg_flags call argv argdef badfn callbackdata s = Some (r, s', tr) \<or>
     miniargv_process_arg_params call argv argdef badfn callbackdata s = Some (r, s', tr)"
    by blast
  then obtain flags where nf: "flags AND MINIARG_PROCESS_FLAG_FIND_ONLY = 0"
    and run: "partial_loop call flags argv argdef badfn (UserData callbackdata) 1
       \<lparr>standalonevaluedefset = False, standalonevaluedef = None\<rparr> s = (r, s', tr)"
    by (rule traversal_loop)
  from partial_loop_handler [OF nf run h]
  show "r \<noteq> 0 \<Longrightarrow> \<exists>x. fst (call h None (Some (argv ! nat r)) (UserData callbackdata) x) \<noteq> 0"
    and "\<forall>w x. fst (call h None w (UserData callbackdata) x) = 0 \<Longrightarrow> r = 0"
    by blast+
qed

text \<open>
  On the example table: \<open>-v -x\<close> without a handler returns 2 after the verbose callback and
  the diagnostic for \<open>-x\<close>, and 2 is the first token without a match result; with a
  handler that returns 5, \<open>-x\<close> returns 1 after the handler's call; when the verbose
  callback returns 5, \<open>-v\<close> returns 1; with a handler that returns 0, \<open>-x\<close> returns 0;
  the pass for values is the loop from cursor 1.
\<close>

theorem return_contract_witness:
  "miniargv_process_arg counting_call [''prog'', ''-v'', ''-x''] example_argdef None () 0 =
     Some (2, 1, [Callback 1 verbose_def None,
       Stderr (''Invalid command line argument: -x'' @ [CHR 0x0A])]) \<and>
   (2 :: int) < int (length [''prog'', ''-v'', ''-x'']) \<and>
   last [Callback 1 verbose_def None,
       Stderr (''Invalid command line argument: -x'' @ [CHR 0x0A])] =
     Stderr (''Invalid command line argument: '' @ [''prog'', ''-v'', ''-x''] ! nat 2 @ [CHR 0x0A]) \<and>
   resolve_arg refusing_call MINIARG_PROCESS_FLAG_BOTH [''prog'', ''-x''] example_argdef
     (UserData ()) 1 \<lparr>standalonevaluedefset = False, standalonevaluedef = None\<rparr> 0 =
     (Resolved False 1 0 [], \<lparr>standalonevaluedefset = False, standalonevaluedef = None\<rparr>) \<and>
   partial_loop refusing_call MINIARG_PROCESS_FLAG_BOTH [''prog'', ''-x''] example_argdef
     (Some Bad_cb) (UserData ()) 1 \<lparr>standalonevaluedefset = False, standalonevaluedef = None\<rparr> 0 =
     (1, 1, [BadArg 1 ''-x'']) \<and>
   first_unmatched example_argdef [''prog'', ''-v'', ''-x''] 1 = Some 2 \<and>
   (\<exists>s' tr. miniargv_process_arg_flags counting_call [''prog'', ''-v'', ''-x''] example_argdef
      None () 0 = Some (2, s', tr)) \<and>
   (\<exists>s'. miniargv_process_arg refusing_call [''prog'', ''-v''] example_argdef None () 0 =
     Some (1, s', [Callback 1 verbose_def None,
       Stderr (''Invalid command line argument: -v'' @ [CHR 0x0A])])) \<and>
   (\<exists>s' tr. miniargv_process_arg counting_call [''prog'', ''-x''] example_argdef
      (Some Bad_cb) () 0 = Some (0, s', tr)) \<and>
   miniargv_process_arg_params counting_call [''prog'', ''-v'', ''-x''] example_argdef None () 0 =
     Some (partial_loop counting_call MINIARG_PROCESS_FLAG_VALUES [''prog'', ''-v'', ''-x'']
       example_argdef None (UserData ()) 1
       \<lparr>standalonevaluedefset = False, standalonevaluedef = None\<rparr> 0)"
proof -
  let ?cache = "\<lparr>standalonevaluedefset = False, standalonevaluedef = None\<rparr> ::
    (example_fn, unit) standalone_cache"
  let ?argv = "[''prog'', ''-v'', ''-x'']"
  have run: "miniargv_process_arg counting_call ?argv example_argdef None () 0 =
     Some (2, 1, [Callback 1 verbose_def None,
       Stderr (''Invalid command line argument: -x'' @ [CHR 0x0A])])"
    by (simp add: miniargv_process_arg_def engine_defs flag_defs partial_loop.simps example_defs
        counting_call_def)
  from return_contract [where call = counting_call and argv = ?argv
      and argdef = example_argdef and badfn = None and callbackdata = "()" and s = 0
      and r = 2 and s' = 1
      and tr = "[Callback 1 verbose_def None,
        Stderr (''Invalid command line argument: -x'' @ [CHR 0x0A])]",
      THEN conjunct2, THEN conjunct1, THEN mp, OF disjI1, OF run]
  have a: "(2 :: int) < int (length ?argv) \<and>
     last [Callback 1 verbose_def None,
       Stderr (''Invalid command line argument: -x'' @ [CHR 0x0A])] =
     Stderr (''Invalid command line argument: '' @ ?argv ! nat 2 @ [CHR 0x0A])"
    by simp
  have un: "resolve_arg refusing_call MINIARG_PROCESS_FLAG_BOTH [''prog'', ''-x''] example_argdef
     (UserData ()) 1 ?cache 0 = (Resolved False 1 0 [], ?cache)"
    by (simp add: engine_defs example_defs)
  have pre: "1 < length [''prog'', ''-x''] \<and>
     MINIARG_PROCESS_FLAG_BOTH AND MINIARG_PROCESS_FLAG_FIND_ONLY = 0 \<and>
     resolve_arg refusing_call MINIARG_PROCESS_FLAG_BOTH [''prog'', ''-x''] example_argdef
       (UserData ()) 1 ?cache 0 = (Resolved False 1 0 [], ?cache)"
    using un by (simp add: flag_defs)
  from return_contract [where call = refusing_call and argv = "[''prog'', ''-x'']"
      and argdef = example_argdef and badfn = "Some Bad_cb" and flags = MINIARG_PROCESS_FLAG_BOTH
      and cbd = "UserData ()" and i = 1 and cache = ?cache and s = 0 and j = 1 and st = 0
      and ev = "[]" and cache' = ?cache,
      THEN conjunct2, THEN conjunct2, THEN conjunct2, THEN conjunct1, THEN mp, OF pre]
  have b: "partial_loop refusing_call MINIARG_PROCESS_FLAG_BOTH [''prog'', ''-x''] example_argdef
     (Some Bad_cb) (UserData ()) 1 ?cache 0 = (1, 1, [BadArg 1 ''-x''])"
    by (simp add: refusing_call_def)
  have fu: "first_unmatched example_argdef ?argv 1 = Some 2"
    by (simp add: first_unmatched.simps match_token_def standalone_token_def example_defs)
  have nul: "\<forall>t\<in>set ?argv. CHR 0x00 \<notin> set t" by simp
  have acc: "\<forall>g e w x. fst (counting_call g (Some e) w (UserData ()) x) = 0"
    by (simp add: counting_call_def)
  have "miniargv_process_arg_flags counting_call ?argv example_argdef None () 0 \<noteq> None"
    using return_contract [where call = counting_call and argv = ?argv
      and argdef = example_argdef and badfn = None and callbackdata = "()" and s = 0,
      THEN conjunct1]
    by simp
  then obtain r s' tr where fl:
    "miniargv_process_arg_flags counting_call ?argv example_argdef None () 0 = Some (r, s', tr)"
    by auto
  from return_contract [where call = counting_call and argv = ?argv
      and argdef = example_argdef and badfn = None and callbackdata = "()" and s = 0
      and r = r and s' = s' and tr = tr,
      THEN conjunct2, THEN conjunct2, THEN conjunct2, THEN conjunct2, THEN conjunct2,
      THEN conjunct1, THEN mp, OF conjI [OF nul conjI [OF acc disjI2 [OF disjI1 [OF fl]]]]]
  have "r = 2" unfolding fu by simp
  with fl have c: "\<exists>s' tr. miniargv_process_arg_flags counting_call ?argv example_argdef
      None () 0 = Some (2, s', tr)" by blast
  have "miniargv_process_arg refusing_call [''prog'', ''-v''] example_argdef None () 0 \<noteq> None"
    using return_contract [where call = refusing_call and argv = "[''prog'', ''-v'']"
      and argdef = example_argdef and badfn = None and callbackdata = "()" and s = 0,
      THEN conjunct1]
    by simp
  then obtain r7 s7 tr7 where h7:
    "miniargv_process_arg refusing_call [''prog'', ''-v''] example_argdef None () 0 =
       Some (r7, s7, tr7)"
    by auto
  then have tr7: "tr7 = [Callback 1 verbose_def None,
       Stderr (''Invalid command line argument: -v'' @ [CHR 0x0A])]"
    by (auto simp: miniargv_process_arg_def engine_defs flag_defs partial_loop.simps example_defs
        refusing_call_def)
  have pre7: "(miniargv_process_arg refusing_call [''prog'', ''-v''] example_argdef None () 0 =
        Some (r7, s7, tr7) \<or>
      miniargv_process_arg_flags refusing_call [''prog'', ''-v''] example_argdef None () 0 =
        Some (r7, s7, tr7) \<or>
      miniargv_process_arg_params refusing_call [''prog'', ''-v''] example_argdef None () 0 =
        Some (r7, s7, tr7)) \<and>
     Callback 1 verbose_def None \<in> set tr7 \<and> callbackfn verbose_def = Some Verbose_cb \<and>
     (\<forall>x. fst (refusing_call Verbose_cb (Some verbose_def) None (UserData ()) x) \<noteq> 0)"
    using h7 tr7 by (simp add: refusing_call_def example_defs)
  from return_contract [where call = refusing_call and argv = "[''prog'', ''-v'']"
      and argdef = example_argdef and badfn = None and callbackdata = "()" and s = 0
      and r = r7 and s' = s7 and tr = tr7 and c = 1 and d = verbose_def and v = None
      and f = Verbose_cb,
      THEN conjunct2, THEN conjunct2, THEN conjunct2, THEN conjunct2, THEN conjunct2,
      THEN conjunct2, THEN conjunct1, THEN mp, OF pre7, THEN conjunct1, THEN mp, OF refl]
  have "r7 = 1" by simp
  with h7 tr7 have run7: "\<exists>s'. miniargv_process_arg refusing_call [''prog'', ''-v''] example_argdef
      None () 0 =
     Some (1, s', [Callback 1 verbose_def None,
       Stderr (''Invalid command line argument: -v'' @ [CHR 0x0A])])" by blast
  have "miniargv_process_arg counting_call [''prog'', ''-x''] example_argdef (Some Bad_cb) () 0
      \<noteq> None"
    using return_contract [where call = counting_call and argv = "[''prog'', ''-x'']"
      and argdef = example_argdef and badfn = "Some Bad_cb" and callbackdata = "()" and s = 0,
      THEN conjunct1]
    by simp
  then obtain r8 s8 tr8 where h8:
    "miniargv_process_arg counting_call [''prog'', ''-x''] example_argdef (Some Bad_cb) () 0 =
       Some (r8, s8, tr8)"
    by auto
  have acc8: "\<forall>w x. fst (counting_call Bad_cb None w (UserData ()) x) = 0"
    by (simp add: counting_call_def)
  from return_contract [where call = counting_call and argv = "[''prog'', ''-x'']"
      and argdef = example_argdef and badfn = "Some Bad_cb" and callbackdata = "()" and s = 0
      and r = r8 and s' = s8 and tr = tr8 and h = Bad_cb,
      THEN conjunct2, THEN conjunct2, THEN conjunct2, THEN conjunct2, THEN conjunct2,
      THEN conjunct2, THEN conjunct2, THEN mp, OF conjI [OF disjI1 [OF h8] refl],
      THEN conjunct2, THEN mp, OF acc8]
  have "r8 = 0" .
  with h8 have d: "\<exists>s' tr. miniargv_process_arg counting_call [''prog'', ''-x''] example_argdef
      (Some Bad_cb) () 0 = Some (0, s', tr)" by blast
  from return_contract [where call = counting_call and argv = ?argv
      and argdef = example_argdef and badfn = None and callbackdata = "()" and s = 0,
      THEN conjunct2, THEN conjunct2, THEN conjunct2, THEN conjunct2, THEN conjunct1]
  have tie: "miniargv_process_arg_params counting_call ?argv example_argdef None () 0 =
     Some (partial_loop counting_call MINIARG_PROCESS_FLAG_VALUES ?argv
       example_argdef None (UserData ()) 1 ?cache 0)"
    by simp
  from run a un b fu c run7 d tie show ?thesis by blast
qed

section \<open>The find-only query\<close>








































end
